theory Spec2Isabelle
  imports Main
begin

section \<open>JavaScript values\<close>

text \<open>
  The values that flow through \<open>lib/helpers/request.js\<close>. Strings and buffers are byte
  sequences (\<open>string\<close>), so \<open>Buffer.byteLength\<close> of a string is its \<open>length\<close>.
  A plain object is an association list in property order with distinct keys.
  \<open>JOpaque\<close> stands for an object that is not a plain object (a class instance such as
  an agent or a key object) and has the default string conversion. \<open>JNum\<close> holds the
  integers of magnitude below \<open>10^21\<close>, which JavaScript prints in full, digit by
  digit.
\<close>

datatype jsval =
    JUndefined
  | JNull
  | JBool bool
  | JNum int
  | JStr string
  | JBuf string
  | JObj "(string \<times> jsval) list"
  | JOpaque nat

type_synonym props = "(string \<times> jsval) list"

fun truthy :: "jsval \<Rightarrow> bool" where
  "truthy JUndefined = False"
| "truthy JNull = False"
| "truthy (JBool b) = b"
| "truthy (JNum n) = (n \<noteq> 0)"
| "truthy (JStr s) = (s \<noteq> [])"
| "truthy (JBuf s) = True"
| "truthy (JObj ps) = True"
| "truthy (JOpaque n) = True"

text \<open>Property read \<open>o[k]\<close>, property write \<open>o[k] = v\<close> and \<open>delete o[k]\<close> on the
  property list of a plain object.\<close>

definition prop_get :: "props \<Rightarrow> string \<Rightarrow> jsval" where
  "prop_get ps k = (case map_of ps k of None \<Rightarrow> JUndefined | Some v \<Rightarrow> v)"

fun prop_set :: "props \<Rightarrow> string \<Rightarrow> jsval \<Rightarrow> props" where
  "prop_set [] k v = [(k, v)]"
| "prop_set ((k', v') # ps) k v =
     (if k' = k then (k, v) # ps else (k', v') # prop_set ps k v)"

definition prop_delete :: "props \<Rightarrow> string \<Rightarrow> props" where
  "prop_delete ps k = filter (\<lambda>(k', v). k' \<noteq> k) ps"

text \<open>\<open>v[k]\<close> on an arbitrary value: only plain objects carry the properties the code
  reads.\<close>

fun js_get :: "jsval \<Rightarrow> string \<Rightarrow> jsval" where
  "js_get (JObj ps) k = prop_get ps k"
| "js_get v k = JUndefined"

text \<open>\<open>v[k] = x\<close>: a write to a primitive is dropped (the module is not in strict mode);
  a write to an opaque object is not visible in this model.\<close>

fun js_set :: "jsval \<Rightarrow> string \<Rightarrow> jsval \<Rightarrow> jsval" where
  "js_set (JObj ps) k x = JObj (prop_set ps k x)"
| "js_set v k x = v"

subsection \<open>String conversion\<close>

definition digit_char :: "nat \<Rightarrow> char" where
  "digit_char d = ''0123456789'' ! (d mod 10)"

fun nat_digits :: "nat \<Rightarrow> string" where
  "nat_digits n =
     (if n < 10 then [digit_char n] else nat_digits (n div 10) @ [digit_char (n mod 10)])"

declare nat_digits.simps [simp del]

text \<open>The conversion a template literal and \<open>RegExp.prototype.test\<close> apply to their
  argument.\<close>

fun ToString :: "jsval \<Rightarrow> string" where
  "ToString JUndefined = ''undefined''"
| "ToString JNull = ''null''"
| "ToString (JBool b) = (if b then ''true'' else ''false'')"
| "ToString (JNum n) = (if n < 0 then CHR ''-'' # nat_digits (nat (- n)) else nat_digits (nat n))"
| "ToString (JStr s) = s"
| "ToString (JBuf s) = s"
| "ToString (JObj ps) = ''[object Object]''"
| "ToString (JOpaque n) = ''[object Object]''"

text \<open>\<open>Object.entries(v)\<close>: the own enumerable properties; for a string these are its
  indexed characters.\<close>

fun entries :: "jsval \<Rightarrow> props" where
  "entries (JObj ps) = ps"
| "entries (JStr s) = zip (map (\<lambda>i. nat_digits i) [0..<length s]) (map (\<lambda>c. JStr [c]) s)"
| "entries v = []"

subsection \<open>The nonce character set\<close>

text \<open>\<open>const NQCHAR = /^[\x21\x23-\x5B\x5D-\x7E]+$/\<close>\<close>

definition nqchar :: "char \<Rightarrow> bool" where
  "nqchar c = (let n = (of_char c :: nat) in
     n = 0x21 \<or> (0x23 \<le> n \<and> n \<le> 0x5B) \<or> (0x5D \<le> n \<and> n \<le> 0x7E))"

definition NQCHAR_test :: "jsval \<Rightarrow> bool" where
  "NQCHAR_test v = (let s = ToString v in s \<noteq> [] \<and> list_all nqchar s)"

subsection \<open>The nonce cache\<close>

text \<open>
  \<open>const nonces = new LRU({ max: 100 })\<close>. The cache of the \<open>lru-cache\<close> package is a
  list of entries, most recently used first: \<open>get\<close> moves the entry it finds to the
  front, \<open>set\<close> puts the entry at the front and drops the entries beyond the capacity.
\<close>

type_synonym lru = "(string \<times> jsval) list"

definition lru_max :: nat where
  "lru_max = 100"

definition lru_get :: "lru \<Rightarrow> string \<Rightarrow> jsval \<times> lru" where
  "lru_get c k =
     (case map_of c k of
        None \<Rightarrow> (JUndefined, c)
      | Some v \<Rightarrow> (v, (k, v) # filter (\<lambda>(k', x). k' \<noteq> k) c))"

definition lru_set :: "lru \<Rightarrow> string \<Rightarrow> jsval \<Rightarrow> lru" where
  "lru_set c k v = take lru_max ((k, v) # filter (\<lambda>(k', x). k' \<noteq> k) c)"

subsection \<open>The helpers \<open>pick\<close> and \<open>defaults\<close>\<close>

text \<open>
  Modelled from the spec: \<open>./pick\<close> is not among the sources. The hook's result is
  "restricted" to the allow-list: \<open>pick(object, ...paths)\<close> is the object of the listed
  properties that \<open>object\<close> defines, in the order of the list.
\<close>

definition pick :: "jsval \<Rightarrow> string list \<Rightarrow> jsval" where
  "pick obj paths =
     JObj (map (\<lambda>p. (p, js_get obj p)) (filter (\<lambda>p. js_get obj p \<noteq> JUndefined) paths))"

text \<open>
  Modelled from the spec: \<open>./defaults\<close> is not among the sources. Its \<open>deep\<close> export
  fills a target from a sequence of sources; the process-wide defaults, which the spec
  gives the lowest precedence, are the last source in every call of \<open>request.js\<close>, so a
  property keeps the value of the first source that defines it. Sources that are not
  plain objects are skipped (\<open>userOptions\<close> is \<open>undefined\<close> when there is no hook), and
  plain objects met on both sides are merged property by property.
\<close>

fun defaults_into :: "props \<Rightarrow> props \<Rightarrow> props" where
  "defaults_into t [] = t"
| "defaults_into t ((k, v) # s) =
     (let t1 = (if prop_get t k = JUndefined \<and> v \<noteq> JUndefined then prop_set t k v else t)
      in defaults_into
           (case (prop_get t1 k, v) of
              (JObj tk, JObj vs) \<Rightarrow> prop_set t1 k (JObj (defaults_into tk vs))
            | _ \<Rightarrow> t1) s)"

text \<open>
  Modelled from the spec: the variadic call \<open>defaultsDeep(target, ...sources)\<close> of the
  missing \<open>./defaults\<close> helper, folding \<open>defaults_into\<close> over the sources from left to
  right and skipping the sources that are not plain objects.
\<close>

fun defaultsDeep :: "props \<Rightarrow> jsval list \<Rightarrow> props" where
  "defaultsDeep t [] = t"
| "defaultsDeep t (JObj s # srcs) = defaultsDeep (defaults_into t s) srcs"
| "defaultsDeep t (v # srcs) = defaultsDeep t srcs"

text \<open>
  Modelled from the spec: the missing \<open>./defaults\<close> helper does not copy what it
  merges. Its assignment \<open>target[key] = value\<close> stores the source's own nested object
  in the target, and the later sources are merged into that object in place: this is what
  makes the caller's \<open>headers\<close> object the one the request is built from.
  \<open>shared_into t s m\<close> is the source \<open>s\<close> as a call leaves it, \<open>t\<close> being the target
  when \<open>s\<close> is read and \<open>m\<close> the target when the call returns. A nested plain object
  of \<open>s\<close> that the target took over ends with the target's value; one that was merged
  into an object the target already had keeps its own properties, and its nested objects
  are treated alike.
\<close>

fun shared_into :: "props \<Rightarrow> props \<Rightarrow> props \<Rightarrow> props" where
  "shared_into t [] m = []"
| "shared_into t ((k, v) # s) m =
     (k, case v of
           JObj vs \<Rightarrow>
             (if prop_get t k = JUndefined then prop_get m k
              else (case (prop_get t k, prop_get m k) of
                      (JObj tk, JObj mk) \<Rightarrow> JObj (shared_into tk vs mk)
                    | _ \<Rightarrow> v))
         | _ \<Rightarrow> v) # shared_into t s m"

section \<open>Host objects\<close>

text \<open>The fields of a parsed \<open>URL\<close> that the code reads; \<open>href\<close> is determined by
  them.\<close>

record url =
  url_protocol :: string
  url_origin :: string
  url_pathname :: string
  url_searchParams :: "(string \<times> string) list"

datatype error =
    TypeError string
  | RPError string
  | SyntaxError
  | HostError string

text \<open>
  The \<open>body\<close> property of a response: not defined, an accessor installed by
  \<open>Object.defineProperty(response, 'body', { get() ... })\<close> over the collected
  \<open>parts\<close>, or a data property.
\<close>

datatype body_prop =
    NoBody
  | JsonGetter "string list"
  | BufferGetter "string list"
  | BodyValue jsval

record response =
  statusCode :: jsval
  res_headers :: props
  res_body :: body_prop

text \<open>A thrown error with the \<open>response\<close> property attached to it, if any.\<close>

type_synonym thrown = "error \<times> response option"

datatype transport = Http1 | Http2

text \<open>The request object: a \<open>ClientRequest\<close> or a \<open>ClientHttp2Stream\<close>.\<close>

record client_request =
  req_kind :: transport
  req_headers :: props
  req_written :: "jsval list"
  req_ended :: bool
  req_destroyed :: bool
  req_closed :: bool

text \<open>What the peer does with the request: the outcome of
  \<open>Promise.race([once(req, 'response'), once(req, 'timeout')])\<close> and of draining the
  body. An \<open>IncomingMessage\<close> has a numeric \<open>statusCode\<close>; for an HTTP/2 stream the
  \<open>response\<close> event carries the header block only, and \<open>in_statusCode\<close> is not read.\<close>

record incoming =
  in_statusCode :: int
  in_headers :: props

datatype drain = Drained "string list" | DrainFailed error

datatype net = NetFailed error | NetTimeout | NetResponse incoming drain

text \<open>
  The built-ins and the capabilities of \<open>this\<close> that a call uses: \<open>new URL\<close> (\<open>None\<close>
  when it throws), \<open>JSON.stringify\<close>, \<open>JSON.parse\<close> (\<open>None\<close> when it throws),
  \<open>querystring.stringify\<close>, \<open>this.dpopProof\<close> (\<open>None\<close> when \<open>'dpopProof' in this\<close> is
  false), \<open>this[HTTP_OPTIONS]\<close> and the peer. The proof capability and the hook are
  functions of values: they do not write to the objects they are passed, and what the
  hook returns is a fresh object that shares nothing with them.
\<close>

record host =
  new_URL :: "jsval \<Rightarrow> url option"
  JSON_stringify :: "jsval \<Rightarrow> string"
  JSON_parse :: "string \<Rightarrow> jsval option"
  qs_stringify :: "jsval \<Rightarrow> string"
  dpopProof :: "(jsval \<Rightarrow> jsval \<Rightarrow> jsval \<Rightarrow> error + jsval) option"
  optsFn :: "(url \<Rightarrow> jsval \<Rightarrow> error + jsval) option"
  network :: net

text \<open>The second argument of \<open>request\<close>: \<open>{ accessToken, mTLS = false, DPoP }\<close>.\<close>

record extras =
  accessToken :: jsval
  mTLS :: bool
  DPoP :: jsval

datatype event =
    ProofRequested jsval jsval jsval
  | HookCalled url jsval
  | Http2Opened string props
  | Http2SetTimeout jsval
  | Http1Opened bool url props
  | Destroyed
  | Closed
  | NonceStored string jsval

section \<open>Sending the body\<close>

definition allowed :: "string list" where
  "allowed = [''agent'', ''ca'', ''cert'', ''crl'', ''headers'', ''key'', ''lookup'',
              ''passphrase'', ''pfx'', ''timeout'', ''http2'']"

text \<open>\<open>Buffer.byteLength(v)\<close> and \<open>Buffer.from(v).byteLength\<close>: defined for strings and
  buffers, a \<open>TypeError\<close> otherwise.\<close>

fun byte_length :: "jsval \<Rightarrow> nat option" where
  "byte_length (JStr s) = Some (length s)"
| "byte_length (JBuf s) = Some (length s)"
| "byte_length v = None"

definition lower_char :: "char \<Rightarrow> char" where
  "lower_char c = (let n = (of_char c :: nat) in
     if 65 \<le> n \<and> n \<le> 90 then char_of (n + 32) else c)"

text \<open>\<open>req.removeHeader(name)\<close> and \<open>req.setHeader(name, value)\<close> of a
  \<open>ClientRequest\<close>: header names are compared without case.\<close>

definition removeHeader :: "props \<Rightarrow> string \<Rightarrow> props" where
  "removeHeader hs name = filter (\<lambda>(k, v). map lower_char k \<noteq> map lower_char name) hs"

definition setHeader :: "props \<Rightarrow> string \<Rightarrow> jsval \<Rightarrow> props" where
  "setHeader hs name v = removeHeader hs name @ [(name, v)]"

definition send :: "client_request \<Rightarrow> jsval \<Rightarrow> jsval \<Rightarrow> error + client_request" where
  "send req body contentType =
     (if req_kind req = Http2 \<and> truthy body then
        Inr (req\<lparr>req_written := req_written req @ [body], req_ended := True\<rparr>)
      else if truthy contentType \<and> req_kind req = Http2 then
        Inl (TypeError ''req.removeHeader is not a function'')
      else
        let hs1 = (if truthy contentType
                   then setHeader (removeHeader (req_headers req) ''content-type'')
                          ''content-type'' contentType
                   else req_headers req)
        in if truthy body then
             (case byte_length body of
                None \<Rightarrow> Inl (TypeError ''ERR_INVALID_ARG_TYPE'')
              | Some n \<Rightarrow>
                  Inr (req\<lparr>req_headers :=
                             setHeader (removeHeader hs1 ''content-length'')
                               ''content-length'' (JNum (int n)),
                           req_written := req_written req @ [body],
                           req_ended := True\<rparr>))
           else Inr (req\<lparr>req_headers := hs1, req_ended := True\<rparr>))"

section \<open>The stages of \<open>request\<close>\<close>

text \<open>Lines 89 to 96: parse the URL, delete \<open>options.url\<close>, check the protocol against
  \<open>/^(https?:)$/\<close>. The second component is the caller's options object afterwards.\<close>

definition validate_url :: "host \<Rightarrow> props \<Rightarrow> (error + url) \<times> props" where
  "validate_url h options =
     (case new_URL h (prop_get options ''url'') of
        None \<Rightarrow> (Inl (TypeError ''only valid absolute URLs can be requested''), options)
      | Some u \<Rightarrow>
          let options1 = prop_delete options ''url''
          in if url_protocol u = ''http:'' \<or> url_protocol u = ''https:''
             then (Inr u, options1)
             else (Inl (TypeError ''only valid absolute URLs can be requested''), options1))"

definition nonceKey :: "url \<Rightarrow> string" where
  "nonceKey u = url_origin u @ url_pathname u"

text \<open>Lines 101 to 112: \<open>opts\<close> is the caller's object, so the writes to \<open>opts.headers\<close>
  are writes to it. Returns the rejection of \<open>dpopProof\<close> if any, the caller's options,
  the cache and the calls made.\<close>

definition inject_proof ::
  "host \<Rightarrow> lru \<Rightarrow> url \<Rightarrow> props \<Rightarrow> extras \<Rightarrow> error option \<times> props \<times> lru \<times> event list" where
  "inject_proof h nonces u options ex =
     (case dpopProof h of
        None \<Rightarrow> (None, options, nonces, [])
      | Some proof \<Rightarrow>
          if truthy (DPoP ex) then
            let hdrs = (if truthy (prop_get options ''headers'')
                        then prop_get options ''headers'' else JObj []);
                options1 = prop_set options ''headers'' hdrs;
                payload = JObj [(''htu'', JStr (url_origin u @ url_pathname u)),
                                (''htm'', prop_get options1 ''method''),
                                (''nonce'', fst (lru_get nonces (nonceKey u)))];
                nonces1 = snd (lru_get nonces (nonceKey u));
                ev = [ProofRequested payload (DPoP ex) (accessToken ex)]
            in (case proof payload (DPoP ex) (accessToken ex) of
                  Inl e \<Rightarrow> (Some e, options1, nonces1, ev)
                | Inr v \<Rightarrow>
                    (None, prop_set options1 ''headers'' (js_set hdrs ''DPoP'' v), nonces1, ev))
          else (None, options, nonces, []))"

text \<open>Line 117, seen from the caller's options object: the merge for the hook takes
  over every nested plain object of the options and fills it from the defaults.\<close>

definition premerge_shared :: "jsval \<Rightarrow> props \<Rightarrow> props" where
  "premerge_shared dflt opts = shared_into [] opts (defaultsDeep [] [JObj opts, dflt])"

text \<open>Lines 114 to 121: the hook sees the options merged over the defaults; what it
  returns is cut down to \<open>allowed\<close> and becomes the first source of the final merge,
  which reads the caller's options as line 117 left them.\<close>

definition resolve_options ::
  "host \<Rightarrow> jsval \<Rightarrow> url \<Rightarrow> props \<Rightarrow> (error + props) \<times> event list" where
  "resolve_options h dflt u opts =
     (case optsFn h of
        None \<Rightarrow> (Inr (defaultsDeep [] [JUndefined, JObj opts, dflt]), [])
      | Some f \<Rightarrow>
          let pre = JObj (defaultsDeep [] [JObj opts, dflt])
          in (case f u pre of
                Inl e \<Rightarrow> (Inl e, [HookCalled u pre])
              | Inr r \<Rightarrow>
                  (Inr (defaultsDeep [] [pick r allowed, JObj (premerge_shared dflt opts), dflt]),
                   [HookCalled u pre])))"

text \<open>The target of line 121 at the moment the caller's options are read: the
  properties that the hook's result has put there.\<close>

definition hook_target :: "host \<Rightarrow> jsval \<Rightarrow> url \<Rightarrow> props \<Rightarrow> props" where
  "hook_target h dflt u opts =
     (case optsFn h of
        None \<Rightarrow> []
      | Some f \<Rightarrow>
          (case f u (JObj (defaultsDeep [] [JObj opts, dflt])) of
             Inl e \<Rightarrow> []
           | Inr r \<Rightarrow> defaultsDeep [] [pick r allowed]))"

text \<open>The caller's options object after lines 114 to 121. When the hook throws, only
  the merge of line 117 has been made.\<close>

definition resolve_shared :: "host \<Rightarrow> jsval \<Rightarrow> url \<Rightarrow> props \<Rightarrow> props" where
  "resolve_shared h dflt u opts =
     (case optsFn h of
        None \<Rightarrow> shared_into [] opts (defaultsDeep [] [JUndefined, JObj opts, dflt])
      | Some f \<Rightarrow>
          (case f u (JObj (defaultsDeep [] [JObj opts, dflt])) of
             Inl e \<Rightarrow> premerge_shared dflt opts
           | Inr r \<Rightarrow>
               shared_into (defaultsDeep [] [pick r allowed]) (premerge_shared dflt opts)
                 (defaultsDeep [] [pick r allowed, JObj (premerge_shared dflt opts), dflt])))"

text \<open>Line 123.\<close>

definition mtls_missing :: "extras \<Rightarrow> props \<Rightarrow> bool" where
  "mtls_missing ex opts =
     (mTLS ex \<and> \<not> truthy (prop_get opts ''pfx'')
      \<and> \<not> (truthy (prop_get opts ''key'') \<and> truthy (prop_get opts ''cert'')))"

text \<open>Lines 127 to 132: \<open>url.searchParams.delete(key); url.searchParams.set(key, value)\<close>
  for each entry.\<close>

definition merge_search :: "url \<Rightarrow> jsval \<Rightarrow> url" where
  "merge_search u sp =
     (if truthy sp then
        fold (\<lambda>(k, v) u'.
                u'\<lparr>url_searchParams :=
                     filter (\<lambda>(k', x). k' \<noteq> k) (url_searchParams u') @ [(k, ToString v)]\<rparr>)
             (entries sp) u
      else u)"

text \<open>Line 138: the rest of the destructuring
  \<open>({ form, responseType, json, body, ...opts } = opts)\<close>.\<close>

definition rest_opts :: "props \<Rightarrow> props" where
  "rest_opts opts =
     filter (\<lambda>(k, v). k \<notin> set [''form'', ''responseType'', ''json'', ''body'']) opts"

text \<open>Lines 140 to 144: delete the headers whose value is \<open>undefined\<close>.\<close>

definition clean_headers :: "props \<Rightarrow> props" where
  "clean_headers opts =
     (case prop_get opts ''headers'' of
        JObj hs \<Rightarrow> prop_set opts ''headers'' (JObj (filter (\<lambda>(k, v). v \<noteq> JUndefined) hs))
      | _ \<Rightarrow> opts)"

text \<open>The caller's options object after lines 140 to 144. The loop deletes from
  \<open>opts.headers\<close>; this is the caller's own \<open>headers\<close> object when the merge of line
  121 took it over, that is when the hook's result had no \<open>headers\<close> and the caller's
  options had.\<close>

definition clean_shared :: "host \<Rightarrow> jsval \<Rightarrow> url \<Rightarrow> props \<Rightarrow> props" where
  "clean_shared h dflt u opts =
     (case fst (resolve_options h dflt u opts) of
        Inl e \<Rightarrow> resolve_shared h dflt u opts
      | Inr merged \<Rightarrow>
          if prop_get (hook_target h dflt u opts) ''headers'' = JUndefined
             \<and> prop_get opts ''headers'' \<noteq> JUndefined
          then prop_set (resolve_shared h dflt u opts) ''headers''
                 (prop_get (clean_headers (rest_opts merged)) ''headers'')
          else resolve_shared h dflt u opts)"

definition new_request :: "transport \<Rightarrow> props \<Rightarrow> client_request" where
  "new_request t hs =
     \<lparr>req_kind = t, req_headers = hs, req_written = [], req_ended = False,
      req_destroyed = False, req_closed = False\<rparr>"

text \<open>Lines 149 to 164: the header block of an HTTP/2 request; \<open>None\<close> when
  \<open>Buffer.from(body)\<close> throws.\<close>

definition http2_headers ::
  "host \<Rightarrow> url \<Rightarrow> props \<Rightarrow> jsval \<Rightarrow> jsval \<Rightarrow> jsval \<Rightarrow> props option" where
  "http2_headers h u opts json form body =
     (let hs0 = fold (\<lambda>(k, v) acc. prop_set acc k v) (entries (prop_get opts ''headers''))
                  [('':path'', JStr (url_pathname u))]
      in if truthy json then
           Some (prop_set (prop_set (prop_set hs0 '':method'' (JStr ''POST''))
                   ''content-type'' (JStr ''application/json''))
                   ''content-length'' (JNum (int (length (JSON_stringify h json)))))
         else if truthy form then
           Some (prop_set (prop_set (prop_set hs0 '':method'' (JStr ''POST''))
                   ''content-type'' (JStr ''application/x-www-form-urlencoded''))
                   ''content-length'' (JNum (int (length (qs_stringify h form)))))
         else if truthy body then
           (case byte_length body of
              None \<Rightarrow> None
            | Some n \<Rightarrow>
                Some (prop_set (prop_set hs0 '':method'' (JStr ''POST''))
                        ''content-length'' (JNum (int n))))
         else Some hs0)"

text \<open>Lines 148 to 169: open the HTTP/2 stream or the HTTP/1.1 request.\<close>

definition open_request ::
  "host \<Rightarrow> url \<Rightarrow> props \<Rightarrow> jsval \<Rightarrow> jsval \<Rightarrow> jsval
     \<Rightarrow> (error + client_request) \<times> event list" where
  "open_request h u opts json form body =
     (if truthy (prop_get opts ''http2'') then
        (case http2_headers h u opts json form body of
           None \<Rightarrow> (Inl (TypeError ''ERR_INVALID_ARG_TYPE''), [])
         | Some hs \<Rightarrow>
             (Inr (new_request Http2 hs),
              [Http2Opened (url_origin u) hs, Http2SetTimeout (prop_get opts ''timeout'')]))
      else
        (Inr (new_request Http1 (entries (prop_get opts ''headers''))),
         [Http1Opened (url_protocol u = ''https:'') u opts]))"

section \<open>The exchange\<close>

text \<open>Lines 200 to 235: install the \<open>body\<close> accessor when at least one part came.\<close>

definition define_body :: "jsval \<Rightarrow> string list \<Rightarrow> response \<Rightarrow> error + response" where
  "define_body responseType parts r =
     (if parts \<noteq> [] then
        (if responseType = JStr ''json'' then Inr (r\<lparr>res_body := JsonGetter parts\<rparr>)
         else if responseType = JUndefined \<or> responseType = JStr ''buffer''
           then Inr (r\<lparr>res_body := BufferGetter parts\<rparr>)
         else Inl (TypeError ''unsupported responseType request option''))
      else Inr r)"

text \<open>Lines 171 to 179.\<close>

definition send_payload ::
  "host \<Rightarrow> jsval \<Rightarrow> jsval \<Rightarrow> jsval \<Rightarrow> client_request \<Rightarrow> error + client_request" where
  "send_payload h form json body req =
     (if truthy json then send req (JStr (JSON_stringify h json)) (JStr ''application/json'')
      else if truthy form then
        send req (JStr (qs_stringify h form)) (JStr ''application/x-www-form-urlencoded'')
      else if truthy body then send req body JUndefined
      else send req JUndefined JUndefined)"

definition received :: "props \<Rightarrow> incoming \<Rightarrow> response" where
  "received opts inc =
     (if truthy (prop_get opts ''http2'') then
        \<lparr>statusCode = prop_get (in_headers inc) '':status'', res_headers = in_headers inc,
         res_body = NoBody\<rparr>
      else
        \<lparr>statusCode = JNum (in_statusCode inc), res_headers = in_headers inc, res_body = NoBody\<rparr>)"

text \<open>
  Lines 170 to 238, the body of the inner \<open>async\<close> function: its result, the variable
  \<open>response\<close> when it settles, the request object and the calls made.
\<close>

definition attempt ::
  "host \<Rightarrow> props \<Rightarrow> jsval \<Rightarrow> jsval \<Rightarrow> jsval \<Rightarrow> jsval \<Rightarrow> client_request
     \<Rightarrow> (error + response) \<times> response option \<times> client_request \<times> event list" where
  "attempt h opts responseType form json body req =
     (case send_payload h form json body req of
        Inl e \<Rightarrow> (Inl e, None, req, [])
      | Inr req1 \<Rightarrow>
          (case network h of
             NetFailed e \<Rightarrow> (Inl e, None, req1, [])
           | NetTimeout \<Rightarrow>
               (Inl (RPError (''outgoing request timed out after ''
                                @ ToString (prop_get opts ''timeout'') @ ''ms'')),
                None, req1\<lparr>req_destroyed := True\<rparr>, [Destroyed])
           | NetResponse inc dr \<Rightarrow>
               (case dr of
                  DrainFailed e \<Rightarrow> (Inl e, Some (received opts inc), req1, [])
                | Drained parts \<Rightarrow>
                    let req2 = (if truthy (prop_get opts ''http2'')
                                then req1\<lparr>req_closed := True\<rparr> else req1);
                        ev = (if truthy (prop_get opts ''http2'') then [Closed] else [])
                    in (case define_body responseType parts (received opts inc) of
                          Inl e \<Rightarrow> (Inl e, Some (received opts inc), req2, ev)
                        | Inr r \<Rightarrow> (Inr r, Some r, req2, ev)))))"

text \<open>Lines 239 to 248: \<open>.catch\<close> attaches the response to the error, \<open>.finally\<close>
  stores the nonce.\<close>

definition finish ::
  "string \<Rightarrow> lru \<Rightarrow> error + response \<Rightarrow> response option
     \<Rightarrow> (thrown + response) \<times> lru \<times> event list" where
  "finish key nonces res rv =
     (let res' = (case res of Inl e \<Rightarrow> Inl (e, rv) | Inr r \<Rightarrow> Inr r);
          dpopNonce = (case rv of
                         None \<Rightarrow> JUndefined
                       | Some r \<Rightarrow> prop_get (res_headers r) ''dpop-nonce'')
      in if truthy dpopNonce \<and> NQCHAR_test dpopNonce
         then (res', lru_set nonces key dpopNonce, [NonceStored key dpopNonce])
         else (res', nonces, []))"

section \<open>\<open>request\<close>\<close>

text \<open>
  What a call leaves behind: the settled promise, the calls made in order, the nonce
  cache, the caller's options object as the call leaves it (the assignments of lines 92,
  102 and 103, the merges of lines 117 and 121 into its nested objects and the loop of
  lines 140 to 144), and the request object if one was created.
\<close>

record outcome =
  out_result :: "thrown + response"
  out_events :: "event list"
  out_nonces :: lru
  out_options :: props
  out_req :: "client_request option"

definition failed :: "error \<Rightarrow> event list \<Rightarrow> lru \<Rightarrow> props \<Rightarrow> outcome" where
  "failed e ev nonces options =
     \<lparr>out_result = Inl (e, None), out_events = ev, out_nonces = nonces,
      out_options = options, out_req = None\<rparr>"

definition request :: "host \<Rightarrow> jsval \<Rightarrow> lru \<Rightarrow> props \<Rightarrow> extras \<Rightarrow> outcome" where
  "request h dflt nonces options ex =
     (case validate_url h options of
        (Inl e, options1) \<Rightarrow> failed e [] nonces options1
      | (Inr u, options1) \<Rightarrow>
          (case inject_proof h nonces u options1 ex of
             (Some e, options2, nonces1, ev1) \<Rightarrow> failed e ev1 nonces1 options2
           | (None, options2, nonces1, ev1) \<Rightarrow>
               (case resolve_options h dflt u options2 of
                  (Inl e, ev2) \<Rightarrow>
                    failed e (ev1 @ ev2) nonces1 (resolve_shared h dflt u options2)
                | (Inr merged, ev2) \<Rightarrow>
                    if mtls_missing ex merged then
                      failed (TypeError ''mutual-TLS certificate and key not set'')
                        (ev1 @ ev2) nonces1 (resolve_shared h dflt u options2)
                    else
                      let u1 = merge_search u (prop_get merged ''searchParams'');
                          form = prop_get merged ''form'';
                          responseType = prop_get merged ''responseType'';
                          json = prop_get merged ''json'';
                          body = prop_get merged ''body'';
                          opts = clean_headers (rest_opts merged)
                      in (case open_request h u1 opts json form body of
                            (Inl e, ev3) \<Rightarrow>
                              failed e (ev1 @ ev2 @ ev3) nonces1
                                (clean_shared h dflt u options2)
                          | (Inr req, ev3) \<Rightarrow>
                              (case attempt h opts responseType form json body req of
                                 (res, rv, req1, ev4) \<Rightarrow>
                                   (case finish (nonceKey u) nonces1 res rv of
                                      (res', nonces2, ev5) \<Rightarrow>
                                        \<lparr>out_result = res',
                                         out_events = ev1 @ ev2 @ ev3 @ ev4 @ ev5,
                                         out_nonces = nonces2,
                                         out_options = clean_shared h dflt u options2,
                                         out_req = Some req1\<rparr>))))))"

text \<open>
  The process-wide defaults after the call. When neither the hook's result nor the
  caller's options have \<open>headers\<close>, \<open>opts.headers\<close> is the \<open>headers\<close> object of the
  defaults themselves, and the loop of lines 140 to 144 deletes from it.
\<close>

definition request_defaults :: "host \<Rightarrow> jsval \<Rightarrow> lru \<Rightarrow> props \<Rightarrow> extras \<Rightarrow> jsval" where
  "request_defaults h dflt nonces options ex =
     (case validate_url h options of
        (Inl e, options1) \<Rightarrow> dflt
      | (Inr u, options1) \<Rightarrow>
          (case inject_proof h nonces u options1 ex of
             (Some e, options2, nonces1, ev1) \<Rightarrow> dflt
           | (None, options2, nonces1, ev1) \<Rightarrow>
               (case resolve_options h dflt u options2 of
                  (Inl e, ev2) \<Rightarrow> dflt
                | (Inr merged, ev2) \<Rightarrow>
                    if mtls_missing ex merged then dflt
                    else if prop_get (hook_target h dflt u options2) ''headers'' = JUndefined
                            \<and> prop_get options2 ''headers'' = JUndefined
                    then (case js_get dflt ''headers'' of
                            JObj hs \<Rightarrow>
                              js_set dflt ''headers''
                                (JObj (filter (\<lambda>(k, v). v \<noteq> JUndefined) hs))
                          | _ \<Rightarrow> dflt)
                    else dflt)))"

section \<open>Reading the body\<close>

text \<open>
  One read of \<open>response.body\<close>: the value or the error thrown, the response afterwards
  and the number of times the accessor's decoding ran (0 or 1). The \<open>finally\<close> clause
  of the JSON accessor redefines \<open>body\<close> as a data property whether or not
  \<open>JSON.parse\<close> threw; \<open>value\<close> is still the concatenated buffer when it threw.
\<close>

definition get_body :: "host \<Rightarrow> response \<Rightarrow> (thrown + jsval) \<times> response \<times> nat" where
  "get_body h r =
     (case res_body r of
        NoBody \<Rightarrow> (Inr JUndefined, r, 0)
      | BodyValue v \<Rightarrow> (Inr v, r, 0)
      | BufferGetter parts \<Rightarrow>
          (Inr (JBuf (concat parts)), r\<lparr>res_body := BodyValue (JBuf (concat parts))\<rparr>, 1)
      | JsonGetter parts \<Rightarrow>
          (case JSON_parse h (concat parts) of
             None \<Rightarrow>
               (Inl (SyntaxError, Some (r\<lparr>res_body := BodyValue (JBuf (concat parts))\<rparr>)),
                r\<lparr>res_body := BodyValue (JBuf (concat parts))\<rparr>, 1)
           | Some v \<Rightarrow> (Inr v, r\<lparr>res_body := BodyValue v\<rparr>, 1)))"

text \<open>A sequence of reads: the results in order, the response afterwards and the total
  number of decodings.\<close>

fun get_body_times :: "host \<Rightarrow> nat \<Rightarrow> response \<Rightarrow> (thrown + jsval) list \<times> response \<times> nat" where
  "get_body_times h 0 r = ([], r, 0)"
| "get_body_times h (Suc n) r =
     (case get_body h r of
        (x, r1, d1) \<Rightarrow>
          (case get_body_times h n r1 of (xs, r2, d2) \<Rightarrow> (x # xs, r2, d1 + d2)))"

text \<open>The option set of line 121, when lines 89 to 121 do not throw.\<close>

definition resolved :: "host \<Rightarrow> jsval \<Rightarrow> lru \<Rightarrow> props \<Rightarrow> extras \<Rightarrow> props option" where
  "resolved h dflt nonces options ex =
     (case validate_url h options of
        (Inl e, options1) \<Rightarrow> None
      | (Inr u, options1) \<Rightarrow>
          (case inject_proof h nonces u options1 ex of
             (Some e, options2, nonces1, ev1) \<Rightarrow> None
           | (None, options2, nonces1, ev1) \<Rightarrow>
               (case resolve_options h dflt u options2 of
                  (Inl e, ev2) \<Rightarrow> None
                | (Inr merged, ev2) \<Rightarrow> Some merged)))"

text \<open>The \<open>response\<close> variable when the promise settles: the fulfilment value, or what
  \<open>.catch\<close> attached to the error.\<close>

fun response_of :: "thrown + response \<Rightarrow> response option" where
  "response_of (Inr r) = Some r"
| "response_of (Inl (e, rv)) = rv"

fun is_NonceStored :: "event \<Rightarrow> bool" where
  "is_NonceStored (NonceStored k v) = True"
| "is_NonceStored e = False"

fun is_obj :: "jsval \<Rightarrow> bool" where
  "is_obj (JObj ps) = True"
| "is_obj v = False"

section \<open>Example inputs\<close>

definition example_url :: "string \<Rightarrow> url" where
  "example_url p =
     \<lparr>url_protocol = p, url_origin = p @ ''//op.example'', url_pathname = ''/token'',
      url_searchParams = []\<rparr>"

definition example_host :: "net \<Rightarrow> host" where
  \<open>example_host n =
     \<lparr>new_URL = (\<lambda>v. if v = JStr ''https://op.example/token'' then Some (example_url ''https:'')
                      else if v = JStr ''ftp://op.example/token'' then Some (example_url ''ftp:'')
                      else None),
      JSON_stringify = (\<lambda>v. if v = JObj [(''x'', JNum 1)] then ''{"x":1}'' else ''null''),
      JSON_parse = (\<lambda>s. if s = ''{"a":1}'' then Some (JObj [(''a'', JNum 1)]) else None),
      qs_stringify = (\<lambda>v. []),
      dpopProof = None,
      optsFn = None,
      network = n\<rparr>\<close>

definition example_defaults :: jsval where
  "example_defaults =
     JObj [(''headers'', JObj [(''User-Agent'', JStr ''openid-client'')]),
           (''timeout'', JNum 3500)]"

definition example_extras :: extras where
  "example_extras = \<lparr>accessToken = JUndefined, mTLS = False, DPoP = JUndefined\<rparr>"

definition example_incoming :: "props \<Rightarrow> incoming" where
  "example_incoming hs = \<lparr>in_statusCode = 200, in_headers = hs\<rparr>"


definition example_dpop_host :: "net \<Rightarrow> host" where
  "example_dpop_host n =
     (example_host n)
       \<lparr>dpopProof := Some (\<lambda>payload key token.
          Inr (JStr (''proof:'' @ ToString (js_get payload ''nonce''))))\<rparr>"

definition example_forging_host :: host where
  "example_forging_host =
     (example_dpop_host NetTimeout)
       \<lparr>optsFn := Some (\<lambda>u pre.
          Inr (JObj [(''headers'', JObj [(''DPoP'', JStr ''forged'')])]))\<rparr>"

definition example_dpop_extras :: extras where
  "example_dpop_extras = \<lparr>accessToken = JUndefined, mTLS = False, DPoP = JOpaque 1\<rparr>"

section \<open>Facts about the stages\<close>

lemma send_kind: "send req b ct = Inr req1 \<Longrightarrow> req_kind req1 = req_kind req"
  by (auto simp: send_def Let_def split: if_splits option.splits)

lemma send_payload_kind: "send_payload h form json body req = Inr req1 \<Longrightarrow> req_kind req1 = req_kind req"
  by (auto simp: send_payload_def dest: send_kind split: if_splits)

lemma define_body_head:
  "define_body rt parts r = Inr r' \<Longrightarrow> statusCode r' = statusCode r \<and> res_headers r' = res_headers r"
  by (auto simp: define_body_def split: if_splits)

lemma attempt_Inr:
  assumes "attempt h opts rt form json body req = (Inr r, rv, req1, ev)"
  shows "\<exists>inc parts. network h = NetResponse inc (Drained parts)
        \<and> statusCode r = statusCode (received opts inc)
        \<and> res_headers r = in_headers inc
        \<and> req_kind req1 = req_kind req \<and> rv = Some r"
proof -
  from assms obtain rq where s: "send_payload h form json body req = Inr rq"
    by (auto simp: attempt_def split: sum.splits)
  from assms s obtain inc parts where n: "network h = NetResponse inc (Drained parts)"
    by (auto simp: attempt_def split: net.splits drain.splits)
  from assms s n have d: "define_body rt parts (received opts inc) = Inr r" and rv: "rv = Some r"
    and k: "req_kind req1 = req_kind rq"
    by (auto simp: attempt_def Let_def split: sum.splits if_splits)
  have "res_headers (received opts inc) = in_headers inc" by (simp add: received_def)
  with define_body_head[OF d] send_payload_kind[OF s] n rv k show ?thesis by simp
qed

lemma finish_result:
  "finish k n res rv = (res', n', ev) \<Longrightarrow> res' = (case res of Inl e \<Rightarrow> Inl (e, rv) | Inr r \<Rightarrow> Inr r)"
  by (auto simp: finish_def Let_def split: if_splits)

lemma open_request_kind:
  "open_request h u opts json form body = (Inr req, ev) \<Longrightarrow>
     req_kind req = (if truthy (prop_get opts ''http2'') then Http2 else Http1)"
  by (auto simp: open_request_def new_request_def split: if_splits option.splits)

lemma request_inv:
  assumes "out_req (request h dflt nonces options ex) = Some rq"
  shows "\<exists>u o1 o2 n1 ev1 merged ev2 req ev3 res rv ev4 res' n2 ev5.
     validate_url h options = (Inr u, o1)
   \<and> inject_proof h nonces u o1 ex = (None, o2, n1, ev1)
   \<and> resolve_options h dflt u o2 = (Inr merged, ev2)
   \<and> \<not> mtls_missing ex merged
   \<and> open_request h (merge_search u (prop_get merged ''searchParams''))
        (clean_headers (rest_opts merged)) (prop_get merged ''json'')
        (prop_get merged ''form'') (prop_get merged ''body'') = (Inr req, ev3)
   \<and> attempt h (clean_headers (rest_opts merged)) (prop_get merged ''responseType'')
        (prop_get merged ''form'') (prop_get merged ''json'') (prop_get merged ''body'') req
        = (res, rv, rq, ev4)
   \<and> finish (nonceKey u) n1 res rv = (res', n2, ev5)
   \<and> request h dflt nonces options ex =
        \<lparr>out_result = res', out_events = ev1 @ ev2 @ ev3 @ ev4 @ ev5, out_nonces = n2,
         out_options = clean_shared h dflt u o2, out_req = Some rq\<rparr>"
proof -
  obtain x o1 where v0: "validate_url h options = (x, o1)"
    by (cases "validate_url h options")
  with assms obtain u where v: "validate_url h options = (Inr u, o1)"
    by (cases x) (auto simp: request_def failed_def)
  obtain eo o2 n1 ev1 where i0: "inject_proof h nonces u o1 ex = (eo, o2, n1, ev1)"
    by (cases "inject_proof h nonces u o1 ex")
  with assms v have i: "inject_proof h nonces u o1 ex = (None, o2, n1, ev1)"
    by (cases eo) (auto simp: request_def failed_def)
  obtain y ev2 where r0: "resolve_options h dflt u o2 = (y, ev2)"
    by (cases "resolve_options h dflt u o2")
  with assms v i obtain merged where r: "resolve_options h dflt u o2 = (Inr merged, ev2)"
    by (cases y) (auto simp: request_def failed_def)
  from assms v i r have m: "\<not> mtls_missing ex merged"
    by (auto simp: request_def failed_def)
  obtain z ev3 where q0:
    "open_request h (merge_search u (prop_get merged ''searchParams''))
        (clean_headers (rest_opts merged)) (prop_get merged ''json'')
        (prop_get merged ''form'') (prop_get merged ''body'') = (z, ev3)"
    by (cases "open_request h (merge_search u (prop_get merged ''searchParams''))
        (clean_headers (rest_opts merged)) (prop_get merged ''json'')
        (prop_get merged ''form'') (prop_get merged ''body'')")
  with assms v i r m obtain req where q:
    "open_request h (merge_search u (prop_get merged ''searchParams''))
        (clean_headers (rest_opts merged)) (prop_get merged ''json'')
        (prop_get merged ''form'') (prop_get merged ''body'') = (Inr req, ev3)"
    by (cases z) (auto simp: request_def failed_def Let_def)
  obtain res rv rq' ev4 where a:
    "attempt h (clean_headers (rest_opts merged)) (prop_get merged ''responseType'')
        (prop_get merged ''form'') (prop_get merged ''json'') (prop_get merged ''body'') req
        = (res, rv, rq', ev4)"
    by (cases "attempt h (clean_headers (rest_opts merged)) (prop_get merged ''responseType'')
        (prop_get merged ''form'') (prop_get merged ''json'') (prop_get merged ''body'') req")
  obtain res' n2 ev5 where f: "finish (nonceKey u) n1 res rv = (res', n2, ev5)"
    by (cases "finish (nonceKey u) n1 res rv")
  from v i r m q a f have eq: "request h dflt nonces options ex =
        \<lparr>out_result = res', out_events = ev1 @ ev2 @ ev3 @ ev4 @ ev5, out_nonces = n2,
         out_options = clean_shared h dflt u o2, out_req = Some rq'\<rparr>"
    by (simp add: request_def Let_def)
  with assms have "rq' = rq" by simp
  with v i r m q a f eq show ?thesis by blast
qed

lemma request_failed_req:
  assumes "out_req (request h dflt nonces options ex) = None"
  shows "\<exists>e. out_result (request h dflt nonces options ex) = Inl (e, None)"
proof -
  have fl: "\<And>e ev n os. request h dflt nonces options ex = failed e ev n os \<Longrightarrow> ?thesis"
    by (simp add: failed_def)
  obtain x o1 where v0: "validate_url h options = (x, o1)"
    by (cases "validate_url h options")
  show ?thesis
  proof (cases x)
    case (Inl e)
    with v0 show ?thesis by (intro fl) (simp add: request_def)
  next
    case (Inr u)
    obtain eo o2 n1 ev1 where i0: "inject_proof h nonces u o1 ex = (eo, o2, n1, ev1)"
      by (cases "inject_proof h nonces u o1 ex")
    show ?thesis
    proof (cases eo)
      case (Some e)
      with v0 Inr i0 show ?thesis by (intro fl) (simp add: request_def)
    next
      case None
      obtain y ev2 where r0: "resolve_options h dflt u o2 = (y, ev2)"
        by (cases "resolve_options h dflt u o2")
      show ?thesis
      proof (cases y)
        case (Inl e)
        with v0 Inr i0 None r0 show ?thesis by (intro fl) (simp add: request_def)
      next
        case merged: (Inr merged)
        show ?thesis
        proof (cases "mtls_missing ex merged")
          case True
          with v0 Inr i0 None r0 merged show ?thesis by (intro fl) (simp add: request_def)
        next
          case False
          obtain z ev3 where q0:
            "open_request h (merge_search u (prop_get merged ''searchParams''))
              (clean_headers (rest_opts merged)) (prop_get merged ''json'')
              (prop_get merged ''form'') (prop_get merged ''body'') = (z, ev3)"
            by (cases "open_request h (merge_search u (prop_get merged ''searchParams''))
              (clean_headers (rest_opts merged)) (prop_get merged ''json'')
              (prop_get merged ''form'') (prop_get merged ''body'')")
          show ?thesis
          proof (cases z)
            case (Inl e)
            with v0 Inr i0 None r0 merged False q0 show ?thesis
              by (intro fl) (simp add: request_def Let_def)
          next
            case req: (Inr req)
            with v0 Inr i0 None r0 merged False q0
            have "out_req (request h dflt nonces options ex) \<noteq> None"
              by (simp add: request_def Let_def split: prod.splits)
            with assms show ?thesis by simp
          qed
        qed
      qed
    qed
  qed
qed

lemma request_dispatched:
  assumes "validate_url h options = (Inr u, o1)"
    and "inject_proof h nonces u o1 ex = (None, o2, n1, ev1)"
    and "resolve_options h dflt u o2 = (Inr merged, ev2)"
    and "\<not> mtls_missing ex merged"
    and "open_request h (merge_search u (prop_get merged ''searchParams''))
        (clean_headers (rest_opts merged)) (prop_get merged ''json'')
        (prop_get merged ''form'') (prop_get merged ''body'') = (Inr req, ev3)"
    and "attempt h (clean_headers (rest_opts merged)) (prop_get merged ''responseType'')
        (prop_get merged ''form'') (prop_get merged ''json'') (prop_get merged ''body'') req
        = (res, rv, rq, ev4)"
    and "finish (nonceKey u) n1 res rv = (res', n2, ev5)"
  shows "request h dflt nonces options ex =
        \<lparr>out_result = res', out_events = ev1 @ ev2 @ ev3 @ ev4 @ ev5, out_nonces = n2,
         out_options = clean_shared h dflt u o2, out_req = Some rq\<rparr>"
  using assms by (simp add: request_def Let_def)

lemma inject_proof_skip:
  "dpopProof h = None \<or> \<not> truthy (DPoP ex) \<Longrightarrow> inject_proof h n u os ex = (None, os, n, [])"
  by (auto simp: inject_proof_def split: option.splits)

lemma resolve_options_no_hook:
  "optsFn h = None \<Longrightarrow>
     resolve_options h dflt u opts = (Inr (defaultsDeep [] [JUndefined, JObj opts, dflt]), [])"
  by (simp add: resolve_options_def)

lemma clean_shared_no_hook:
  "optsFn h = None \<Longrightarrow>
     clean_shared h dflt u opts =
       (if prop_get opts ''headers'' \<noteq> JUndefined
        then prop_set (shared_into [] opts (defaultsDeep [] [JUndefined, JObj opts, dflt]))
               ''headers''
               (prop_get (clean_headers (rest_opts (defaultsDeep [] [JUndefined, JObj opts, dflt])))
                  ''headers'')
        else shared_into [] opts (defaultsDeep [] [JUndefined, JObj opts, dflt]))"
  by (simp add: clean_shared_def resolve_options_def resolve_shared_def hook_target_def
      prop_get_def del: defaultsDeep.simps)

lemma shared_into_plain: "\<forall>(k, v) \<in> set s. \<not> is_obj v \<Longrightarrow> shared_into t s m = s"
  by (induction s) (auto split: jsval.splits)

lemma clean_shared_plain:
  assumes "optsFn h = None" and "prop_get os ''headers'' = JUndefined"
    and "\<forall>(k, v) \<in> set os. \<not> is_obj v"
  shows "clean_shared h dflt u os = os"
  using assms by (simp add: clean_shared_no_hook shared_into_plain del: defaultsDeep.simps)

section \<open>URL validation\<close>

text \<open>
  C8. When \<open>new URL(options.url)\<close> throws or the protocol is neither \<open>http:\<close> nor
  \<open>https:\<close>, the call fails with the validation \<open>TypeError\<close>, makes no call at all (no
  proof, no hook, no connection), creates no request object and leaves the nonce cache
  alone. When the call fulfils, the URL was an absolute http or https URL, the peer
  responded, and the response carries the peer's headers and status code: the numeric
  \<open>statusCode\<close> of the incoming message over HTTP/1.1, the \<open>:status\<close> entry of the
  header block over HTTP/2.
\<close>

theorem request_url_validation:
  "((new_URL h (prop_get options ''url'') = None
      \<or> (\<exists>u. new_URL h (prop_get options ''url'') = Some u
             \<and> url_protocol u \<noteq> ''http:'' \<and> url_protocol u \<noteq> ''https:''))
     \<longrightarrow> out_result (request h dflt nonces options ex)
           = Inl (TypeError ''only valid absolute URLs can be requested'', None)
         \<and> out_events (request h dflt nonces options ex) = []
         \<and> out_req (request h dflt nonces options ex) = None
         \<and> out_nonces (request h dflt nonces options ex) = nonces)
   \<and> (\<forall>r. out_result (request h dflt nonces options ex) = Inr r
         \<longrightarrow> (\<exists>u inc parts req.
                new_URL h (prop_get options ''url'') = Some u
              \<and> (url_protocol u = ''http:'' \<or> url_protocol u = ''https:'')
              \<and> network h = NetResponse inc (Drained parts)
              \<and> out_req (request h dflt nonces options ex) = Some req
              \<and> statusCode r = (case req_kind req of
                                  Http1 \<Rightarrow> JNum (in_statusCode inc)
                                | Http2 \<Rightarrow> prop_get (in_headers inc) '':status'')
              \<and> res_headers r = in_headers inc))"
proof (intro conjI allI; intro impI)
  assume bad: "new_URL h (prop_get options ''url'') = None
      \<or> (\<exists>u. new_URL h (prop_get options ''url'') = Some u
             \<and> url_protocol u \<noteq> ''http:'' \<and> url_protocol u \<noteq> ''https:'')"
  then obtain os where
    "validate_url h options = (Inl (TypeError ''only valid absolute URLs can be requested''), os)"
    by (auto simp: validate_url_def Let_def)
  then have "request h dflt nonces options ex
      = failed (TypeError ''only valid absolute URLs can be requested'') [] nonces os"
    by (simp add: request_def)
  then show "out_result (request h dflt nonces options ex)
           = Inl (TypeError ''only valid absolute URLs can be requested'', None)
         \<and> out_events (request h dflt nonces options ex) = []
         \<and> out_req (request h dflt nonces options ex) = None
         \<and> out_nonces (request h dflt nonces options ex) = nonces"
    by (simp add: failed_def)
next
  fix r
  assume ok: "out_result (request h dflt nonces options ex) = Inr r"
  have "out_req (request h dflt nonces options ex) \<noteq> None"
  proof
    assume "out_req (request h dflt nonces options ex) = None"
    from request_failed_req[OF this] ok show False by auto
  qed
  then obtain rq where rq: "out_req (request h dflt nonces options ex) = Some rq" by auto
  from request_inv[OF rq] obtain u o1 o2 n1 ev1 merged ev2 req ev3 res rv ev4 res' n2 ev5 where
    v: "validate_url h options = (Inr u, o1)"
    and q: "open_request h (merge_search u (prop_get merged ''searchParams''))
        (clean_headers (rest_opts merged)) (prop_get merged ''json'')
        (prop_get merged ''form'') (prop_get merged ''body'') = (Inr req, ev3)"
    and a: "attempt h (clean_headers (rest_opts merged)) (prop_get merged ''responseType'')
        (prop_get merged ''form'') (prop_get merged ''json'') (prop_get merged ''body'') req
        = (res, rv, rq, ev4)"
    and f: "finish (nonceKey u) n1 res rv = (res', n2, ev5)"
    and eq: "request h dflt nonces options ex =
        \<lparr>out_result = res', out_events = ev1 @ ev2 @ ev3 @ ev4 @ ev5, out_nonces = n2,
         out_options = clean_shared h dflt u o2, out_req = Some rq\<rparr>"
    by blast
  from eq ok have "res' = Inr r" by simp
  with finish_result[OF f] have "res = Inr r" by (cases res) auto
  with a have a': "attempt h (clean_headers (rest_opts merged)) (prop_get merged ''responseType'')
        (prop_get merged ''form'') (prop_get merged ''json'') (prop_get merged ''body'') req
        = (Inr r, rv, rq, ev4)" by simp
  from attempt_Inr[OF a'] obtain inc parts where
    n: "network h = NetResponse inc (Drained parts)"
    and s: "statusCode r = statusCode (received (clean_headers (rest_opts merged)) inc)"
    and hd: "res_headers r = in_headers inc"
    and k: "req_kind rq = req_kind req" by blast
  from v have u: "new_URL h (prop_get options ''url'') = Some u"
    and p: "url_protocol u = ''http:'' \<or> url_protocol u = ''https:''"
    by (auto simp: validate_url_def Let_def split: option.splits if_splits)
  from s k open_request_kind[OF q]
  have "statusCode r = (case req_kind rq of
                                  Http1 \<Rightarrow> JNum (in_statusCode inc)
                                | Http2 \<Rightarrow> prop_get (in_headers inc) '':status'')"
    by (auto simp: received_def split: if_splits)
  with u p n rq hd show "\<exists>u inc parts req.
                new_URL h (prop_get options ''url'') = Some u
              \<and> (url_protocol u = ''http:'' \<or> url_protocol u = ''https:'')
              \<and> network h = NetResponse inc (Drained parts)
              \<and> out_req (request h dflt nonces options ex) = Some req
              \<and> statusCode r = (case req_kind req of
                                  Http1 \<Rightarrow> JNum (in_statusCode inc)
                                | Http2 \<Rightarrow> prop_get (in_headers inc) '':status'')
              \<and> res_headers r = in_headers inc" by blast
qed

section \<open>Example runs\<close>

lemma example_validate:
  "validate_url (example_host n) ((''url'', JStr ''https://op.example/token'') # os)
     = (Inr (example_url ''https:''), prop_delete ((''url'', JStr ''https://op.example/token'') # os) ''url'')"
  by (simp add: validate_url_def example_host_def example_url_def prop_get_def)

lemma example_get_ok:
  "request (example_host (NetResponse (example_incoming []) (Drained []))) example_defaults []
      [(''url'', JStr ''https://op.example/token'')] example_extras
   = \<lparr>out_result = Inr \<lparr>statusCode = JNum 200, res_headers = [], res_body = NoBody\<rparr>,
      out_events = [Http1Opened True (example_url ''https:'')
                      [(''headers'', JObj [(''User-Agent'', JStr ''openid-client'')]),
                       (''timeout'', JNum 3500)]],
      out_nonces = [],
      out_options = [],
      out_req = Some \<lparr>req_kind = Http1, req_headers = [(''User-Agent'', JStr ''openid-client'')],
                      req_written = [], req_ended = True, req_destroyed = False,
                      req_closed = False\<rparr>\<rparr>"
proof -
  let ?h = "example_host (NetResponse (example_incoming []) (Drained []))"
  let ?m = "[(''headers'', JObj [(''User-Agent'', JStr ''openid-client'')]), (''timeout'', JNum 3500)]"
  have v: "validate_url ?h [(''url'', JStr ''https://op.example/token'')]
             = (Inr (example_url ''https:''), [])"
    by (simp add: example_validate prop_delete_def)
  have i: "inject_proof ?h [] (example_url ''https:'') [] example_extras = (None, [], [], [])"
    by (simp add: inject_proof_skip example_host_def)
  have r: "resolve_options ?h example_defaults (example_url ''https:'') [] = (Inr ?m, [])"
    by (simp add: resolve_options_no_hook example_host_def example_defaults_def prop_get_def)
  have m: "\<not> mtls_missing example_extras ?m"
    by (simp add: mtls_missing_def example_extras_def)
  have c: "clean_headers (rest_opts ?m) = ?m"
    by (simp add: clean_headers_def rest_opts_def prop_get_def)
  have q: "open_request ?h (merge_search (example_url ''https:'') (prop_get ?m ''searchParams''))
        (clean_headers (rest_opts ?m)) (prop_get ?m ''json'')
        (prop_get ?m ''form'') (prop_get ?m ''body'')
      = (Inr (new_request Http1 [(''User-Agent'', JStr ''openid-client'')]),
         [Http1Opened True (example_url ''https:'') ?m])"
    unfolding c
    by (simp add: open_request_def merge_search_def prop_get_def example_url_def)
  have a: "attempt ?h (clean_headers (rest_opts ?m)) (prop_get ?m ''responseType'')
        (prop_get ?m ''form'') (prop_get ?m ''json'') (prop_get ?m ''body'')
        (new_request Http1 [(''User-Agent'', JStr ''openid-client'')])
      = (Inr \<lparr>statusCode = JNum 200, res_headers = [], res_body = NoBody\<rparr>,
         Some \<lparr>statusCode = JNum 200, res_headers = [], res_body = NoBody\<rparr>,
         \<lparr>req_kind = Http1, req_headers = [(''User-Agent'', JStr ''openid-client'')],
                      req_written = [], req_ended = True, req_destroyed = False,
                      req_closed = False\<rparr>, [])"
    unfolding c
    by (simp add: attempt_def send_payload_def send_def new_request_def prop_get_def
        example_host_def example_incoming_def received_def define_body_def)
  have f: "finish (nonceKey (example_url ''https:'')) []
             (Inr \<lparr>statusCode = JNum 200, res_headers = [], res_body = NoBody\<rparr>)
             (Some \<lparr>statusCode = JNum 200, res_headers = [], res_body = NoBody\<rparr>)
           = (Inr \<lparr>statusCode = JNum 200, res_headers = [], res_body = NoBody\<rparr>, [], [])"
    by (simp add: finish_def prop_get_def)
  have cs: "clean_shared ?h example_defaults (example_url ''https:'') [] = []"
    by (simp add: clean_shared_plain example_host_def prop_get_def)
  show ?thesis
    using request_dispatched[OF v i r m q a f] cs by simp
qed

theorem request_url_validation_witness:
  "out_result (request (example_host NetTimeout) example_defaults []
      [(''url'', JStr ''ftp://op.example/token'')] example_extras)
     = Inl (TypeError ''only valid absolute URLs can be requested'', None)
   \<and> out_events (request (example_host NetTimeout) example_defaults []
      [(''url'', JStr ''ftp://op.example/token'')] example_extras) = []
   \<and> out_req (request (example_host NetTimeout) example_defaults []
      [(''url'', JStr ''ftp://op.example/token'')] example_extras) = None
   \<and> out_result (request (example_host (NetResponse (example_incoming []) (Drained [])))
        example_defaults [] [(''url'', JStr ''https://op.example/token'')] example_extras)
     = Inr \<lparr>statusCode = JNum 200, res_headers = [], res_body = NoBody\<rparr>
   \<and> (\<exists>u. new_URL (example_host (NetResponse (example_incoming []) (Drained [])))
              (prop_get [(''url'', JStr ''https://op.example/token'')] ''url'') = Some u
          \<and> (url_protocol u = ''http:'' \<or> url_protocol u = ''https:''))"
proof -
  have bad: "new_URL (example_host NetTimeout)
                (prop_get [(''url'', JStr ''ftp://op.example/token'')] ''url'') = None
      \<or> (\<exists>u. new_URL (example_host NetTimeout)
                (prop_get [(''url'', JStr ''ftp://op.example/token'')] ''url'') = Some u
             \<and> url_protocol u \<noteq> ''http:'' \<and> url_protocol u \<noteq> ''https:'')"
    by (simp add: example_host_def example_url_def prop_get_def)
  have ok: "out_result (request (example_host (NetResponse (example_incoming []) (Drained [])))
        example_defaults [] [(''url'', JStr ''https://op.example/token'')] example_extras)
     = Inr \<lparr>statusCode = JNum 200, res_headers = [], res_body = NoBody\<rparr>"
    by (simp add: example_get_ok)
  from bad ok
    request_url_validation[of "example_host NetTimeout"
      "[(''url'', JStr ''ftp://op.example/token'')]" example_defaults "[]" example_extras]
    request_url_validation[of "example_host (NetResponse (example_incoming []) (Drained []))"
      "[(''url'', JStr ''https://op.example/token'')]" example_defaults "[]" example_extras]
  show ?thesis by blast
qed

section \<open>The body accessor\<close>

lemma get_body_times_value:
  "res_body r = BodyValue v \<Longrightarrow> get_body_times h n r = (replicate n (Inr v), r, 0)"
  by (induction n) (simp_all add: get_body_def)

lemma get_body_times_absent:
  "res_body r = NoBody \<Longrightarrow> get_body_times h n r = (replicate n (Inr JUndefined), r, 0)"
  by (induction n) (simp_all add: get_body_def)

lemma get_body_after:
  "get_body h r = (x, r1, d) \<Longrightarrow>
     d \<le> 1 \<and> ((res_body r1 = NoBody \<and> x = Inr JUndefined) \<or>
               (\<exists>v. res_body r1 = BodyValue v \<and> (\<forall>w. x = Inr w \<longrightarrow> w = v)))"
  by (auto simp: get_body_def split: body_prop.splits option.splits)

lemma get_body_times_decodes: "snd (snd (get_body_times h n r)) \<le> 1"
proof (cases n)
  case 0
  then show ?thesis by simp
next
  case (Suc m)
  obtain x r1 d where g: "get_body h r = (x, r1, d)" by (cases "get_body h r")
  from get_body_after[OF g] have d: "d \<le> 1"
    and b: "res_body r1 = NoBody \<or> (\<exists>v. res_body r1 = BodyValue v)" by auto
  from b have "snd (snd (get_body_times h m r1)) = 0"
    by (auto simp: get_body_times_value get_body_times_absent)
  with g d Suc show ?thesis by (auto split: prod.splits)
qed

text \<open>
  C9. Over any number of reads of \<open>response.body\<close> the accessor's decoding (the
  concatenation, and the parse in JSON mode) runs at most once; and once a read has
  returned a value, every later read returns that same value and decodes nothing, since
  the accessor has been replaced by a data property holding it.
\<close>

theorem body_decoded_at_most_once:
  "snd (snd (get_body_times h n r)) \<le> 1
   \<and> (\<forall>v r1 d. get_body h r = (Inr v, r1, d)
         \<longrightarrow> get_body_times h n r1 = (replicate n (Inr v), r1, 0))"
proof (intro conjI allI impI)
  show "snd (snd (get_body_times h n r)) \<le> 1" by (rule get_body_times_decodes)
next
  fix v r1 d
  assume g: "get_body h r = (Inr v, r1, d)"
  from get_body_after[OF g]
  have "(res_body r1 = NoBody \<and> v = JUndefined) \<or> res_body r1 = BodyValue v" by auto
  then show "get_body_times h n r1 = (replicate n (Inr v), r1, 0)"
    by (auto simp: get_body_times_value get_body_times_absent)
qed

theorem body_decoded_at_most_once_witness:
  \<open>get_body (example_host NetTimeout)
      \<lparr>statusCode = JNum 200, res_headers = [], res_body = JsonGetter [''{"a"'', '':1}'']\<rparr>
     = (Inr (JObj [(''a'', JNum 1)]),
        \<lparr>statusCode = JNum 200, res_headers = [], res_body = BodyValue (JObj [(''a'', JNum 1)])\<rparr>,
        1)
   \<and> get_body_times (example_host NetTimeout) 2
        \<lparr>statusCode = JNum 200, res_headers = [], res_body = BodyValue (JObj [(''a'', JNum 1)])\<rparr>
     = ([Inr (JObj [(''a'', JNum 1)]), Inr (JObj [(''a'', JNum 1)])],
        \<lparr>statusCode = JNum 200, res_headers = [], res_body = BodyValue (JObj [(''a'', JNum 1)])\<rparr>,
        0)\<close>
proof -
  have g: \<open>get_body (example_host NetTimeout)
      \<lparr>statusCode = JNum 200, res_headers = [], res_body = JsonGetter [''{"a"'', '':1}'']\<rparr>
     = (Inr (JObj [(''a'', JNum 1)]),
        \<lparr>statusCode = JNum 200, res_headers = [], res_body = BodyValue (JObj [(''a'', JNum 1)])\<rparr>,
        1)\<close>
    by (simp add: get_body_def example_host_def)
  from g body_decoded_at_most_once[of "example_host NetTimeout" 2
      \<open>\<lparr>statusCode = JNum 200, res_headers = [], res_body = JsonGetter [''{"a"'', '':1}'']\<rparr>\<close>]
  show ?thesis by (simp add: numeral_2_eq_2)
qed

text \<open>
  C2, as amended. In JSON mode with at least one part collected and bytes that
  \<open>JSON.parse\<close> rejects, the first read of \<open>body\<close> throws the parse error with the
  response attached, status code and headers as received. The \<open>finally\<close> clause of the
  accessor still redefines \<open>body\<close> as a data property, holding the concatenated raw
  buffer: the accessor is gone after the failed read, and the next read returns the raw
  buffer without throwing and without parsing.
\<close>

theorem json_decode_failure:
  assumes "parts \<noteq> []" and "JSON_parse h (concat parts) = None"
  shows "define_body (JStr ''json'') parts r0 = Inr (r0\<lparr>res_body := JsonGetter parts\<rparr>)
     \<and> get_body h (r0\<lparr>res_body := JsonGetter parts\<rparr>)
         = (Inl (SyntaxError, Some (r0\<lparr>res_body := BodyValue (JBuf (concat parts))\<rparr>)),
            r0\<lparr>res_body := BodyValue (JBuf (concat parts))\<rparr>, 1)
     \<and> statusCode (r0\<lparr>res_body := BodyValue (JBuf (concat parts))\<rparr>) = statusCode r0
     \<and> res_headers (r0\<lparr>res_body := BodyValue (JBuf (concat parts))\<rparr>) = res_headers r0
     \<and> get_body h (r0\<lparr>res_body := BodyValue (JBuf (concat parts))\<rparr>)
         = (Inr (JBuf (concat parts)), r0\<lparr>res_body := BodyValue (JBuf (concat parts))\<rparr>, 0)"
  using assms by (simp add: define_body_def get_body_def)

theorem json_decode_failure_witness:
  "get_body (example_host NetTimeout)
      \<lparr>statusCode = JNum 200, res_headers = [], res_body = JsonGetter [''oops'']\<rparr>
     = (Inl (SyntaxError,
             Some \<lparr>statusCode = JNum 200, res_headers = [], res_body = BodyValue (JBuf ''oops'')\<rparr>),
        \<lparr>statusCode = JNum 200, res_headers = [], res_body = BodyValue (JBuf ''oops'')\<rparr>, 1)"
proof -
  have p: "JSON_parse (example_host NetTimeout) (concat [''oops'']) = None"
    by (simp add: example_host_def)
  have n: "[''oops''] \<noteq> []" by simp
  from json_decode_failure[OF n p,
      of "\<lparr>statusCode = JNum 200, res_headers = [], res_body = NoBody\<rparr>"]
  show ?thesis by simp
qed

text \<open>
  C2 as stated fails: after the failed read \<open>body\<close> is a data property holding the raw
  bytes, not the accessor, and the second read returns them. With no part collected no
  accessor is installed at all, and the read gives \<open>undefined\<close> although the empty input
  is not valid JSON.
\<close>

theorem json_decode_failure_counterexample:
  "get_body (example_host NetTimeout)
      \<lparr>statusCode = JNum 200, res_headers = [], res_body = JsonGetter [''oops'']\<rparr>
     = (Inl (SyntaxError,
             Some \<lparr>statusCode = JNum 200, res_headers = [], res_body = BodyValue (JBuf ''oops'')\<rparr>),
        \<lparr>statusCode = JNum 200, res_headers = [], res_body = BodyValue (JBuf ''oops'')\<rparr>, 1)
   \<and> res_body \<lparr>statusCode = JNum 200, res_headers = [], res_body = BodyValue (JBuf ''oops'')\<rparr>
       \<noteq> JsonGetter [''oops'']
   \<and> get_body (example_host NetTimeout)
        \<lparr>statusCode = JNum 200, res_headers = [], res_body = BodyValue (JBuf ''oops'')\<rparr>
     = (Inr (JBuf ''oops''),
        \<lparr>statusCode = JNum 200, res_headers = [], res_body = BodyValue (JBuf ''oops'')\<rparr>, 0)
   \<and> JSON_parse (example_host NetTimeout) (concat []) = None
   \<and> define_body (JStr ''json'') []
        \<lparr>statusCode = JNum 200, res_headers = [], res_body = NoBody\<rparr>
     = Inr \<lparr>statusCode = JNum 200, res_headers = [], res_body = NoBody\<rparr>
   \<and> get_body (example_host NetTimeout)
        \<lparr>statusCode = JNum 200, res_headers = [], res_body = NoBody\<rparr>
     = (Inr JUndefined, \<lparr>statusCode = JNum 200, res_headers = [], res_body = NoBody\<rparr>, 0)"
  by (simp add: get_body_def define_body_def example_host_def)

section \<open>More facts about the stages\<close>

lemma prop_get_set: "prop_get (prop_set ps k v) k' = (if k' = k then v else prop_get ps k')"
  by (induction ps) (auto simp: prop_get_def)

lemma map_of_filter_key:
  "map_of (filter (\<lambda>(k, v). P k) ps) k' = (if P k' then map_of ps k' else None)"
  by (induction ps) auto

lemma prop_get_filter_key:
  "prop_get (filter (\<lambda>(k, v). P k) ps) k' = (if P k' then prop_get ps k' else JUndefined)"
  by (simp add: prop_get_def map_of_filter_key)

lemma prop_get_rest_opts:
  "k \<notin> set [''form'', ''responseType'', ''json'', ''body''] \<Longrightarrow>
     prop_get (rest_opts m) k = prop_get m k"
  unfolding rest_opts_def by (subst prop_get_filter_key) simp

lemma prop_get_clean_headers:
  "k \<noteq> ''headers'' \<Longrightarrow> prop_get (clean_headers m) k = prop_get m k"
  by (auto simp: clean_headers_def prop_get_set split: jsval.splits)

lemma map_of_lru_get: "map_of (snd (lru_get c k)) = map_of c"
proof (cases "map_of c k")
  case None
  then show ?thesis by (simp add: lru_get_def)
next
  case (Some v)
  have "map_of ((k, v) # filter (\<lambda>(k', x). k' \<noteq> k) c) k' = map_of c k'" for k'
    using Some by (simp add: map_of_filter_key)
  with Some show ?thesis by (auto simp: lru_get_def)
qed

lemma lru_get_set: "fst (lru_get (lru_set c k v) k) = v"
  by (simp add: lru_get_def lru_set_def lru_max_def)

lemma inject_proof_events:
  "inject_proof h n u os ex = (eo, os', n1, ev) \<Longrightarrow>
     filter is_NonceStored ev = [] \<and> map_of n1 = map_of n"
  by (auto simp: inject_proof_def Let_def map_of_lru_get split: option.splits if_splits sum.splits)

lemma resolve_options_events:
  "resolve_options h dflt u opts = (x, ev) \<Longrightarrow> filter is_NonceStored ev = []"
  by (auto simp: resolve_options_def Let_def split: option.splits sum.splits)

lemma open_request_events:
  "open_request h u opts json form body = (x, ev) \<Longrightarrow> filter is_NonceStored ev = []"
  by (auto simp: open_request_def split: if_splits option.splits)

lemma open_request_fresh:
  "open_request h u opts json form body = (Inr req, ev) \<Longrightarrow>
     \<not> req_ended req \<and> \<not> req_destroyed req \<and> req_written req = []
     \<and> ((\<exists>b os. ev = [Http1Opened b u os]) \<or> (\<exists>hs t. ev = [Http2Opened (url_origin u) hs, Http2SetTimeout t]))"
  by (auto simp: open_request_def new_request_def split: if_splits option.splits)

lemma send_ended: "send req b ct = Inr req1 \<Longrightarrow> req_ended req1 \<and> req_destroyed req1 = req_destroyed req"
  by (auto simp: send_def Let_def split: if_splits option.splits)

lemma send_payload_ended:
  "send_payload h form json body req = Inr req1 \<Longrightarrow> req_ended req1 \<and> req_destroyed req1 = req_destroyed req"
  by (auto simp: send_payload_def dest: send_ended split: if_splits)

lemma attempt_events:
  "attempt h opts rt form json body req = (res, rv, rq, ev) \<Longrightarrow> filter is_NonceStored ev = []"
  by (auto simp: attempt_def Let_def split: sum.splits net.splits drain.splits if_splits)

lemma attempt_send_failed:
  "send_payload h form json body req = Inl e \<Longrightarrow>
     attempt h opts rt form json body req = (Inl e, None, req, [])"
  by (simp add: attempt_def)

lemma attempt_sent:
  assumes "attempt h opts rt form json body req = (res, rv, rq, ev)"
    and "\<not> req_ended req" and "req_ended rq"
  shows "\<exists>req1. send_payload h form json body req = Inr req1"
proof (cases "send_payload h form json body req")
  case (Inl e)
  from attempt_send_failed[OF Inl] assms show ?thesis by simp
next
  case (Inr req1)
  then show ?thesis by blast
qed

lemma attempt_timeout:
  assumes "send_payload h form json body req = Inr req1" and "network h = NetTimeout"
  shows "attempt h opts rt form json body req =
     (Inl (RPError (''outgoing request timed out after ''
                                @ ToString (prop_get opts ''timeout'') @ ''ms'')),
      None, req1\<lparr>req_destroyed := True\<rparr>, [Destroyed])"
  using assms by (simp add: attempt_def)

lemma attempt_drained:
  assumes "send_payload h form json body req = Inr req1"
    and "network h = NetResponse inc (Drained parts)"
  shows "fst (attempt h opts rt form json body req) =
           (case define_body rt parts (received opts inc) of Inl e \<Rightarrow> Inl e | Inr r \<Rightarrow> Inr r)
       \<and> fst (snd (attempt h opts rt form json body req)) =
           (case define_body rt parts (received opts inc) of
              Inl e \<Rightarrow> Some (received opts inc) | Inr r \<Rightarrow> Some r)"
  using assms by (simp add: attempt_def Let_def split: sum.splits)

lemma attempt_response:
  "attempt h opts rt form json body req = (res, rv, rq, ev) \<Longrightarrow>
     (\<forall>r. res = Inr r \<longrightarrow> rv = Some r)"
  by (auto simp: attempt_def Let_def split: sum.splits net.splits drain.splits if_splits)

lemma finish_facts:
  assumes "finish k n res rv = (res', n2, ev5)" and "\<forall>r. res = Inr r \<longrightarrow> rv = Some r"
  shows "response_of res' = rv"
    and "res' = (case res of Inl e \<Rightarrow> Inl (e, rv) | Inr r \<Rightarrow> Inr r)"
    and "(n2, ev5) =
       (case rv of
          None \<Rightarrow> (n, [])
        | Some r \<Rightarrow>
            if truthy (prop_get (res_headers r) ''dpop-nonce'')
               \<and> NQCHAR_test (prop_get (res_headers r) ''dpop-nonce'')
            then (lru_set n k (prop_get (res_headers r) ''dpop-nonce''),
                  [NonceStored k (prop_get (res_headers r) ''dpop-nonce'')])
            else (n, []))"
  using assms by (auto simp: finish_def Let_def split: if_splits sum.splits option.splits)

lemma resolved_stages:
  assumes "validate_url h options = (Inr u, o1)"
    and "inject_proof h nonces u o1 ex = (None, o2, n1, ev1)"
    and "resolve_options h dflt u o2 = (Inr merged, ev2)"
  shows "resolved h dflt nonces options ex = Some merged"
  using assms by (simp add: resolved_def)

lemma request_failed_shape:
  assumes "out_req (request h dflt nonces options ex) = None"
  shows "\<exists>e ev n1 os. request h dflt nonces options ex = failed e ev n1 os
           \<and> filter is_NonceStored ev = [] \<and> map_of n1 = map_of nonces"
proof -
  have fl: "\<And>e ev n1 os. request h dflt nonces options ex = failed e ev n1 os \<Longrightarrow>
     filter is_NonceStored ev = [] \<Longrightarrow> map_of n1 = map_of nonces \<Longrightarrow> ?thesis"
    by blast
  obtain x o1 where v0: "validate_url h options = (x, o1)"
    by (cases "validate_url h options")
  show ?thesis
  proof (cases x)
    case (Inl e)
    with v0 have "request h dflt nonces options ex = failed e [] nonces o1"
      by (simp add: request_def)
    from fl[OF this] show ?thesis by simp
  next
    case (Inr u)
    obtain eo o2 n1 ev1 where i0: "inject_proof h nonces u o1 ex = (eo, o2, n1, ev1)"
      by (cases "inject_proof h nonces u o1 ex")
    note e1 = inject_proof_events[OF i0]
    show ?thesis
    proof (cases eo)
      case (Some e)
      with v0 Inr i0 have "request h dflt nonces options ex = failed e ev1 n1 o2"
        by (simp add: request_def)
      from fl[OF this] e1 show ?thesis by simp
    next
      case None
      obtain y ev2 where r0: "resolve_options h dflt u o2 = (y, ev2)"
        by (cases "resolve_options h dflt u o2")
      note e2 = resolve_options_events[OF r0]
      show ?thesis
      proof (cases y)
        case (Inl e)
        with v0 Inr i0 None r0
        have "request h dflt nonces options ex
                = failed e (ev1 @ ev2) n1 (resolve_shared h dflt u o2)"
          by (simp add: request_def)
        from fl[OF this] e1 e2 show ?thesis by simp
      next
        case merged: (Inr merged)
        show ?thesis
        proof (cases "mtls_missing ex merged")
          case True
          with v0 Inr i0 None r0 merged
          have "request h dflt nonces options ex =
                  failed (TypeError ''mutual-TLS certificate and key not set'') (ev1 @ ev2) n1
                    (resolve_shared h dflt u o2)"
            by (simp add: request_def)
          from fl[OF this] e1 e2 show ?thesis by simp
        next
          case False
          obtain z ev3 where q0:
            "open_request h (merge_search u (prop_get merged ''searchParams''))
              (clean_headers (rest_opts merged)) (prop_get merged ''json'')
              (prop_get merged ''form'') (prop_get merged ''body'') = (z, ev3)"
            by (cases "open_request h (merge_search u (prop_get merged ''searchParams''))
              (clean_headers (rest_opts merged)) (prop_get merged ''json'')
              (prop_get merged ''form'') (prop_get merged ''body'')")
          note e3 = open_request_events[OF q0]
          show ?thesis
          proof (cases z)
            case (Inl e)
            with v0 Inr i0 None r0 merged False q0
            have "request h dflt nonces options ex
                    = failed e (ev1 @ ev2 @ ev3) n1 (clean_shared h dflt u o2)"
              by (simp add: request_def Let_def)
            from fl[OF this] e1 e2 e3 show ?thesis by simp
          next
            case req: (Inr req)
            with v0 Inr i0 None r0 merged False q0
            have "out_req (request h dflt nonces options ex) \<noteq> None"
              by (simp add: request_def Let_def split: prod.splits)
            with assms show ?thesis by simp
          qed
        qed
      qed
    qed
  qed
qed

section \<open>More example runs\<close>

lemmas stage_defs = open_request_def http2_headers_def new_request_def merge_search_def
  attempt_def send_payload_def send_def define_body_def received_def finish_def prop_get_def
  clean_headers_def rest_opts_def removeHeader_def setHeader_def lower_char_def
  NQCHAR_test_def nqchar_def lru_set_def lru_get_def lru_max_def nonceKey_def
  example_url_def example_host_def example_defaults_def example_extras_def
  example_incoming_def Let_def

lemma example_plain:
  assumes "prop_delete os ''url'' = os"
    and "defaultsDeep [] [JUndefined, JObj os, example_defaults] = merged"
    and "open_request (example_host n)
           (merge_search (example_url ''https:'') (prop_get merged ''searchParams''))
           (clean_headers (rest_opts merged)) (prop_get merged ''json'')
           (prop_get merged ''form'') (prop_get merged ''body'') = (Inr req, ev3)"
    and "attempt (example_host n) (clean_headers (rest_opts merged))
           (prop_get merged ''responseType'') (prop_get merged ''form'')
           (prop_get merged ''json'') (prop_get merged ''body'') req = (res, rv, rq, ev4)"
    and "finish ''https://op.example/token'' nonces res rv = (res', n2, ev5)"
  shows "request (example_host n) example_defaults nonces
           ((''url'', JStr ''https://op.example/token'') # os) example_extras
         = \<lparr>out_result = res', out_events = ev3 @ ev4 @ ev5, out_nonces = n2,
            out_options = clean_shared (example_host n) example_defaults
                            (example_url ''https:'') os,
            out_req = Some rq\<rparr>
       \<and> resolved (example_host n) example_defaults nonces
           ((''url'', JStr ''https://op.example/token'') # os) example_extras = Some merged"
proof -
  let ?u = "example_url ''https:''"
  have v: "validate_url (example_host n) ((''url'', JStr ''https://op.example/token'') # os)
             = (Inr ?u, os)"
    using assms(1) by (simp add: example_validate prop_delete_def)
  have i: "inject_proof (example_host n) nonces ?u os example_extras = (None, os, nonces, [])"
    by (simp add: inject_proof_skip example_host_def)
  have r: "resolve_options (example_host n) example_defaults ?u os = (Inr merged, [])"
    using assms(2) by (simp add: resolve_options_no_hook example_host_def)
  have m: "\<not> mtls_missing example_extras merged"
    by (simp add: mtls_missing_def example_extras_def)
  have k: "nonceKey ?u = ''https://op.example/token''"
    by (simp add: nonceKey_def example_url_def)
  from request_dispatched[OF v i r m assms(3) assms(4)] assms(5) k resolved_stages[OF v i r]
  show ?thesis by simp
qed

lemma example_merged_plain:
  "defaultsDeep [] [JUndefined, JObj [], example_defaults]
     = [(''headers'', JObj [(''User-Agent'', JStr ''openid-client'')]), (''timeout'', JNum 3500)]"
  by (simp add: example_defaults_def prop_get_def)

lemma example_timeout:
  "request (example_host NetTimeout) example_defaults []
      [(''url'', JStr ''https://op.example/token'')] example_extras
   = \<lparr>out_result = Inl (RPError ''outgoing request timed out after 3500ms'', None),
      out_events = [Http1Opened True (example_url ''https:'')
                      [(''headers'', JObj [(''User-Agent'', JStr ''openid-client'')]),
                       (''timeout'', JNum 3500)], Destroyed],
      out_nonces = [],
      out_options = [],
      out_req = Some \<lparr>req_kind = Http1, req_headers = [(''User-Agent'', JStr ''openid-client'')],
                      req_written = [], req_ended = True, req_destroyed = True,
                      req_closed = False\<rparr>\<rparr>"
proof -
  let ?m = "[(''headers'', JObj [(''User-Agent'', JStr ''openid-client'')]), (''timeout'', JNum 3500)]"
  have d: "nat_digits 3500 = ''3500''"
    by (simp add: nat_digits.simps digit_char_def)
  have p: "prop_delete [] ''url'' = []" by (simp add: prop_delete_def)
  have q: "open_request (example_host NetTimeout)
           (merge_search (example_url ''https:'') (prop_get ?m ''searchParams''))
           (clean_headers (rest_opts ?m)) (prop_get ?m ''json'')
           (prop_get ?m ''form'') (prop_get ?m ''body'')
         = (Inr (new_request Http1 [(''User-Agent'', JStr ''openid-client'')]),
            [Http1Opened True (example_url ''https:'') ?m])"
    by (simp add: stage_defs)
  have a: "attempt (example_host NetTimeout) (clean_headers (rest_opts ?m))
           (prop_get ?m ''responseType'') (prop_get ?m ''form'')
           (prop_get ?m ''json'') (prop_get ?m ''body'')
           (new_request Http1 [(''User-Agent'', JStr ''openid-client'')])
         = (Inl (RPError ''outgoing request timed out after 3500ms''), None,
            \<lparr>req_kind = Http1, req_headers = [(''User-Agent'', JStr ''openid-client'')],
                      req_written = [], req_ended = True, req_destroyed = True,
                      req_closed = False\<rparr>, [Destroyed])"
    by (simp add: stage_defs d)
  have f: "finish ''https://op.example/token'' []
             (Inl (RPError ''outgoing request timed out after 3500ms'')) None
           = (Inl (RPError ''outgoing request timed out after 3500ms'', None), [], [])"
    by (simp add: finish_def)
  have cs: "clean_shared (example_host NetTimeout) example_defaults (example_url ''https:'') []
              = []"
    by (simp add: clean_shared_plain example_host_def prop_get_def)
  from example_plain[OF p example_merged_plain q a f, THEN conjunct1] cs
  show ?thesis by simp
qed

lemma example_merged_text:
  "defaultsDeep [] [JUndefined, JObj [(''responseType'', JStr ''text'')], example_defaults]
     = [(''responseType'', JStr ''text''),
        (''headers'', JObj [(''User-Agent'', JStr ''openid-client'')]), (''timeout'', JNum 3500)]"
  by (simp add: example_defaults_def prop_get_def)

lemma example_text:
  "request (example_host (NetResponse (example_incoming []) (Drained parts))) example_defaults []
      [(''url'', JStr ''https://op.example/token''), (''responseType'', JStr ''text'')]
      example_extras
   = \<lparr>out_result =
        (if parts = [] then Inr \<lparr>statusCode = JNum 200, res_headers = [], res_body = NoBody\<rparr>
         else Inl (TypeError ''unsupported responseType request option'',
                   Some \<lparr>statusCode = JNum 200, res_headers = [], res_body = NoBody\<rparr>)),
      out_events = [Http1Opened True (example_url ''https:'')
                      [(''headers'', JObj [(''User-Agent'', JStr ''openid-client'')]),
                       (''timeout'', JNum 3500)]],
      out_nonces = [],
      out_options = [(''responseType'', JStr ''text'')],
      out_req = Some \<lparr>req_kind = Http1, req_headers = [(''User-Agent'', JStr ''openid-client'')],
                      req_written = [], req_ended = True, req_destroyed = False,
                      req_closed = False\<rparr>\<rparr>
   \<and> resolved (example_host (NetResponse (example_incoming []) (Drained parts)))
        example_defaults []
        [(''url'', JStr ''https://op.example/token''), (''responseType'', JStr ''text'')]
        example_extras
     = Some [(''responseType'', JStr ''text''),
        (''headers'', JObj [(''User-Agent'', JStr ''openid-client'')]), (''timeout'', JNum 3500)]"
proof -
  let ?h = "example_host (NetResponse (example_incoming []) (Drained parts))"
  let ?m = "[(''responseType'', JStr ''text''),
        (''headers'', JObj [(''User-Agent'', JStr ''openid-client'')]), (''timeout'', JNum 3500)]"
  let ?r = "\<lparr>statusCode = JNum 200, res_headers = [], res_body = NoBody\<rparr>"
  let ?res = "if parts = [] then Inr ?r
              else Inl (TypeError ''unsupported responseType request option'')"
  have p: "prop_delete [(''responseType'', JStr ''text'')] ''url''
            = [(''responseType'', JStr ''text'')]"
    by (simp add: prop_delete_def)
  have q: "open_request ?h
           (merge_search (example_url ''https:'') (prop_get ?m ''searchParams''))
           (clean_headers (rest_opts ?m)) (prop_get ?m ''json'')
           (prop_get ?m ''form'') (prop_get ?m ''body'')
         = (Inr (new_request Http1 [(''User-Agent'', JStr ''openid-client'')]),
            [Http1Opened True (example_url ''https:'')
               [(''headers'', JObj [(''User-Agent'', JStr ''openid-client'')]),
                (''timeout'', JNum 3500)]])"
    by (simp add: stage_defs)
  have a: "attempt ?h (clean_headers (rest_opts ?m))
           (prop_get ?m ''responseType'') (prop_get ?m ''form'')
           (prop_get ?m ''json'') (prop_get ?m ''body'')
           (new_request Http1 [(''User-Agent'', JStr ''openid-client'')])
         = (?res, Some ?r,
            \<lparr>req_kind = Http1, req_headers = [(''User-Agent'', JStr ''openid-client'')],
                      req_written = [], req_ended = True, req_destroyed = False,
                      req_closed = False\<rparr>, [])"
    by (simp add: stage_defs)
  have f: "finish ''https://op.example/token'' [] ?res (Some ?r)
           = (if parts = [] then Inr ?r
              else Inl (TypeError ''unsupported responseType request option'', Some ?r), [], [])"
    by (simp add: finish_def prop_get_def)
  have cs: "clean_shared (example_host (NetResponse (example_incoming []) (Drained parts)))
              example_defaults (example_url ''https:'') [(''responseType'', JStr ''text'')]
            = [(''responseType'', JStr ''text'')]"
    by (simp add: clean_shared_plain example_host_def prop_get_def)
  from example_plain[OF p example_merged_text q a f] cs
  show ?thesis by simp
qed

section \<open>Timeout\<close>

text \<open>
  C6. When a request object was created, the body was sent and the \<open>timeout\<close> event wins
  the race, the request object is destroyed (\<open>req.destroy()\<close>), and the call rejects with
  the \<open>RPError\<close> whose message carries the \<open>timeout\<close> of the resolved options; no response
  is attached to the error.
\<close>

theorem timeout_wins:
  assumes "out_req (request h dflt nonces options ex) = Some rq"
    and "req_ended rq"
    and "network h = NetTimeout"
  shows "\<exists>merged. resolved h dflt nonces options ex = Some merged
     \<and> out_result (request h dflt nonces options ex) =
         Inl (RPError (''outgoing request timed out after ''
                         @ ToString (prop_get merged ''timeout'') @ ''ms''), None)
     \<and> req_destroyed rq
     \<and> Destroyed \<in> set (out_events (request h dflt nonces options ex))"
proof -
  from request_inv[OF assms(1)]
  obtain u o1 o2 n1 ev1 merged ev2 req ev3 res rv ev4 res' n2 ev5 where
    v: "validate_url h options = (Inr u, o1)"
    and i: "inject_proof h nonces u o1 ex = (None, o2, n1, ev1)"
    and r: "resolve_options h dflt u o2 = (Inr merged, ev2)"
    and q: "open_request h (merge_search u (prop_get merged ''searchParams''))
        (clean_headers (rest_opts merged)) (prop_get merged ''json'')
        (prop_get merged ''form'') (prop_get merged ''body'') = (Inr req, ev3)"
    and a: "attempt h (clean_headers (rest_opts merged)) (prop_get merged ''responseType'')
        (prop_get merged ''form'') (prop_get merged ''json'') (prop_get merged ''body'') req
        = (res, rv, rq, ev4)"
    and f: "finish (nonceKey u) n1 res rv = (res', n2, ev5)"
    and eq: "request h dflt nonces options ex =
        \<lparr>out_result = res', out_events = ev1 @ ev2 @ ev3 @ ev4 @ ev5, out_nonces = n2,
         out_options = clean_shared h dflt u o2, out_req = Some rq\<rparr>"
    by blast
  from open_request_fresh[OF q] have fresh: "\<not> req_ended req" by simp
  from attempt_sent[OF a fresh assms(2)] obtain req1 where
    s: "send_payload h (prop_get merged ''form'') (prop_get merged ''json'')
          (prop_get merged ''body'') req = Inr req1" by blast
  have t: "prop_get (clean_headers (rest_opts merged)) ''timeout'' = prop_get merged ''timeout''"
    by (simp add: prop_get_clean_headers prop_get_rest_opts)
  from attempt_timeout[OF s assms(3)] a t
  have res: "res = Inl (RPError (''outgoing request timed out after ''
                         @ ToString (prop_get merged ''timeout'') @ ''ms''))"
    and rv: "rv = None" and rq: "rq = req1\<lparr>req_destroyed := True\<rparr>" and ev4: "ev4 = [Destroyed]"
    by simp_all
  from f res rv have "res' = Inl (RPError (''outgoing request timed out after ''
                         @ ToString (prop_get merged ''timeout'') @ ''ms''), None)"
    by (simp add: finish_def)
  with eq rq ev4 resolved_stages[OF v i r] show ?thesis by simp
qed

theorem timeout_wins_witness:
  "out_req (request (example_host NetTimeout) example_defaults []
      [(''url'', JStr ''https://op.example/token'')] example_extras)
     = Some \<lparr>req_kind = Http1, req_headers = [(''User-Agent'', JStr ''openid-client'')],
              req_written = [], req_ended = True, req_destroyed = True, req_closed = False\<rparr>
   \<and> network (example_host NetTimeout) = NetTimeout
   \<and> out_result (request (example_host NetTimeout) example_defaults []
      [(''url'', JStr ''https://op.example/token'')] example_extras)
     = Inl (RPError ''outgoing request timed out after 3500ms'', None)
   \<and> Destroyed \<in> set (out_events (request (example_host NetTimeout) example_defaults []
      [(''url'', JStr ''https://op.example/token'')] example_extras))"
proof -
  have h1: "out_req (request (example_host NetTimeout) example_defaults []
      [(''url'', JStr ''https://op.example/token'')] example_extras)
     = Some \<lparr>req_kind = Http1, req_headers = [(''User-Agent'', JStr ''openid-client'')],
              req_written = [], req_ended = True, req_destroyed = True, req_closed = False\<rparr>"
    by (simp add: example_timeout)
  have h2: "req_ended \<lparr>req_kind = Http1, req_headers = [(''User-Agent'', JStr ''openid-client'')],
              req_written = [], req_ended = True, req_destroyed = True, req_closed = False\<rparr>"
    by simp
  have h3: "network (example_host NetTimeout) = NetTimeout"
    by (simp add: example_host_def)
  from timeout_wins[OF h1 h2 h3] h1 h3 show ?thesis
    by (auto simp: example_timeout)
qed

section \<open>Unsupported response types\<close>

text \<open>
  C1, as amended. The response type is looked at only after the exchange: when the
  resolved \<open>responseType\<close> is neither \<open>'json'\<close>, \<open>'buffer'\<close> nor \<open>undefined\<close>, the request
  has been opened and sent, and the peer's response has been drained, the call rejects
  with the \<open>TypeError\<close> for the unsupported response type exactly when at least one body
  part came, and the response is attached to the error; with no body part the response
  is returned and no error is raised. In both cases a connection was opened.
\<close>

theorem unsupported_responseType:
  assumes "resolved h dflt nonces options ex = Some merged"
    and "prop_get merged ''responseType'' \<noteq> JStr ''json''"
    and "prop_get merged ''responseType'' \<noteq> JStr ''buffer''"
    and "prop_get merged ''responseType'' \<noteq> JUndefined"
    and "out_req (request h dflt nonces options ex) = Some rq"
    and "req_ended rq"
    and "network h = NetResponse inc (Drained parts)"
  shows "out_result (request h dflt nonces options ex) =
          (if parts = [] then Inr (received (clean_headers (rest_opts merged)) inc)
           else Inl (TypeError ''unsupported responseType request option'',
                     Some (received (clean_headers (rest_opts merged)) inc)))
     \<and> (\<exists>e \<in> set (out_events (request h dflt nonces options ex)).
           (\<exists>b u os. e = Http1Opened b u os) \<or> (\<exists>og hs. e = Http2Opened og hs))"
proof -
  from request_inv[OF assms(5)]
  obtain u o1 o2 n1 ev1 merged' ev2 req ev3 res rv ev4 res' n2 ev5 where
    v: "validate_url h options = (Inr u, o1)"
    and i: "inject_proof h nonces u o1 ex = (None, o2, n1, ev1)"
    and r: "resolve_options h dflt u o2 = (Inr merged', ev2)"
    and q: "open_request h (merge_search u (prop_get merged' ''searchParams''))
        (clean_headers (rest_opts merged')) (prop_get merged' ''json'')
        (prop_get merged' ''form'') (prop_get merged' ''body'') = (Inr req, ev3)"
    and a: "attempt h (clean_headers (rest_opts merged')) (prop_get merged' ''responseType'')
        (prop_get merged' ''form'') (prop_get merged' ''json'') (prop_get merged' ''body'') req
        = (res, rv, rq, ev4)"
    and f: "finish (nonceKey u) n1 res rv = (res', n2, ev5)"
    and eq: "request h dflt nonces options ex =
        \<lparr>out_result = res', out_events = ev1 @ ev2 @ ev3 @ ev4 @ ev5, out_nonces = n2,
         out_options = clean_shared h dflt u o2, out_req = Some rq\<rparr>"
    by blast
  from resolved_stages[OF v i r] assms(1) have m: "merged' = merged" by simp
  from open_request_fresh[OF q] have fresh: "\<not> req_ended req"
    and ev3: "(\<exists>b os. ev3 = [Http1Opened b (merge_search u (prop_get merged' ''searchParams'')) os])
       \<or> (\<exists>hs t. ev3 = [Http2Opened (url_origin (merge_search u (prop_get merged' ''searchParams''))) hs,
                         Http2SetTimeout t])"
    by simp_all
  from attempt_sent[OF a fresh assms(6)] obtain req1 where
    s: "send_payload h (prop_get merged' ''form'') (prop_get merged' ''json'')
          (prop_get merged' ''body'') req = Inr req1" by blast
  let ?r = "received (clean_headers (rest_opts merged)) inc"
  have d: "define_body (prop_get merged ''responseType'') parts ?r =
            (if parts = [] then Inr ?r
             else Inl (TypeError ''unsupported responseType request option''))"
    using assms(2-4) by (simp add: define_body_def)
  from attempt_drained[OF s assms(7), of "clean_headers (rest_opts merged')"
      "prop_get merged' ''responseType''"] a m d
  have res: "res = (if parts = [] then Inr ?r
                    else Inl (TypeError ''unsupported responseType request option''))"
    and rv: "rv = Some ?r"
    by (simp_all split: if_splits)
  from f res rv have "res' = (if parts = [] then Inr ?r
           else Inl (TypeError ''unsupported responseType request option'', Some ?r))"
    by (auto simp: finish_def Let_def split: if_splits)
  moreover from ev3 eq
  have "\<exists>e \<in> set (out_events (request h dflt nonces options ex)).
           (\<exists>b u os. e = Http1Opened b u os) \<or> (\<exists>og hs. e = Http2Opened og hs)"
    by auto
  ultimately show ?thesis using eq by simp
qed

theorem unsupported_responseType_witness:
  "out_result (request (example_host (NetResponse (example_incoming []) (Drained [''x''])))
      example_defaults []
      [(''url'', JStr ''https://op.example/token''), (''responseType'', JStr ''text'')]
      example_extras)
    = Inl (TypeError ''unsupported responseType request option'',
           Some (received [(''headers'', JObj [(''User-Agent'', JStr ''openid-client'')]),
                           (''timeout'', JNum 3500)] (example_incoming [])))
   \<and> out_req (request (example_host (NetResponse (example_incoming []) (Drained [''x''])))
      example_defaults []
      [(''url'', JStr ''https://op.example/token''), (''responseType'', JStr ''text'')]
      example_extras)
    = Some \<lparr>req_kind = Http1, req_headers = [(''User-Agent'', JStr ''openid-client'')],
             req_written = [], req_ended = True, req_destroyed = False, req_closed = False\<rparr>"
proof -
  let ?h = "example_host (NetResponse (example_incoming []) (Drained [''x'']))"
  let ?os = "[(''url'', JStr ''https://op.example/token''), (''responseType'', JStr ''text'')]"
  let ?m = "[(''responseType'', JStr ''text''),
        (''headers'', JObj [(''User-Agent'', JStr ''openid-client'')]), (''timeout'', JNum 3500)]"
  let ?rq = "\<lparr>req_kind = Http1, req_headers = [(''User-Agent'', JStr ''openid-client'')],
             req_written = [], req_ended = True, req_destroyed = False, req_closed = False\<rparr>"
  have h1: "resolved ?h example_defaults [] ?os example_extras = Some ?m"
    by (simp add: example_text)
  have h2: "prop_get ?m ''responseType'' \<noteq> JStr ''json''"
    and h3: "prop_get ?m ''responseType'' \<noteq> JStr ''buffer''"
    and h4: "prop_get ?m ''responseType'' \<noteq> JUndefined"
    by (simp_all add: prop_get_def)
  have h5: "out_req (request ?h example_defaults [] ?os example_extras) = Some ?rq"
    by (simp add: example_text)
  have h6: "req_ended ?rq" by simp
  have h7: "network ?h = NetResponse (example_incoming []) (Drained [''x''])"
    by (simp add: example_host_def)
  have c: "clean_headers (rest_opts ?m)
            = [(''headers'', JObj [(''User-Agent'', JStr ''openid-client'')]),
               (''timeout'', JNum 3500)]"
    by (simp add: clean_headers_def rest_opts_def prop_get_def)
  from unsupported_responseType[OF h1 h2 h3 h4 h5 h6 h7] h5 c show ?thesis by simp
qed

text \<open>
  C1 as stated fails: with \<open>responseType: 'text'\<close> and an empty response body the call
  fulfils with the response; with a non-empty body it rejects, but after the request was
  opened over HTTP/1.1 and with the received response attached.
\<close>

theorem unsupported_responseType_counterexample:
  "out_result (request (example_host (NetResponse (example_incoming []) (Drained [])))
      example_defaults []
      [(''url'', JStr ''https://op.example/token''), (''responseType'', JStr ''text'')]
      example_extras)
    = Inr \<lparr>statusCode = JNum 200, res_headers = [], res_body = NoBody\<rparr>
   \<and> out_events (request (example_host (NetResponse (example_incoming []) (Drained [''x''])))
      example_defaults []
      [(''url'', JStr ''https://op.example/token''), (''responseType'', JStr ''text'')]
      example_extras)
    = [Http1Opened True (example_url ''https:'')
         [(''headers'', JObj [(''User-Agent'', JStr ''openid-client'')]),
          (''timeout'', JNum 3500)]]
   \<and> out_result (request (example_host (NetResponse (example_incoming []) (Drained [''x''])))
      example_defaults []
      [(''url'', JStr ''https://op.example/token''), (''responseType'', JStr ''text'')]
      example_extras)
    = Inl (TypeError ''unsupported responseType request option'',
           Some \<lparr>statusCode = JNum 200, res_headers = [], res_body = NoBody\<rparr>)"
  by (simp add: example_text)

section \<open>The nonce cache after the exchange\<close>

lemma nqchar_space: "\<not> nqchar (CHR '' '')"
  by (simp add: nqchar_def)

lemma NQCHAR_test_outside: "\<exists>c \<in> set s. \<not> nqchar c \<Longrightarrow> \<not> NQCHAR_test (JStr s)"
  by (auto simp: NQCHAR_test_def list_all_iff)

lemma example_get:
  "request (example_host (NetResponse (example_incoming hs) (Drained []))) example_defaults nonces
      [(''url'', JStr ''https://op.example/token'')] example_extras
   = \<lparr>out_result = Inr \<lparr>statusCode = JNum 200, res_headers = hs, res_body = NoBody\<rparr>,
      out_events = Http1Opened True (example_url ''https:'')
                      [(''headers'', JObj [(''User-Agent'', JStr ''openid-client'')]),
                       (''timeout'', JNum 3500)]
                   # snd (snd (finish ''https://op.example/token'' nonces
                       (Inr \<lparr>statusCode = JNum 200, res_headers = hs, res_body = NoBody\<rparr>)
                       (Some \<lparr>statusCode = JNum 200, res_headers = hs, res_body = NoBody\<rparr>))),
      out_nonces = fst (snd (finish ''https://op.example/token'' nonces
                       (Inr \<lparr>statusCode = JNum 200, res_headers = hs, res_body = NoBody\<rparr>)
                       (Some \<lparr>statusCode = JNum 200, res_headers = hs, res_body = NoBody\<rparr>))),
      out_options = [],
      out_req = Some \<lparr>req_kind = Http1, req_headers = [(''User-Agent'', JStr ''openid-client'')],
                      req_written = [], req_ended = True, req_destroyed = False,
                      req_closed = False\<rparr>\<rparr>"
proof -
  let ?h = "example_host (NetResponse (example_incoming hs) (Drained []))"
  let ?m = "[(''headers'', JObj [(''User-Agent'', JStr ''openid-client'')]), (''timeout'', JNum 3500)]"
  let ?r = "\<lparr>statusCode = JNum 200, res_headers = hs, res_body = NoBody\<rparr>"
  have p: "prop_delete [] ''url'' = []" by (simp add: prop_delete_def)
  have q: "open_request ?h
           (merge_search (example_url ''https:'') (prop_get ?m ''searchParams''))
           (clean_headers (rest_opts ?m)) (prop_get ?m ''json'')
           (prop_get ?m ''form'') (prop_get ?m ''body'')
         = (Inr (new_request Http1 [(''User-Agent'', JStr ''openid-client'')]),
            [Http1Opened True (example_url ''https:'') ?m])"
    by (simp add: stage_defs)
  have a: "attempt ?h (clean_headers (rest_opts ?m))
           (prop_get ?m ''responseType'') (prop_get ?m ''form'')
           (prop_get ?m ''json'') (prop_get ?m ''body'')
           (new_request Http1 [(''User-Agent'', JStr ''openid-client'')])
         = (Inr ?r, Some ?r,
            \<lparr>req_kind = Http1, req_headers = [(''User-Agent'', JStr ''openid-client'')],
                      req_written = [], req_ended = True, req_destroyed = False,
                      req_closed = False\<rparr>, [])"
    by (simp add: stage_defs)
  obtain res' n2 ev5 where f: "finish ''https://op.example/token'' nonces (Inr ?r) (Some ?r)
     = (res', n2, ev5)"
    by (cases "finish ''https://op.example/token'' nonces (Inr ?r) (Some ?r)")
  from finish_result[OF f] have "res' = Inr ?r" by simp
  moreover have "clean_shared (example_host (NetResponse (example_incoming hs) (Drained [])))
              example_defaults (example_url ''https:'') [] = []"
    by (simp add: clean_shared_plain example_host_def prop_get_def)
  ultimately show ?thesis
    using example_plain[OF p example_merged_plain q a f, THEN conjunct1] f by simp
qed

lemma NQCHAR_test_JStr:
  "NQCHAR_test (JStr s) =
     (s \<noteq> [] \<and> (\<forall>c \<in> set s. (of_char c :: nat) = 0x21
                           \<or> (0x23 \<le> (of_char c :: nat) \<and> (of_char c :: nat) \<le> 0x5B)
                           \<or> (0x5D \<le> (of_char c :: nat) \<and> (of_char c :: nat) \<le> 0x7E)))"
  by (simp add: NQCHAR_test_def nqchar_def list_all_iff Let_def)

text \<open>
  C4. Whenever the call settles with a response (returned, or attached to the error),
  and the response's \<open>dpop-nonce\<close> header is truthy and matches \<open>NQCHAR\<close>, the call stores
  that value exactly once, under the key that is the origin of the parsed URL followed
  by its path, and a lookup of that key in the cache then gives the value. When the
  header is missing or does not match, or when there is no response, nothing is stored
  and the cache maps every key as before. A string matches \<open>NQCHAR\<close> when it is not
  empty and each of its characters is \<open>0x21\<close>, or from \<open>0x23\<close> to \<open>0x5B\<close>, or from
  \<open>0x5D\<close> to \<open>0x7E\<close>; a value with a character outside the set, such as a space, does
  not match.
\<close>

theorem nonce_cache_update:
  "(\<forall>r. response_of (out_result (request h dflt nonces options ex)) = Some r \<longrightarrow>
      (\<exists>u. new_URL h (prop_get options ''url'') = Some u \<and>
         (if truthy (prop_get (res_headers r) ''dpop-nonce'')
             \<and> NQCHAR_test (prop_get (res_headers r) ''dpop-nonce'')
          then filter is_NonceStored (out_events (request h dflt nonces options ex))
                 = [NonceStored (url_origin u @ url_pathname u)
                      (prop_get (res_headers r) ''dpop-nonce'')]
             \<and> fst (lru_get (out_nonces (request h dflt nonces options ex))
                        (url_origin u @ url_pathname u))
                 = prop_get (res_headers r) ''dpop-nonce''
          else filter is_NonceStored (out_events (request h dflt nonces options ex)) = []
             \<and> map_of (out_nonces (request h dflt nonces options ex)) = map_of nonces)))
   \<and> (response_of (out_result (request h dflt nonces options ex)) = None \<longrightarrow>
        filter is_NonceStored (out_events (request h dflt nonces options ex)) = []
        \<and> map_of (out_nonces (request h dflt nonces options ex)) = map_of nonces)
   \<and> (\<forall>s. NQCHAR_test (JStr s) =
          (s \<noteq> [] \<and> (\<forall>c \<in> set s. (of_char c :: nat) = 0x21
                           \<or> (0x23 \<le> (of_char c :: nat) \<and> (of_char c :: nat) \<le> 0x5B)
                           \<or> (0x5D \<le> (of_char c :: nat) \<and> (of_char c :: nat) \<le> 0x7E))))
   \<and> (\<forall>s. (\<exists>c \<in> set s. \<not> nqchar c) \<longrightarrow> \<not> NQCHAR_test (JStr s))
   \<and> \<not> nqchar (CHR '' '')"
proof -
  let ?R = "request h dflt nonces options ex"
  have main: "(\<forall>r. response_of (out_result ?R) = Some r \<longrightarrow>
      (\<exists>u. new_URL h (prop_get options ''url'') = Some u \<and>
         (if truthy (prop_get (res_headers r) ''dpop-nonce'')
             \<and> NQCHAR_test (prop_get (res_headers r) ''dpop-nonce'')
          then filter is_NonceStored (out_events ?R)
                 = [NonceStored (nonceKey u) (prop_get (res_headers r) ''dpop-nonce'')]
             \<and> fst (lru_get (out_nonces ?R) (nonceKey u))
                 = prop_get (res_headers r) ''dpop-nonce''
          else filter is_NonceStored (out_events ?R) = []
             \<and> map_of (out_nonces ?R) = map_of nonces)))
   \<and> (response_of (out_result ?R) = None \<longrightarrow>
        filter is_NonceStored (out_events ?R) = []
        \<and> map_of (out_nonces ?R) = map_of nonces)"
  proof (cases "out_req ?R")
    case None
    from request_failed_shape[OF None] show ?thesis
      by (auto simp: failed_def)
  next
    case (Some rq)
    from request_inv[OF Some]
    obtain u o1 o2 n1 ev1 merged ev2 req ev3 res rv ev4 res' n2 ev5 where
      v: "validate_url h options = (Inr u, o1)"
      and i: "inject_proof h nonces u o1 ex = (None, o2, n1, ev1)"
      and r: "resolve_options h dflt u o2 = (Inr merged, ev2)"
      and q: "open_request h (merge_search u (prop_get merged ''searchParams''))
          (clean_headers (rest_opts merged)) (prop_get merged ''json'')
          (prop_get merged ''form'') (prop_get merged ''body'') = (Inr req, ev3)"
      and a: "attempt h (clean_headers (rest_opts merged)) (prop_get merged ''responseType'')
          (prop_get merged ''form'') (prop_get merged ''json'') (prop_get merged ''body'') req
          = (res, rv, rq, ev4)"
      and f: "finish (nonceKey u) n1 res rv = (res', n2, ev5)"
      and eq: "?R =
          \<lparr>out_result = res', out_events = ev1 @ ev2 @ ev3 @ ev4 @ ev5, out_nonces = n2,
           out_options = clean_shared h dflt u o2, out_req = Some rq\<rparr>"
      by blast
    from v have u: "new_URL h (prop_get options ''url'') = Some u"
      by (auto simp: validate_url_def Let_def split: option.splits if_splits)
    note ff = finish_facts[OF f attempt_response[OF a]]
    from inject_proof_events[OF i] resolve_options_events[OF r] open_request_events[OF q]
      attempt_events[OF a]
    have evs: "filter is_NonceStored (ev1 @ ev2 @ ev3 @ ev4 @ ev5) = filter is_NonceStored ev5"
      and n1: "map_of n1 = map_of nonces"
      by simp_all
    show ?thesis
    proof (cases rv)
      case None
      with ff eq evs n1 show ?thesis by simp
    next
      case (Some r0)
      with ff eq evs n1 u show ?thesis
        by (auto simp: lru_get_set split: if_splits)
    qed
  qed
  from main[unfolded nonceKey_def] NQCHAR_test_JStr NQCHAR_test_outside nqchar_space
  show ?thesis by blast
qed

theorem nonce_cache_update_witness:
  "response_of (out_result (request
       (example_host (NetResponse (example_incoming [(''dpop-nonce'', JStr ''abc123'')]) (Drained [])))
       example_defaults [] [(''url'', JStr ''https://op.example/token'')] example_extras))
     = Some \<lparr>statusCode = JNum 200, res_headers = [(''dpop-nonce'', JStr ''abc123'')],
             res_body = NoBody\<rparr>
   \<and> filter is_NonceStored (out_events (request
       (example_host (NetResponse (example_incoming [(''dpop-nonce'', JStr ''abc123'')]) (Drained [])))
       example_defaults [] [(''url'', JStr ''https://op.example/token'')] example_extras))
     = [NonceStored ''https://op.example/token'' (JStr ''abc123'')]
   \<and> fst (lru_get (out_nonces (request
       (example_host (NetResponse (example_incoming [(''dpop-nonce'', JStr ''abc123'')]) (Drained [])))
       example_defaults [] [(''url'', JStr ''https://op.example/token'')] example_extras))
       ''https://op.example/token'') = JStr ''abc123''
   \<and> response_of (out_result (request
       (example_host (NetResponse (example_incoming [(''dpop-nonce'', JStr ''bad nonce'')]) (Drained [])))
       example_defaults [] [(''url'', JStr ''https://op.example/token'')] example_extras))
     = Some \<lparr>statusCode = JNum 200, res_headers = [(''dpop-nonce'', JStr ''bad nonce'')],
             res_body = NoBody\<rparr>
   \<and> filter is_NonceStored (out_events (request
       (example_host (NetResponse (example_incoming [(''dpop-nonce'', JStr ''bad nonce'')]) (Drained [])))
       example_defaults [] [(''url'', JStr ''https://op.example/token'')] example_extras)) = []
   \<and> response_of (out_result (request (example_host NetTimeout) example_defaults []
       [(''url'', JStr ''https://op.example/token'')] example_extras)) = None
   \<and> filter is_NonceStored (out_events (request (example_host NetTimeout) example_defaults []
       [(''url'', JStr ''https://op.example/token'')] example_extras)) = []
   \<and> \<not> NQCHAR_test (JStr ''bad nonce'')"
proof -
  let ?h1 = "example_host (NetResponse (example_incoming [(''dpop-nonce'', JStr ''abc123'')]) (Drained []))"
  let ?h2 = "example_host (NetResponse (example_incoming [(''dpop-nonce'', JStr ''bad nonce'')]) (Drained []))"
  let ?os = "[(''url'', JStr ''https://op.example/token'')]"
  have r1: "response_of (out_result (request ?h1 example_defaults [] ?os example_extras))
     = Some \<lparr>statusCode = JNum 200, res_headers = [(''dpop-nonce'', JStr ''abc123'')],
             res_body = NoBody\<rparr>"
    by (simp add: example_get)
  have r2: "response_of (out_result (request ?h2 example_defaults [] ?os example_extras))
     = Some \<lparr>statusCode = JNum 200, res_headers = [(''dpop-nonce'', JStr ''bad nonce'')],
             res_body = NoBody\<rparr>"
    by (simp add: example_get)
  have r3: "response_of (out_result (request (example_host NetTimeout) example_defaults []
       ?os example_extras)) = None"
    by (simp add: example_timeout)
  have u1: "new_URL ?h1 (prop_get ?os ''url'') = Some (example_url ''https:'')"
    and u2: "new_URL ?h2 (prop_get ?os ''url'') = Some (example_url ''https:'')"
    by (simp_all add: example_host_def prop_get_def)
  have k: "url_origin (example_url ''https:'') @ url_pathname (example_url ''https:'')
             = ''https://op.example/token''"
    by (simp add: example_url_def)
  have good: "truthy (prop_get [(''dpop-nonce'', JStr ''abc123'')] ''dpop-nonce'')
      \<and> NQCHAR_test (prop_get [(''dpop-nonce'', JStr ''abc123'')] ''dpop-nonce'')"
    by (simp add: prop_get_def NQCHAR_test_def nqchar_def)
  have sp: "\<exists>c \<in> set ''bad nonce''. \<not> nqchar c"
    by (simp add: nqchar_def)
  have bad: "\<not> NQCHAR_test (prop_get [(''dpop-nonce'', JStr ''bad nonce'')] ''dpop-nonce'')"
    by (simp add: prop_get_def NQCHAR_test_def nqchar_def)
  from nonce_cache_update[of ?h1 example_defaults "[]" ?os example_extras] r1 u1 k good
  have c1: "filter is_NonceStored (out_events (request ?h1 example_defaults [] ?os example_extras))
       = [NonceStored ''https://op.example/token'' (JStr ''abc123'')]
     \<and> fst (lru_get (out_nonces (request ?h1 example_defaults [] ?os example_extras))
          ''https://op.example/token'') = JStr ''abc123''"
    by (auto simp: prop_get_def)
  from nonce_cache_update[of ?h2 example_defaults "[]" ?os example_extras] r2 u2 bad
  have c2: "filter is_NonceStored (out_events (request ?h2 example_defaults [] ?os example_extras)) = []"
    by auto
  from nonce_cache_update[of "example_host NetTimeout" example_defaults "[]" ?os example_extras] r3
  have c3: "filter is_NonceStored (out_events (request (example_host NetTimeout) example_defaults []
       ?os example_extras)) = []"
    by blast
  from nonce_cache_update[of "example_host NetTimeout" example_defaults "[]" ?os example_extras] sp
  have c4: "\<not> NQCHAR_test (JStr ''bad nonce'')" by blast
  from r1 r2 r3 c1 c2 c3 c4 show ?thesis by blast
qed

section \<open>Sending a JSON payload\<close>

lemma prop_get_removeHeader:
  "prop_get (removeHeader hs name) k =
     (if map lower_char k \<noteq> map lower_char name then prop_get hs k else JUndefined)"
  unfolding removeHeader_def by (rule prop_get_filter_key)

lemma prop_get_append:
  "prop_get (xs @ ys) k = (if prop_get xs k = JUndefined \<and> map_of xs k = None then prop_get ys k else prop_get xs k)"
  by (auto simp: prop_get_def map_add_def split: option.splits)



lemma prop_get_setHeader_other:
  "map lower_char k \<noteq> map lower_char name \<Longrightarrow> v \<noteq> JUndefined \<Longrightarrow>
     prop_get (setHeader hs name v) k = prop_get hs k"
  by (auto simp: setHeader_def prop_get_def map_add_def removeHeader_def map_of_filter_key
      split: option.splits)

lemma attempt_request_object:
  assumes "attempt h opts rt form json body req = (res, rv, rq, ev)"
    and "send_payload h form json body req = Inr req1"
  shows "req_headers rq = req_headers req1 \<and> req_written rq = req_written req1
         \<and> req_ended rq = req_ended req1"
  using assms
  by (auto simp: attempt_def Let_def split: net.splits drain.splits sum.splits if_splits)














section \<open>Precedence of the merged options\<close>

lemma merge_step_other:
  "k' \<noteq> k \<Longrightarrow>
     prop_get (case (a, x) of
                 (JObj tk, JObj vs) \<Rightarrow> prop_set t1 k' (g tk vs)
               | _ \<Rightarrow> t1) k = prop_get t1 k"
  by (cases a; cases x; simp add: prop_get_set)

lemma merge_step_plain:
  "\<not> is_obj a \<or> \<not> is_obj x \<Longrightarrow>
     (case (a, x) of
        (JObj tk, JObj vs) \<Rightarrow> prop_set t1 k' (g tk vs)
      | _ \<Rightarrow> t1) = t1"
  by (cases a; cases x; simp)

lemma fill_step_other:
  "k' \<noteq> k \<Longrightarrow> prop_get (if c then prop_set t k' x else t) k = prop_get t k"
  by (simp add: prop_get_set)

lemma defaults_into_step:
  "defaults_into t ((k', x) # s) =
     defaults_into
       (case (prop_get (if prop_get t k' = JUndefined \<and> x \<noteq> JUndefined
                        then prop_set t k' x else t) k', x) of
          (JObj tk, JObj vs) \<Rightarrow>
             prop_set (if prop_get t k' = JUndefined \<and> x \<noteq> JUndefined
                       then prop_set t k' x else t) k' (JObj (defaults_into tk vs))
        | _ \<Rightarrow> (if prop_get t k' = JUndefined \<and> x \<noteq> JUndefined
                 then prop_set t k' x else t)) s"
  by (simp add: Let_def)

lemma defaults_into_keep:
  "prop_get t k = v \<Longrightarrow> v \<noteq> JUndefined \<Longrightarrow> \<not> is_obj v \<Longrightarrow>
     prop_get (defaults_into t s) k = v"
proof (induction s arbitrary: t)
  case Nil
  then show ?case by simp
next
  case (Cons a s)
  obtain k' x where a: "a = (k', x)" by (cases a)
  let ?t1 = "if prop_get t k' = JUndefined \<and> x \<noteq> JUndefined then prop_set t k' x else t"
  let ?t2 = "case (prop_get ?t1 k', x) of
              (JObj tk, JObj vs) \<Rightarrow> prop_set ?t1 k' (JObj (defaults_into tk vs))
            | _ \<Rightarrow> ?t1"
  have step: "defaults_into t (a # s) = defaults_into ?t2 s"
    unfolding a by (rule defaults_into_step)
  have "prop_get ?t2 k = v"
  proof (cases "k' = k")
    case True
    with Cons.prems have t1: "?t1 = t" by simp
    from True Cons.prems have "\<not> is_obj (prop_get t k') \<or> \<not> is_obj x" by simp
    from merge_step_plain[OF this] t1 Cons.prems(1) show ?thesis by simp
  next
    case False
    from merge_step_other[OF False] fill_step_other[OF False] Cons.prems(1)
    show ?thesis by simp
  qed
  from Cons.IH[OF this Cons.prems(2,3)] step show ?case by simp
qed

lemma defaults_into_absent:
  "k \<notin> fst ` set s \<Longrightarrow> prop_get (defaults_into t s) k = prop_get t k"
proof (induction s arbitrary: t)
  case Nil
  then show ?case by simp
next
  case (Cons a s)
  obtain k' x where a: "a = (k', x)" by (cases a)
  with Cons.prems have ne: "k' \<noteq> k" and rest: "k \<notin> fst ` set s" by auto
  let ?t1 = "if prop_get t k' = JUndefined \<and> x \<noteq> JUndefined then prop_set t k' x else t"
  let ?t2 = "case (prop_get ?t1 k', x) of
              (JObj tk, JObj vs) \<Rightarrow> prop_set ?t1 k' (JObj (defaults_into tk vs))
            | _ \<Rightarrow> ?t1"
  have step: "defaults_into t (a # s) = defaults_into ?t2 s"
    unfolding a by (rule defaults_into_step)
  from merge_step_other[OF ne] fill_step_other[OF ne]
  have "prop_get ?t2 k = prop_get t k" by simp
  with Cons.IH[OF rest, of ?t2] step show ?case by simp
qed

lemma defaults_into_fill:
  "prop_get t k = JUndefined \<Longrightarrow> prop_get s k = v \<Longrightarrow> v \<noteq> JUndefined \<Longrightarrow> \<not> is_obj v \<Longrightarrow>
     prop_get (defaults_into t s) k = v"
proof (induction s arbitrary: t)
  case Nil
  then show ?case by (simp add: prop_get_def)
next
  case (Cons a s)
  obtain k' x where a: "a = (k', x)" by (cases a)
  let ?t1 = "if prop_get t k' = JUndefined \<and> x \<noteq> JUndefined then prop_set t k' x else t"
  let ?t2 = "case (prop_get ?t1 k', x) of
              (JObj tk, JObj vs) \<Rightarrow> prop_set ?t1 k' (JObj (defaults_into tk vs))
            | _ \<Rightarrow> ?t1"
  have step: "defaults_into t (a # s) = defaults_into ?t2 s"
    unfolding a by (rule defaults_into_step)
  show ?case
  proof (cases "k' = k")
    case True
    with Cons.prems a have x: "x = v" by (simp add: prop_get_def)
    with True Cons.prems have t1: "prop_get ?t1 k = v" by (simp add: prop_get_set)
    from x Cons.prems have "\<not> is_obj (prop_get ?t1 k') \<or> \<not> is_obj x" by simp
    from merge_step_plain[OF this] t1 have "prop_get ?t2 k = v" by simp
    from defaults_into_keep[OF this Cons.prems(3,4)] step show ?thesis by simp
  next
    case False
    with Cons.prems a have s: "prop_get s k = v" by (simp add: prop_get_def)
    from merge_step_other[OF False] fill_step_other[OF False] Cons.prems(1)
    have "prop_get ?t2 k = JUndefined" by simp
    from Cons.IH[OF this s Cons.prems(3,4)] step show ?thesis by simp
  qed
qed

lemma map_of_tabulate:
  "map_of (map (\<lambda>p. (p, f p)) xs) k = (if k \<in> set xs then Some (f k) else None)"
  by (induction xs) auto

lemma pick_props:
  "pick r ks = JObj (map (\<lambda>p. (p, js_get r p)) (filter (\<lambda>p. js_get r p \<noteq> JUndefined) ks))
   \<and> prop_get (map (\<lambda>p. (p, js_get r p)) (filter (\<lambda>p. js_get r p \<noteq> JUndefined) ks)) k
       = (if k \<in> set ks then js_get r k else JUndefined)
   \<and> (k \<in> fst ` set (map (\<lambda>p. (p, js_get r p)) (filter (\<lambda>p. js_get r p \<noteq> JUndefined) ks))
        \<longleftrightarrow> k \<in> set ks \<and> js_get r k \<noteq> JUndefined)"
  by (auto simp: pick_def prop_get_def map_of_tabulate image_iff)

lemma defaults_into_obj_keep:
  "prop_get t k = JObj tk \<Longrightarrow>
     \<exists>X. prop_get (defaults_into t s) k = JObj X
        \<and> (\<forall>key v. prop_get tk key = v \<longrightarrow> v \<noteq> JUndefined \<longrightarrow> \<not> is_obj v
              \<longrightarrow> prop_get X key = v)"
proof (induction s arbitrary: t tk)
  case Nil
  then show ?case by simp
next
  case (Cons a s)
  obtain k' x where a: "a = (k', x)" by (cases a)
  let ?t1 = "if prop_get t k' = JUndefined \<and> x \<noteq> JUndefined then prop_set t k' x else t"
  let ?t2 = "case (prop_get ?t1 k', x) of
              (JObj tk, JObj vs) \<Rightarrow> prop_set ?t1 k' (JObj (defaults_into tk vs))
            | _ \<Rightarrow> ?t1"
  have step: "defaults_into t (a # s) = defaults_into ?t2 s"
    unfolding a by (rule defaults_into_step)
  have "\<exists>tk'. prop_get ?t2 k = JObj tk'
        \<and> (\<forall>key v. prop_get tk key = v \<longrightarrow> v \<noteq> JUndefined \<longrightarrow> \<not> is_obj v
              \<longrightarrow> prop_get tk' key = v)"
  proof (cases "k' = k")
    case True
    with Cons.prems have t1: "?t1 = t" by simp
    show ?thesis
    proof (cases x)
      case (JObj vs)
      with True t1 Cons.prems have "prop_get ?t2 k = JObj (defaults_into tk vs)"
        by (simp add: prop_get_set)
      with defaults_into_keep[of tk _ _ vs] show ?thesis by auto
    next
      case JUndefined
      with True t1 Cons.prems show ?thesis by simp
    next
      case JNull
      with True t1 Cons.prems show ?thesis by simp
    next
      case (JBool b)
      with True t1 Cons.prems show ?thesis by simp
    next
      case (JNum n)
      with True t1 Cons.prems show ?thesis by simp
    next
      case (JStr z)
      with True t1 Cons.prems show ?thesis by simp
    next
      case (JBuf z)
      with True t1 Cons.prems show ?thesis by simp
    next
      case (JOpaque n)
      with True t1 Cons.prems show ?thesis by simp
    qed
  next
    case False
    from merge_step_other[OF False] fill_step_other[OF False] Cons.prems
    show ?thesis by simp
  qed
  then obtain tk' where g: "prop_get ?t2 k = JObj tk'"
    and kp: "\<forall>key v. prop_get tk key = v \<longrightarrow> v \<noteq> JUndefined \<longrightarrow> \<not> is_obj v
              \<longrightarrow> prop_get tk' key = v" by blast
  from Cons.IH[OF g] obtain X where "prop_get (defaults_into ?t2 s) k = JObj X"
    and "\<forall>key v. prop_get tk' key = v \<longrightarrow> v \<noteq> JUndefined \<longrightarrow> \<not> is_obj v
              \<longrightarrow> prop_get X key = v" by blast
  with kp step show ?case by auto
qed

lemma defaults_into_obj_fill:
  "prop_get t k = JUndefined \<Longrightarrow> prop_get s k = JObj vs \<Longrightarrow>
     \<exists>X. prop_get (defaults_into t s) k = JObj X
        \<and> (\<forall>key v. prop_get vs key = v \<longrightarrow> v \<noteq> JUndefined \<longrightarrow> \<not> is_obj v
              \<longrightarrow> prop_get X key = v)"
proof (induction s arbitrary: t)
  case Nil
  then show ?case by (simp add: prop_get_def)
next
  case (Cons a s)
  obtain k' x where a: "a = (k', x)" by (cases a)
  let ?t1 = "if prop_get t k' = JUndefined \<and> x \<noteq> JUndefined then prop_set t k' x else t"
  let ?t2 = "case (prop_get ?t1 k', x) of
              (JObj tk, JObj vs) \<Rightarrow> prop_set ?t1 k' (JObj (defaults_into tk vs))
            | _ \<Rightarrow> ?t1"
  have step: "defaults_into t (a # s) = defaults_into ?t2 s"
    unfolding a by (rule defaults_into_step)
  show ?case
  proof (cases "k' = k")
    case True
    with Cons.prems a have x: "x = JObj vs" by (simp add: prop_get_def)
    with True Cons.prems have "prop_get ?t2 k = JObj (defaults_into vs vs)"
      by (simp add: prop_get_set)
    from defaults_into_obj_keep[OF this, of s] obtain X where
      "prop_get (defaults_into ?t2 s) k = JObj X"
      and "\<forall>key v. prop_get (defaults_into vs vs) key = v \<longrightarrow> v \<noteq> JUndefined \<longrightarrow> \<not> is_obj v
              \<longrightarrow> prop_get X key = v" by blast
    with defaults_into_keep[of vs _ _ vs] step show ?thesis by auto
  next
    case False
    with Cons.prems a have s: "prop_get s k = JObj vs" by (simp add: prop_get_def)
    from merge_step_other[OF False] fill_step_other[OF False] Cons.prems(1)
    have "prop_get ?t2 k = JUndefined" by simp
    from Cons.IH[OF this s] step show ?thesis by simp
  qed
qed

lemma defaultsDeep_three:
  "defaultsDeep [] [JObj ps, JObj opts, dflt]
     = defaults_into (defaults_into (defaults_into [] ps) opts) (entries (case dflt of JObj d \<Rightarrow> JObj d | _ \<Rightarrow> JUndefined))"
  by (cases dflt) simp_all



lemma prop_get_shared_into:
  "\<not> is_obj (prop_get s k) \<Longrightarrow> prop_get (shared_into t s m) k = prop_get s k"
proof (induction s)
  case Nil
  then show ?case by simp
next
  case (Cons a s)
  obtain k' v where a: "a = (k', v)" by (cases a)
  show ?case
  proof (cases "k' = k")
    case True
    with Cons.prems a have "\<not> is_obj v" by (simp add: prop_get_def)
    with True a show ?thesis by (cases v) (simp_all add: prop_get_def)
  next
    case False
    with Cons.prems a have "\<not> is_obj (prop_get s k)" by (simp add: prop_get_def)
    from Cons.IH[OF this] False a show ?thesis by (simp add: prop_get_def)
  qed
qed


lemma defaultsDeep_two:
  "defaultsDeep [] [JUndefined, JObj opts, dflt]
     = defaults_into (defaults_into [] opts) (entries (case dflt of JObj d \<Rightarrow> JObj d | _ \<Rightarrow> JUndefined))"
  by (cases dflt) simp_all





section \<open>Proof-of-possession\<close>

lemma prop_get_prop_delete:
  "prop_get (prop_delete ps k) k' = (if k' \<noteq> k then prop_get ps k' else JUndefined)"
  unfolding prop_delete_def by (subst prop_get_filter_key) simp

lemma keys_prop_set: "fst ` set (prop_set ps k v) = insert k (fst ` set ps)"
proof (induction ps)
  case Nil
  then show ?case by simp
next
  case (Cons a ps)
  then show ?case by (cases a) (simp add: insert_commute)
qed

lemma distinct_prop_set:
  "distinct (map fst ps) \<Longrightarrow> distinct (map fst (prop_set ps k v))"
proof (induction ps)
  case Nil
  then show ?case by simp
next
  case (Cons a ps)
  obtain k' v' where a: "a = (k', v')" by (cases a)
  from Cons a keys_prop_set[of ps k v] show ?case by auto
qed

lemma merge_step_distinct:
  "distinct (map fst t1) \<Longrightarrow>
     distinct (map fst (case (a, x) of
                 (JObj tk, JObj vs) \<Rightarrow> prop_set t1 k' (g tk vs)
               | _ \<Rightarrow> t1))"
  by (cases a; cases x; simp add: distinct_prop_set)

lemma distinct_defaults_into:
  "distinct (map fst t) \<Longrightarrow> distinct (map fst (defaults_into t s))"
proof (induction s arbitrary: t)
  case Nil
  then show ?case by simp
next
  case (Cons a s)
  obtain k' x where a: "a = (k', x)" by (cases a)
  let ?t1 = "if prop_get t k' = JUndefined \<and> x \<noteq> JUndefined then prop_set t k' x else t"
  let ?t2 = "case (prop_get ?t1 k', x) of
              (JObj tk, JObj vs) \<Rightarrow> prop_set ?t1 k' (JObj (defaults_into tk vs))
            | _ \<Rightarrow> ?t1"
  have step: "defaults_into t (a # s) = defaults_into ?t2 s"
    unfolding a by (rule defaults_into_step)
  from Cons.prems have "distinct (map fst ?t1)" by (simp add: distinct_prop_set)
  then have "distinct (map fst ?t2)" by (rule merge_step_distinct)
  from Cons.IH[OF this] step show ?case by simp
qed

lemma defaults_into_obj_distinct_keep:
  "prop_get t k = JObj tk \<Longrightarrow> distinct (map fst tk) \<Longrightarrow>
     \<exists>X. prop_get (defaults_into t s) k = JObj X \<and> distinct (map fst X)"
proof (induction s arbitrary: t tk)
  case Nil
  then show ?case by simp
next
  case (Cons a s)
  obtain k' x where a: "a = (k', x)" by (cases a)
  let ?t1 = "if prop_get t k' = JUndefined \<and> x \<noteq> JUndefined then prop_set t k' x else t"
  let ?t2 = "case (prop_get ?t1 k', x) of
              (JObj tk, JObj vs) \<Rightarrow> prop_set ?t1 k' (JObj (defaults_into tk vs))
            | _ \<Rightarrow> ?t1"
  have step: "defaults_into t (a # s) = defaults_into ?t2 s"
    unfolding a by (rule defaults_into_step)
  have "\<exists>tk'. prop_get ?t2 k = JObj tk' \<and> distinct (map fst tk')"
  proof (cases "k' = k")
    case True
    with Cons.prems have t1: "?t1 = t" by simp
    show ?thesis
    proof (cases "is_obj x")
      case True
      then obtain vs where "x = JObj vs" by (cases x) auto
      with \<open>k' = k\<close> t1 Cons.prems have "prop_get ?t2 k = JObj (defaults_into tk vs)"
        by (simp add: prop_get_set)
      with distinct_defaults_into[OF Cons.prems(2)] show ?thesis by simp
    next
      case False
      then have "\<not> is_obj (prop_get ?t1 k') \<or> \<not> is_obj x" by simp
      from merge_step_plain[OF this] t1 Cons.prems show ?thesis by simp
    qed
  next
    case False
    from merge_step_other[OF False] fill_step_other[OF False] Cons.prems
    show ?thesis by simp
  qed
  then obtain tk' where "prop_get ?t2 k = JObj tk'" and "distinct (map fst tk')" by blast
  from Cons.IH[OF this] step show ?case by simp
qed

lemma defaults_into_obj_distinct_fill:
  "prop_get t k = JUndefined \<Longrightarrow> prop_get s k = JObj vs \<Longrightarrow> distinct (map fst vs) \<Longrightarrow>
     \<exists>X. prop_get (defaults_into t s) k = JObj X \<and> distinct (map fst X)"
proof (induction s arbitrary: t)
  case Nil
  then show ?case by (simp add: prop_get_def)
next
  case (Cons a s)
  obtain k' x where a: "a = (k', x)" by (cases a)
  let ?t1 = "if prop_get t k' = JUndefined \<and> x \<noteq> JUndefined then prop_set t k' x else t"
  let ?t2 = "case (prop_get ?t1 k', x) of
              (JObj tk, JObj vs) \<Rightarrow> prop_set ?t1 k' (JObj (defaults_into tk vs))
            | _ \<Rightarrow> ?t1"
  have step: "defaults_into t (a # s) = defaults_into ?t2 s"
    unfolding a by (rule defaults_into_step)
  show ?case
  proof (cases "k' = k")
    case True
    with Cons.prems a have x: "x = JObj vs" by (simp add: prop_get_def)
    with True Cons.prems have "prop_get ?t2 k = JObj (defaults_into vs vs)"
      by (simp add: prop_get_set)
    from defaults_into_obj_distinct_keep[OF this distinct_defaults_into[OF Cons.prems(3)], of s]
      step show ?thesis by simp
  next
    case False
    with Cons.prems a have s: "prop_get s k = JObj vs" by (simp add: prop_get_def)
    from merge_step_other[OF False] fill_step_other[OF False] Cons.prems(1)
    have "prop_get ?t2 k = JUndefined" by simp
    from Cons.IH[OF this s Cons.prems(3)] step show ?thesis by simp
  qed
qed

lemma prop_get_filter_defined:
  "prop_get ps k = v \<Longrightarrow> v \<noteq> JUndefined \<Longrightarrow>
     prop_get (filter (\<lambda>(k, v). v \<noteq> JUndefined) ps) k = v"
  by (induction ps) (auto simp: prop_get_def split: if_splits)

lemma prop_get_assign:
  "distinct (map fst xs) \<Longrightarrow>
     prop_get (fold (\<lambda>(k, v) acc. prop_set acc k v) xs init) k =
       (if k \<in> fst ` set xs then prop_get xs k else prop_get init k)"
proof (induction xs arbitrary: init)
  case Nil
  then show ?case by simp
next
  case (Cons a xs)
  obtain k' v' where a: "a = (k', v')" by (cases a)
  from Cons.prems a have d: "distinct (map fst xs)" and n: "k' \<notin> fst ` set xs" by auto
  have h: "prop_get (a # xs) k = (if k = k' then v' else prop_get xs k)"
    using a by (simp add: prop_get_def)
  from Cons.IH[OF d, of "prop_set init k' v'"] a n h show ?case
    by (simp add: prop_get_set)
qed

lemma inject_proof_apply:
  assumes "dpopProof h = Some pf" and "truthy (DPoP ex)"
  shows "inject_proof h n u os ex =
     (case pf (JObj [(''htu'', JStr (url_origin u @ url_pathname u)),
                      (''htm'', prop_get os ''method''),
                      (''nonce'', fst (lru_get n (nonceKey u)))]) (DPoP ex) (accessToken ex) of
        Inl e \<Rightarrow>
          (Some e,
           prop_set os ''headers''
             (if truthy (prop_get os ''headers'') then prop_get os ''headers'' else JObj []),
           snd (lru_get n (nonceKey u)),
           [ProofRequested (JObj [(''htu'', JStr (url_origin u @ url_pathname u)),
                      (''htm'', prop_get os ''method''),
                      (''nonce'', fst (lru_get n (nonceKey u)))]) (DPoP ex) (accessToken ex)])
      | Inr v \<Rightarrow>
          (None,
           prop_set os ''headers''
             (js_set (if truthy (prop_get os ''headers'') then prop_get os ''headers'' else JObj [])
                ''DPoP'' v),
           snd (lru_get n (nonceKey u)),
           [ProofRequested (JObj [(''htu'', JStr (url_origin u @ url_pathname u)),
                      (''htm'', prop_get os ''method''),
                      (''nonce'', fst (lru_get n (nonceKey u)))]) (DPoP ex) (accessToken ex)]))"
proof -
  have s2: "prop_set (prop_set ps k a) k b = prop_set ps k b" for ps k a b
    by (induction ps) auto
  from assms show ?thesis
    by (simp add: inject_proof_def Let_def prop_get_set s2 split: sum.splits)
qed

lemma validate_url_ok:
  assumes "new_URL h (prop_get options ''url'') = Some u"
    and "url_protocol u = ''http:'' \<or> url_protocol u = ''https:''"
  shows "validate_url h options = (Inr u, prop_delete options ''url'')"
  using assms by (auto simp: validate_url_def Let_def)

lemma request_after_inject:
  assumes "validate_url h options = (Inr u, o1)"
    and "inject_proof h nonces u o1 ex = (eo, o2, n1, ev1)"
  shows "(\<exists>rest. out_events (request h dflt nonces options ex) = ev1 @ rest)
     \<and> (out_options (request h dflt nonces options ex) = o2
        \<or> out_options (request h dflt nonces options ex) = resolve_shared h dflt u o2
        \<or> out_options (request h dflt nonces options ex) = clean_shared h dflt u o2)
     \<and> (\<forall>e. eo = Some e \<longrightarrow> request h dflt nonces options ex = failed e ev1 n1 o2)"
proof (cases "out_req (request h dflt nonces options ex)")
  case (Some rq)
  from request_inv[OF Some] assms show ?thesis by auto
next
  case None
  show ?thesis
  proof (cases eo)
    case (Some e)
    with assms show ?thesis by (simp add: request_def failed_def)
  next
    case eo: None
    obtain y ev2 where r0: "resolve_options h dflt u o2 = (y, ev2)"
      by (cases "resolve_options h dflt u o2")
    show ?thesis
    proof (cases y)
      case (Inl e)
      with assms eo r0 show ?thesis by (simp add: request_def failed_def)
    next
      case merged: (Inr merged)
      show ?thesis
      proof (cases "mtls_missing ex merged")
        case True
        with assms eo r0 merged show ?thesis by (simp add: request_def failed_def)
      next
        case False
        obtain z ev3 where q0:
          "open_request h (merge_search u (prop_get merged ''searchParams''))
            (clean_headers (rest_opts merged)) (prop_get merged ''json'')
            (prop_get merged ''form'') (prop_get merged ''body'') = (z, ev3)"
          by (cases "open_request h (merge_search u (prop_get merged ''searchParams''))
            (clean_headers (rest_opts merged)) (prop_get merged ''json'')
            (prop_get merged ''form'') (prop_get merged ''body'')")
        show ?thesis
        proof (cases z)
          case (Inl e)
          with assms eo r0 merged False q0 show ?thesis
            by (simp add: request_def failed_def Let_def)
        next
          case (Inr req)
          with assms eo r0 merged False q0
          have "out_req (request h dflt nonces options ex) \<noteq> None"
            by (simp add: request_def Let_def split: prod.splits)
          with None show ?thesis by simp
        qed
      qed
    qed
  qed
qed

lemma send_keeps_header:
  assumes "send req b ct = Inr req1"
    and "map lower_char k \<noteq> map lower_char ''content-type''"
    and "map lower_char k \<noteq> map lower_char ''content-length''"
  shows "prop_get (req_headers req1) k = prop_get (req_headers req) k"
proof -
  have t: "truthy v \<Longrightarrow> v \<noteq> JUndefined" for v by auto
  from assms show ?thesis
    by (auto simp: send_def Let_def prop_get_setHeader_other prop_get_removeHeader t
        split: if_splits option.splits)
qed

lemma attempt_keeps_header:
  assumes "attempt h opts rt form json body req = (res, rv, rq, ev)"
    and "map lower_char k \<noteq> map lower_char ''content-type''"
    and "map lower_char k \<noteq> map lower_char ''content-length''"
  shows "prop_get (req_headers rq) k = prop_get (req_headers req) k"
proof (cases "send_payload h form json body req")
  case (Inl e)
  from attempt_send_failed[OF Inl] assms(1) show ?thesis by simp
next
  case (Inr req1)
  from Inr have "prop_get (req_headers req1) k = prop_get (req_headers req) k"
    by (auto simp: send_payload_def split: if_splits
        intro: send_keeps_header[OF _ assms(2,3)])
  with attempt_request_object[OF assms(1) Inr] show ?thesis by simp
qed

lemma open_request_keeps_header:
  assumes "open_request h u opts json form body = (Inr req, ev)"
    and "prop_get opts ''headers'' = JObj hs" and "distinct (map fst hs)"
    and "k \<in> fst ` set hs" and "k \<noteq> '':method''"
    and "k \<noteq> ''content-type''" and "k \<noteq> ''content-length''"
  shows "prop_get (req_headers req) k = prop_get hs k"
proof (cases "truthy (prop_get opts ''http2'')")
  case False
  with assms show ?thesis by (auto simp: open_request_def new_request_def)
next
  case True
  from prop_get_assign[OF assms(3), of "[('':path'', JStr (url_pathname u))]" k] assms(4)
  have "prop_get (fold (\<lambda>(k, v) acc. prop_set acc k v) hs [('':path'', JStr (url_pathname u))]) k
          = prop_get hs k" by simp
  with True assms show ?thesis
    by (auto simp: open_request_def new_request_def http2_headers_def Let_def prop_get_set
        split: option.splits if_splits)
qed

lemma request_stores_nonce:
  assumes "response_of (out_result (request h dflt nonces options ex)) = Some r"
    and "truthy (prop_get (res_headers r) ''dpop-nonce'')"
    and "NQCHAR_test (prop_get (res_headers r) ''dpop-nonce'')"
    and "new_URL h (prop_get options ''url'') = Some u"
  shows "fst (lru_get (out_nonces (request h dflt nonces options ex)) (nonceKey u))
           = prop_get (res_headers r) ''dpop-nonce''"
proof (cases "out_req (request h dflt nonces options ex)")
  case None
  from request_failed_shape[OF None] assms(1) show ?thesis
    by (auto simp: failed_def)
next
  case (Some rq)
  from request_inv[OF Some]
  obtain u' o1 o2 n1 ev1 merged ev2 req ev3 res rv ev4 res' n2 ev5 where
    v: "validate_url h options = (Inr u', o1)"
    and a: "attempt h (clean_headers (rest_opts merged)) (prop_get merged ''responseType'')
        (prop_get merged ''form'') (prop_get merged ''json'') (prop_get merged ''body'') req
        = (res, rv, rq, ev4)"
    and f: "finish (nonceKey u') n1 res rv = (res', n2, ev5)"
    and eq: "request h dflt nonces options ex =
        \<lparr>out_result = res', out_events = ev1 @ ev2 @ ev3 @ ev4 @ ev5, out_nonces = n2,
         out_options = clean_shared h dflt u' o2, out_req = Some rq\<rparr>"
    by blast
  from v assms(4) have u: "u' = u"
    by (auto simp: validate_url_def Let_def split: option.splits if_splits)
  note ff = finish_facts[OF f attempt_response[OF a]]
  from ff(1) eq assms(1) have "rv = Some r" by simp
  with ff(3) assms(2,3) have "n2 = lru_set n1 (nonceKey u') (prop_get (res_headers r) ''dpop-nonce'')"
    by simp
  with eq u show ?thesis by (simp add: lru_get_set)
qed

lemma merged_headers_keep:
  assumes "prop_get o2 ''headers'' = JObj H" and "distinct (map fst H)"
    and "prop_get H k = v" and "v \<noteq> JUndefined" and "\<not> is_obj v"
  shows "\<exists>X. prop_get (clean_headers (rest_opts (defaultsDeep [] [JUndefined, JObj o2, dflt])))
               ''headers'' = JObj X
            \<and> distinct (map fst X) \<and> prop_get X k = v"
proof -
  let ?d = "entries (case dflt of JObj d \<Rightarrow> JObj d | _ \<Rightarrow> JUndefined)"
  let ?m = "defaults_into (defaults_into [] o2) ?d"
  have m: "defaultsDeep [] [JUndefined, JObj o2, dflt] = ?m"
    by (cases dflt) simp_all
  have e: "prop_get [] ''headers'' = JUndefined" by (simp add: prop_get_def)
  from defaults_into_obj_fill[OF e assms(1)] obtain X1 where
    x1: "prop_get (defaults_into [] o2) ''headers'' = JObj X1"
    and k1: "\<forall>key v. prop_get H key = v \<longrightarrow> v \<noteq> JUndefined \<longrightarrow> \<not> is_obj v \<longrightarrow> prop_get X1 key = v"
    by blast
  from defaults_into_obj_distinct_fill[OF e assms(1,2)] x1 have d1: "distinct (map fst X1)"
    by auto
  from defaults_into_obj_keep[OF x1, of ?d] obtain X2 where
    x2: "prop_get ?m ''headers'' = JObj X2"
    and k2: "\<forall>key v. prop_get X1 key = v \<longrightarrow> v \<noteq> JUndefined \<longrightarrow> \<not> is_obj v \<longrightarrow> prop_get X2 key = v"
    by blast
  from defaults_into_obj_distinct_keep[OF x1 d1, of ?d] x2 have d2: "distinct (map fst X2)"
    by auto
  from k1 k2 assms(3-5) have v2: "prop_get X2 k = v" by blast
  have r: "prop_get (rest_opts ?m) ''headers'' = JObj X2"
    using x2 by (simp add: prop_get_rest_opts)
  then have "prop_get (clean_headers (rest_opts ?m)) ''headers''
               = JObj (filter (\<lambda>(k, v). v \<noteq> JUndefined) X2)"
    by (simp add: clean_headers_def prop_get_set)
  moreover have "distinct (map fst (filter (\<lambda>(k, v). v \<noteq> JUndefined) X2))"
    using d2 by (rule distinct_map_filter)
  moreover have "prop_get (filter (\<lambda>(k, v). v \<noteq> JUndefined) X2) k = v"
    using v2 assms(4) by (rule prop_get_filter_defined)
  ultimately show ?thesis using m by simp
qed

lemma prop_get_defined_key: "prop_get ps k \<noteq> JUndefined \<Longrightarrow> k \<in> fst ` set ps"
  by (auto simp: prop_get_def split: option.splits dest: map_of_SomeD intro: rev_image_eqI)

lemma example_first_nonces:
  "out_nonces (request
       (example_host (NetResponse (example_incoming [(''dpop-nonce'', JStr ''abc123'')]) (Drained [])))
       example_defaults [] [(''url'', JStr ''https://op.example/token'')] example_extras)
     = [(''https://op.example/token'', JStr ''abc123'')]"
  by (simp add: example_get finish_def prop_get_def NQCHAR_test_def nqchar_def lru_set_def
      lru_max_def Let_def)

lemma example_dpop_run:
  "request (example_dpop_host NetTimeout) example_defaults
      [(''https://op.example/token'', JStr ''abc123'')]
      [(''url'', JStr ''https://op.example/token'')] example_dpop_extras
   = \<lparr>out_result = Inl (RPError ''outgoing request timed out after 3500ms'', None),
      out_events =
        [ProofRequested (JObj [(''htu'', JStr ''https://op.example/token''),
                               (''htm'', JUndefined), (''nonce'', JStr ''abc123'')])
           (JOpaque 1) JUndefined,
         Http1Opened True (example_url ''https:'')
           [(''headers'', JObj [(''DPoP'', JStr ''proof:abc123''),
                                (''User-Agent'', JStr ''openid-client'')]),
            (''timeout'', JNum 3500)],
         Destroyed],
      out_nonces = [(''https://op.example/token'', JStr ''abc123'')],
      out_options = [(''headers'', JObj [(''DPoP'', JStr ''proof:abc123''),
                                        (''User-Agent'', JStr ''openid-client'')])],
      out_req = Some \<lparr>req_kind = Http1,
                      req_headers = [(''DPoP'', JStr ''proof:abc123''),
                                     (''User-Agent'', JStr ''openid-client'')],
                      req_written = [], req_ended = True, req_destroyed = True,
                      req_closed = False\<rparr>\<rparr>"
proof -
  let ?h = "example_dpop_host NetTimeout"
  let ?u = "example_url ''https:''"
  let ?n = "[(''https://op.example/token'', JStr ''abc123'')]"
  let ?o2 = "[(''headers'', JObj [(''DPoP'', JStr ''proof:abc123'')])]"
  let ?m = "[(''headers'', JObj [(''DPoP'', JStr ''proof:abc123''),
                                (''User-Agent'', JStr ''openid-client'')]),
            (''timeout'', JNum 3500)]"
  let ?hs = "[(''DPoP'', JStr ''proof:abc123''), (''User-Agent'', JStr ''openid-client'')]"
  have d: "nat_digits 3500 = ''3500''"
    by (simp add: nat_digits.simps digit_char_def)
  have v: "validate_url ?h [(''url'', JStr ''https://op.example/token'')] = (Inr ?u, [])"
    by (simp add: validate_url_def example_dpop_host_def example_host_def example_url_def
        prop_get_def prop_delete_def)
  have i: "inject_proof ?h ?n ?u [] example_dpop_extras
      = (None, ?o2, ?n,
         [ProofRequested (JObj [(''htu'', JStr ''https://op.example/token''),
                               (''htm'', JUndefined), (''nonce'', JStr ''abc123'')])
           (JOpaque 1) JUndefined])"
    by (simp add: inject_proof_def example_dpop_host_def example_host_def example_url_def
        example_dpop_extras_def prop_get_def lru_get_def nonceKey_def Let_def)
  have r: "resolve_options ?h example_defaults ?u ?o2 = (Inr ?m, [])"
    by (simp add: resolve_options_def example_dpop_host_def example_host_def
        example_defaults_def prop_get_def)
  have m: "\<not> mtls_missing example_dpop_extras ?m"
    by (simp add: mtls_missing_def example_dpop_extras_def)
  have q: "open_request ?h (merge_search ?u (prop_get ?m ''searchParams''))
           (clean_headers (rest_opts ?m)) (prop_get ?m ''json'')
           (prop_get ?m ''form'') (prop_get ?m ''body'')
         = (Inr (new_request Http1 ?hs), [Http1Opened True ?u ?m])"
    by (simp add: stage_defs example_dpop_host_def)
  have a: "attempt ?h (clean_headers (rest_opts ?m))
           (prop_get ?m ''responseType'') (prop_get ?m ''form'')
           (prop_get ?m ''json'') (prop_get ?m ''body'') (new_request Http1 ?hs)
         = (Inl (RPError ''outgoing request timed out after 3500ms''), None,
            \<lparr>req_kind = Http1, req_headers = ?hs,
                      req_written = [], req_ended = True, req_destroyed = True,
                      req_closed = False\<rparr>, [Destroyed])"
    by (simp add: stage_defs example_dpop_host_def d)
  have f: "finish (nonceKey ?u) ?n
             (Inl (RPError ''outgoing request timed out after 3500ms'')) None
           = (Inl (RPError ''outgoing request timed out after 3500ms'', None), ?n, [])"
    by (simp add: finish_def)
  have cs: "clean_shared ?h example_defaults ?u ?o2 = [(''headers'', JObj ?hs)]"
    by (simp add: clean_shared_no_hook example_dpop_host_def example_host_def
        example_defaults_def prop_get_def clean_headers_def rest_opts_def)
  from request_dispatched[OF v i r m q a f] cs show ?thesis by simp
qed

lemma shared_adopt:
  "prop_get t k = JUndefined \<Longrightarrow> is_obj (prop_get s k) \<Longrightarrow>
     prop_get (shared_into t s m) k = prop_get m k"
proof (induction s)
  case Nil
  then show ?case by (simp add: prop_get_def)
next
  case (Cons a s)
  obtain k' v where a: "a = (k', v)" by (cases a)
  show ?case
  proof (cases "k' = k")
    case True
    with Cons.prems a have "is_obj v" by (simp add: prop_get_def)
    then obtain vs where "v = JObj vs" by (cases v) simp_all
    with True a Cons.prems(1) show ?thesis by (simp add: prop_get_def)
  next
    case False
    with Cons.prems a have "is_obj (prop_get s k)" by (simp add: prop_get_def)
    from Cons.IH[OF Cons.prems(1) this] False a show ?thesis by (simp add: prop_get_def)
  qed
qed

lemma shared_kept:
  "prop_get s k = JObj vs \<Longrightarrow> prop_get t k \<noteq> JUndefined \<Longrightarrow>
     \<exists>X. prop_get (shared_into t s m) k = JObj X
        \<and> (\<forall>key. \<not> is_obj (prop_get vs key) \<longrightarrow> prop_get X key = prop_get vs key)"
proof (induction s)
  case Nil
  then show ?case by (simp add: prop_get_def)
next
  case (Cons a s)
  obtain k' v where a: "a = (k', v)" by (cases a)
  show ?case
  proof (cases "k' = k")
    case True
    with Cons.prems a have v: "v = JObj vs" by (simp add: prop_get_def)
    have "\<exists>X. (case (prop_get t k, prop_get m k) of
                  (JObj tk, JObj mk) \<Rightarrow> JObj (shared_into tk vs mk)
                | _ \<Rightarrow> JObj vs) = JObj X
             \<and> (\<forall>key. \<not> is_obj (prop_get vs key) \<longrightarrow> prop_get X key = prop_get vs key)"
      by (cases "prop_get t k"; cases "prop_get m k"; simp add: prop_get_shared_into)
    with True a v Cons.prems(2) show ?thesis by (simp add: prop_get_def)
  next
    case False
    with Cons.prems a have "prop_get s k = JObj vs" by (simp add: prop_get_def)
    from Cons.IH[OF this Cons.prems(2)] False a show ?thesis by (simp add: prop_get_def)
  qed
qed

lemma defaults_into_undef:
  "distinct (map fst s) \<Longrightarrow> prop_get s k = JUndefined \<Longrightarrow>
     prop_get (defaults_into t s) k = prop_get t k"
proof (induction s arbitrary: t)
  case Nil
  then show ?case by simp
next
  case (Cons a s)
  obtain k' x where a: "a = (k', x)" by (cases a)
  let ?t1 = "if prop_get t k' = JUndefined \<and> x \<noteq> JUndefined then prop_set t k' x else t"
  let ?t2 = "case (prop_get ?t1 k', x) of
              (JObj tk, JObj vs) \<Rightarrow> prop_set ?t1 k' (JObj (defaults_into tk vs))
            | _ \<Rightarrow> ?t1"
  have step: "defaults_into t (a # s) = defaults_into ?t2 s"
    unfolding a by (rule defaults_into_step)
  from Cons.prems a have d: "distinct (map fst s)" and n: "k' \<notin> fst ` set s" by auto
  show ?case
  proof (cases "k' = k")
    case True
    with Cons.prems a have x: "x = JUndefined" by (simp add: prop_get_def)
    then have "?t2 = t" by (simp split: jsval.splits)
    with step defaults_into_absent[of k s t] n True show ?thesis by simp
  next
    case False
    with Cons.prems a have s: "prop_get s k = JUndefined" by (simp add: prop_get_def)
    from merge_step_other[OF False] fill_step_other[OF False]
    have "prop_get ?t2 k = prop_get t k" by simp
    with Cons.IH[OF d s, of ?t2] step show ?thesis by simp
  qed
qed

lemma defaults_into_obj_fill_exact:
  "distinct (map fst s) \<Longrightarrow> prop_get t k = JUndefined \<Longrightarrow> prop_get s k = JObj vs \<Longrightarrow>
     prop_get (defaults_into t s) k = JObj (defaults_into vs vs)"
proof (induction s arbitrary: t)
  case Nil
  then show ?case by (simp add: prop_get_def)
next
  case (Cons a s)
  obtain k' x where a: "a = (k', x)" by (cases a)
  let ?t1 = "if prop_get t k' = JUndefined \<and> x \<noteq> JUndefined then prop_set t k' x else t"
  let ?t2 = "case (prop_get ?t1 k', x) of
              (JObj tk, JObj vs) \<Rightarrow> prop_set ?t1 k' (JObj (defaults_into tk vs))
            | _ \<Rightarrow> ?t1"
  have step: "defaults_into t (a # s) = defaults_into ?t2 s"
    unfolding a by (rule defaults_into_step)
  from Cons.prems a have d: "distinct (map fst s)" and n: "k' \<notin> fst ` set s" by auto
  show ?case
  proof (cases "k' = k")
    case True
    with Cons.prems a have x: "x = JObj vs" by (simp add: prop_get_def)
    with True Cons.prems have "prop_get ?t2 k = JObj (defaults_into vs vs)"
      by (simp add: prop_get_set)
    with step defaults_into_absent[of k s ?t2] n True show ?thesis by simp
  next
    case False
    with Cons.prems a have s: "prop_get s k = JObj vs" by (simp add: prop_get_def)
    from merge_step_other[OF False] fill_step_other[OF False] Cons.prems(2)
    have "prop_get ?t2 k = JUndefined" by simp
    from Cons.IH[OF d this s] step show ?thesis by simp
  qed
qed

lemma defaults_into_obj_merge:
  "prop_get t k = JObj tk \<Longrightarrow> prop_get s k = JObj vs \<Longrightarrow>
     \<exists>X. prop_get (defaults_into t s) k = JObj X
        \<and> (\<forall>key v. prop_get tk key = JUndefined \<longrightarrow> prop_get vs key = v
              \<longrightarrow> v \<noteq> JUndefined \<longrightarrow> \<not> is_obj v \<longrightarrow> prop_get X key = v)"
proof (induction s arbitrary: t)
  case Nil
  then show ?case by (simp add: prop_get_def)
next
  case (Cons a s)
  obtain k' x where a: "a = (k', x)" by (cases a)
  let ?t1 = "if prop_get t k' = JUndefined \<and> x \<noteq> JUndefined then prop_set t k' x else t"
  let ?t2 = "case (prop_get ?t1 k', x) of
              (JObj tk, JObj vs) \<Rightarrow> prop_set ?t1 k' (JObj (defaults_into tk vs))
            | _ \<Rightarrow> ?t1"
  have step: "defaults_into t (a # s) = defaults_into ?t2 s"
    unfolding a by (rule defaults_into_step)
  show ?case
  proof (cases "k' = k")
    case True
    with Cons.prems a have x: "x = JObj vs" by (simp add: prop_get_def)
    with True Cons.prems have "prop_get ?t2 k = JObj (defaults_into tk vs)"
      by (simp add: prop_get_set)
    from defaults_into_obj_keep[OF this, of s] obtain X where
      X: "prop_get (defaults_into ?t2 s) k = JObj X"
      and kp: "\<forall>key v. prop_get (defaults_into tk vs) key = v \<longrightarrow> v \<noteq> JUndefined
                 \<longrightarrow> \<not> is_obj v \<longrightarrow> prop_get X key = v" by blast
    have "prop_get X key = v"
      if "prop_get tk key = JUndefined" "prop_get vs key = v" "v \<noteq> JUndefined" "\<not> is_obj v"
      for key v
      using defaults_into_fill[OF that] kp that(3,4) by blast
    with X step show ?thesis by auto
  next
    case False
    with Cons.prems a have s: "prop_get s k = JObj vs" by (simp add: prop_get_def)
    from merge_step_other[OF False] fill_step_other[OF False] Cons.prems(1)
    have "prop_get ?t2 k = JObj tk" by simp
    from Cons.IH[OF this s] step show ?thesis by simp
  qed
qed

lemma defaultsDeep_pre:
  "defaultsDeep [] [JObj opts, dflt]
     = defaults_into (defaults_into [] opts)
         (entries (case dflt of JObj d \<Rightarrow> JObj d | _ \<Rightarrow> JUndefined))"
  by (cases dflt) simp_all

lemma premerge_headers:
  assumes "prop_get o2 ''headers'' = JObj H"
  shows "\<exists>X1. prop_get (premerge_shared dflt o2) ''headers'' = JObj X1
     \<and> (\<forall>k v. prop_get H k = v \<longrightarrow> v \<noteq> JUndefined \<longrightarrow> \<not> is_obj v \<longrightarrow> prop_get X1 k = v)
     \<and> (distinct (map fst H) \<longrightarrow> distinct (map fst X1))"
proof -
  let ?d = "entries (case dflt of JObj d \<Rightarrow> JObj d | _ \<Rightarrow> JUndefined)"
  let ?m = "defaults_into (defaults_into [] o2) ?d"
  have e: "prop_get [] ''headers'' = JUndefined" by (simp add: prop_get_def)
  from defaults_into_obj_fill[OF e assms] obtain X0 where
    x0: "prop_get (defaults_into [] o2) ''headers'' = JObj X0"
    and k0: "\<forall>key v. prop_get H key = v \<longrightarrow> v \<noteq> JUndefined \<longrightarrow> \<not> is_obj v \<longrightarrow> prop_get X0 key = v"
    by blast
  have d0: "distinct (map fst X0)" if "distinct (map fst H)"
    using defaults_into_obj_distinct_fill[OF e assms that] x0 by auto
  from defaults_into_obj_keep[OF x0, of ?d] obtain X1 where
    x1: "prop_get ?m ''headers'' = JObj X1"
    and k1: "\<forall>key v. prop_get X0 key = v \<longrightarrow> v \<noteq> JUndefined \<longrightarrow> \<not> is_obj v \<longrightarrow> prop_get X1 key = v"
    by blast
  have d1: "distinct (map fst X1)" if "distinct (map fst H)"
    using defaults_into_obj_distinct_keep[OF x0 d0[OF that], of ?d] x1 by auto
  have "is_obj (prop_get o2 ''headers'')" using assms by simp
  from shared_adopt[OF e this, of ?m] x1
  have "prop_get (premerge_shared dflt o2) ''headers'' = JObj X1"
    by (simp add: premerge_shared_def defaultsDeep_pre del: defaultsDeep.simps)
  with k0 k1 d1 show ?thesis by blast
qed

lemma merged_headers_hook_none:
  assumes "prop_get o' ''headers'' = JObj X1" and "js_get r ''headers'' = JUndefined"
  shows "\<exists>X. prop_get (defaultsDeep [] [pick r allowed, JObj o', dflt]) ''headers'' = JObj X
     \<and> (\<forall>k v. prop_get X1 k = v \<longrightarrow> v \<noteq> JUndefined \<longrightarrow> \<not> is_obj v \<longrightarrow> prop_get X k = v)
     \<and> (distinct (map fst X1) \<longrightarrow> distinct (map fst X))"
proof -
  let ?ps = "map (\<lambda>p. (p, js_get r p)) (filter (\<lambda>p. js_get r p \<noteq> JUndefined) allowed)"
  let ?d = "entries (case dflt of JObj d \<Rightarrow> JObj d | _ \<Rightarrow> JUndefined)"
  let ?m = "defaults_into (defaults_into (defaults_into [] ?ps) o') ?d"
  note pk = pick_props[of r allowed "''headers''"]
  have m: "defaultsDeep [] [pick r allowed, JObj o', dflt] = ?m"
    using pk by (simp add: defaultsDeep_three del: defaultsDeep.simps)
  from pk assms(2) have "''headers'' \<notin> fst ` set ?ps" by blast
  from defaults_into_absent[OF this, of "[]"]
  have e: "prop_get (defaults_into [] ?ps) ''headers'' = JUndefined" by (simp add: prop_get_def)
  from defaults_into_obj_fill[OF e assms(1)] obtain X0 where
    x0: "prop_get (defaults_into (defaults_into [] ?ps) o') ''headers'' = JObj X0"
    and k0: "\<forall>key v. prop_get X1 key = v \<longrightarrow> v \<noteq> JUndefined \<longrightarrow> \<not> is_obj v \<longrightarrow> prop_get X0 key = v"
    by blast
  have d0: "distinct (map fst X0)" if "distinct (map fst X1)"
    using defaults_into_obj_distinct_fill[OF e assms(1) that] x0 by auto
  from defaults_into_obj_keep[OF x0, of ?d] obtain X where
    x: "prop_get ?m ''headers'' = JObj X"
    and k: "\<forall>key v. prop_get X0 key = v \<longrightarrow> v \<noteq> JUndefined \<longrightarrow> \<not> is_obj v \<longrightarrow> prop_get X key = v"
    by blast
  have d: "distinct (map fst X)" if "distinct (map fst X1)"
    using defaults_into_obj_distinct_keep[OF x0 d0[OF that], of ?d] x by auto
  from x k0 k d show ?thesis unfolding m by blast
qed

lemma merged_headers_hook_obj:
  assumes "prop_get o' ''headers'' = JObj X1" and "js_get r ''headers'' = JObj hu"
    and "distinct (map fst hu)"
  shows "\<exists>X. prop_get (defaultsDeep [] [pick r allowed, JObj o', dflt]) ''headers'' = JObj X
     \<and> distinct (map fst X)
     \<and> (\<forall>k w. prop_get hu k = w \<longrightarrow> w \<noteq> JUndefined \<longrightarrow> \<not> is_obj w \<longrightarrow> prop_get X k = w)
     \<and> (\<forall>k v. prop_get hu k = JUndefined \<longrightarrow> prop_get X1 k = v \<longrightarrow> v \<noteq> JUndefined
            \<longrightarrow> \<not> is_obj v \<longrightarrow> prop_get X k = v)"
proof -
  let ?ps = "map (\<lambda>p. (p, js_get r p)) (filter (\<lambda>p. js_get r p \<noteq> JUndefined) allowed)"
  let ?d = "entries (case dflt of JObj d \<Rightarrow> JObj d | _ \<Rightarrow> JUndefined)"
  let ?m = "defaults_into (defaults_into (defaults_into [] ?ps) o') ?d"
  let ?T = "defaults_into hu hu"
  note pk = pick_props[of r allowed "''headers''"]
  have m: "defaultsDeep [] [pick r allowed, JObj o', dflt] = ?m"
    using pk by (simp add: defaultsDeep_three del: defaultsDeep.simps)
  have da: "distinct allowed" by (simp add: allowed_def)
  have dps: "distinct (map fst ?ps)"
    using da by (simp add: comp_def distinct_map_filter)
  have ha: "''headers'' \<in> set allowed" by (simp add: allowed_def)
  from pk ha assms(2) have ph: "prop_get ?ps ''headers'' = JObj hu" by simp
  have e: "prop_get [] ''headers'' = JUndefined" by (simp add: prop_get_def)
  from defaults_into_obj_fill_exact[OF dps e ph]
  have t: "prop_get (defaults_into [] ?ps) ''headers'' = JObj ?T" .
  have dT: "distinct (map fst ?T)" using assms(3) by (rule distinct_defaults_into)
  have kT: "prop_get ?T k = w" if "prop_get hu k = w" "w \<noteq> JUndefined" "\<not> is_obj w" for k w
    using that by (rule defaults_into_keep)
  have uT: "prop_get ?T k = JUndefined" if "prop_get hu k = JUndefined" for k
    using defaults_into_undef[OF assms(3) that, of hu] that by simp
  from defaults_into_obj_merge[OF t assms(1)] obtain X2 where
    x2: "prop_get (defaults_into (defaults_into [] ?ps) o') ''headers'' = JObj X2"
    and f2: "\<forall>key v. prop_get ?T key = JUndefined \<longrightarrow> prop_get X1 key = v
              \<longrightarrow> v \<noteq> JUndefined \<longrightarrow> \<not> is_obj v \<longrightarrow> prop_get X2 key = v" by blast
  from defaults_into_obj_keep[OF t, of o'] x2
  have k2: "\<forall>key v. prop_get ?T key = v \<longrightarrow> v \<noteq> JUndefined \<longrightarrow> \<not> is_obj v \<longrightarrow> prop_get X2 key = v"
    by auto
  from defaults_into_obj_distinct_keep[OF t dT, of o'] x2 have d2: "distinct (map fst X2)"
    by auto
  from defaults_into_obj_keep[OF x2, of ?d] obtain X where
    x: "prop_get ?m ''headers'' = JObj X"
    and k: "\<forall>key v. prop_get X2 key = v \<longrightarrow> v \<noteq> JUndefined \<longrightarrow> \<not> is_obj v \<longrightarrow> prop_get X key = v"
    by blast
  from defaults_into_obj_distinct_keep[OF x2 d2, of ?d] x have d: "distinct (map fst X)"
    by auto
  have a1: "prop_get X k = w" if "prop_get hu k = w" "w \<noteq> JUndefined" "\<not> is_obj w" for k w
    using kT[OF that] k2 k that(2,3) by blast
  have a2: "prop_get X k = v"
    if "prop_get hu k = JUndefined" "prop_get X1 k = v" "v \<noteq> JUndefined" "\<not> is_obj v" for k v
    using uT[OF that(1)] f2 k that(2,3,4) by blast
  from x d a1 a2 show ?thesis unfolding m by blast
qed

lemma cleaned_headers:
  assumes "prop_get merged ''headers'' = JObj X"
  shows "prop_get (clean_headers (rest_opts merged)) ''headers''
           = JObj (filter (\<lambda>(k, v). v \<noteq> JUndefined) X)"
proof -
  have "prop_get (rest_opts merged) ''headers'' = JObj X"
    using assms by (simp add: prop_get_rest_opts)
  then show ?thesis by (simp add: clean_headers_def prop_get_set)
qed

lemma resolve_options_hook:
  assumes "optsFn h = Some f" and "resolve_options h dflt u o2 = (Inr merged, ev2)"
  shows "\<exists>r. f u (JObj (defaultsDeep [] [JObj o2, dflt])) = Inr r
     \<and> merged = defaultsDeep [] [pick r allowed, JObj (premerge_shared dflt o2), dflt]
     \<and> ev2 = [HookCalled u (JObj (defaultsDeep [] [JObj o2, dflt]))]"
  using assms
  by (auto simp: resolve_options_def Let_def simp del: defaultsDeep.simps split: sum.splits)

lemma inject_proof_no_hook_event:
  "inject_proof h n u os ex = (eo, os', n1, ev) \<Longrightarrow> HookCalled u' pre \<notin> set ev"
  by (auto simp: inject_proof_def Let_def split: option.splits if_splits sum.splits)

lemma open_request_no_hook_event:
  "open_request h u opts json form body = (x, ev) \<Longrightarrow> HookCalled u' pre \<notin> set ev"
  by (auto simp: open_request_def split: if_splits option.splits)

lemma attempt_no_hook_event:
  "attempt h opts rt form json body req = (res, rv, rq, ev) \<Longrightarrow> HookCalled u' pre \<notin> set ev"
  by (auto simp: attempt_def Let_def split: sum.splits net.splits drain.splits if_splits)

lemma finish_no_hook_event:
  "finish k n res rv = (res', n2, ev) \<Longrightarrow> HookCalled u' pre \<notin> set ev"
  by (auto simp: finish_def Let_def split: if_splits)

lemma defaultsDeep_one: "defaultsDeep [] [JObj ps] = defaults_into [] ps"
  by simp

lemma merged_adopted:
  assumes "prop_get t ''headers'' = JUndefined" and "prop_get o' ''headers'' = JObj X1"
  shows "\<exists>X. prop_get (defaults_into (defaults_into t o') d) ''headers'' = JObj X
     \<and> (\<forall>k v. prop_get X1 k = v \<longrightarrow> v \<noteq> JUndefined \<longrightarrow> \<not> is_obj v \<longrightarrow> prop_get X k = v)
     \<and> (distinct (map fst X1) \<longrightarrow> distinct (map fst X))"
proof -
  from defaults_into_obj_fill[OF assms] obtain X0 where
    x0: "prop_get (defaults_into t o') ''headers'' = JObj X0"
    and k0: "\<forall>key v. prop_get X1 key = v \<longrightarrow> v \<noteq> JUndefined \<longrightarrow> \<not> is_obj v \<longrightarrow> prop_get X0 key = v"
    by blast
  have d0: "distinct (map fst X0)" if "distinct (map fst X1)"
    using defaults_into_obj_distinct_fill[OF assms that] x0 by auto
  from defaults_into_obj_keep[OF x0, of d] obtain X where
    x: "prop_get (defaults_into (defaults_into t o') d) ''headers'' = JObj X"
    and k: "\<forall>key v. prop_get X0 key = v \<longrightarrow> v \<noteq> JUndefined \<longrightarrow> \<not> is_obj v \<longrightarrow> prop_get X key = v"
    by blast
  have dx: "distinct (map fst X)" if "distinct (map fst X1)"
    using defaults_into_obj_distinct_keep[OF x0 d0[OF that], of d] x by auto
  from x k0 k dx show ?thesis by blast
qed


lemma request_hook_called:
  assumes "validate_url h options = (Inr u, o1)"
    and "inject_proof h nonces u o1 ex = (None, o2, n1, ev1)"
    and "resolve_options h dflt u o2 = (x, ev2)"
    and "HookCalled u' pre \<in> set (out_events (request h dflt nonces options ex))"
  shows "HookCalled u' pre \<in> set ev2"
proof -
  note e1 = inject_proof_no_hook_event[OF assms(2), of u' pre]
  show ?thesis
  proof (cases x)
    case (Inl e)
    with assms e1 show ?thesis by (simp add: request_def failed_def)
  next
    case merged: (Inr merged)
    show ?thesis
    proof (cases "mtls_missing ex merged")
      case True
      with assms e1 merged show ?thesis by (simp add: request_def failed_def)
    next
      case False
      obtain z ev3 where q0:
        "open_request h (merge_search u (prop_get merged ''searchParams''))
          (clean_headers (rest_opts merged)) (prop_get merged ''json'')
          (prop_get merged ''form'') (prop_get merged ''body'') = (z, ev3)"
        by (cases "open_request h (merge_search u (prop_get merged ''searchParams''))
          (clean_headers (rest_opts merged)) (prop_get merged ''json'')
          (prop_get merged ''form'') (prop_get merged ''body'')")
      note e3 = open_request_no_hook_event[OF q0, of u' pre]
      show ?thesis
      proof (cases z)
        case (Inl e)
        with assms e1 e3 merged False q0 show ?thesis
          by (simp add: request_def failed_def Let_def)
      next
        case req: (Inr req)
        obtain res rv rq ev4 where a:
          "attempt h (clean_headers (rest_opts merged)) (prop_get merged ''responseType'')
             (prop_get merged ''form'') (prop_get merged ''json'') (prop_get merged ''body'') req
           = (res, rv, rq, ev4)"
          by (cases "attempt h (clean_headers (rest_opts merged)) (prop_get merged ''responseType'')
             (prop_get merged ''form'') (prop_get merged ''json'') (prop_get merged ''body'') req")
        obtain res' n2 ev5 where f: "finish (nonceKey u) n1 res rv = (res', n2, ev5)"
          by (cases "finish (nonceKey u) n1 res rv")
        note e4 = attempt_no_hook_event[OF a, of u' pre]
        note e5 = finish_no_hook_event[OF f, of u' pre]
        from request_dispatched[OF assms(1,2) assms(3)[unfolded merged] False q0[unfolded req] a f]
          assms(4) e1 e3 e4 e5 show ?thesis by simp
      qed
    qed
  qed
qed


lemma wire_header:
  assumes "open_request h u1 (clean_headers (rest_opts merged)) json form body = (Inr req, ev3)"
    and "attempt h (clean_headers (rest_opts merged)) rt form json body req = (res, rv, rq, ev4)"
    and "prop_get merged ''headers'' = JObj X" and "distinct (map fst X)"
    and "prop_get X ''DPoP'' = val" and "val \<noteq> JUndefined"
  shows "prop_get (req_headers rq) ''DPoP'' = val"
proof -
  let ?X = "filter (\<lambda>(k, v). v \<noteq> JUndefined) X"
  note c = cleaned_headers[OF assms(3)]
  have d: "distinct (map fst ?X)" using assms(4) by (rule distinct_map_filter)
  have g: "prop_get ?X ''DPoP'' = val" using assms(5,6) by (rule prop_get_filter_defined)
  with assms(6) have "prop_get ?X ''DPoP'' \<noteq> JUndefined" by simp
  then have kin: "''DPoP'' \<in> fst ` set ?X" by (rule prop_get_defined_key)
  from open_request_keeps_header[OF assms(1) c d kin] g
  have "prop_get (req_headers req) ''DPoP'' = val" by simp
  moreover from attempt_keeps_header[OF assms(2), of "''DPoP''"]
  have "prop_get (req_headers rq) ''DPoP'' = prop_get (req_headers req) ''DPoP''"
    by (simp add: lower_char_def)
  ultimately show ?thesis by simp
qed

lemma caller_headers_keep:
  assumes "prop_get o2 ''headers'' = JObj H" and "prop_get H k = v"
    and "v \<noteq> JUndefined" and "\<not> is_obj v"
  shows "js_get (prop_get (premerge_shared dflt o2) ''headers'') k = v"
    and "js_get (prop_get (resolve_shared h dflt u o2) ''headers'') k = v"
    and "js_get (prop_get (clean_shared h dflt u o2) ''headers'') k = v"
proof -
  let ?d = "entries (case dflt of JObj d \<Rightarrow> JObj d | _ \<Rightarrow> JUndefined)"
  let ?pre = "JObj (defaultsDeep [] [JObj o2, dflt])"
  let ?o = "premerge_shared dflt o2"
  from premerge_headers[OF assms(1), of dflt] obtain X1 where
    x1: "prop_get ?o ''headers'' = JObj X1"
    and k1: "\<forall>k v. prop_get H k = v \<longrightarrow> v \<noteq> JUndefined \<longrightarrow> \<not> is_obj v \<longrightarrow> prop_get X1 k = v"
    by blast
  from k1 assms(2-4) have g1: "prop_get X1 k = v" by blast
  from x1 g1 show p1: "js_get (prop_get ?o ''headers'') k = v" by simp
  have e: "prop_get [] ''headers'' = JUndefined" by (simp add: prop_get_def)
  have adopted: "js_get (prop_get (shared_into t os (defaults_into (defaults_into t os) ?d))
                     ''headers'') k = v
      \<and> js_get (prop_get (clean_headers (rest_opts (defaults_into (defaults_into t os) ?d)))
                     ''headers'') k = v"
    if "prop_get t ''headers'' = JUndefined" "prop_get os ''headers'' = JObj Y"
      "prop_get Y k = v" for t os Y
  proof -
    from merged_adopted[OF that(1,2), of ?d] obtain X where
      x: "prop_get (defaults_into (defaults_into t os) ?d) ''headers'' = JObj X"
      and kx: "\<forall>k v. prop_get Y k = v \<longrightarrow> v \<noteq> JUndefined \<longrightarrow> \<not> is_obj v \<longrightarrow> prop_get X k = v"
      by blast
    from kx that(3) assms(3,4) have gx: "prop_get X k = v" by blast
    have "is_obj (prop_get os ''headers'')" using that(2) by simp
    from shared_adopt[OF that(1) this, of "defaults_into (defaults_into t os) ?d"] x gx
    have a: "js_get (prop_get (shared_into t os (defaults_into (defaults_into t os) ?d))
                     ''headers'') k = v" by simp
    from cleaned_headers[OF x] prop_get_filter_defined[OF gx assms(3)]
    have b: "js_get (prop_get (clean_headers (rest_opts (defaults_into (defaults_into t os) ?d)))
                     ''headers'') k = v" by simp
    from a b show ?thesis by simp
  qed
  have kept: "js_get (prop_get (shared_into t ?o m) ''headers'') k = v"
    if "prop_get t ''headers'' \<noteq> JUndefined" for t m
  proof -
    from shared_kept[OF x1 that, of m] obtain X where
      "prop_get (shared_into t ?o m) ''headers'' = JObj X"
      and "\<forall>key. \<not> is_obj (prop_get X1 key) \<longrightarrow> prop_get X key = prop_get X1 key" by blast
    with g1 assms(4) show ?thesis by simp
  qed
  show p2: "js_get (prop_get (resolve_shared h dflt u o2) ''headers'') k = v"
  proof (cases "optsFn h")
    case None
    with adopted[OF e assms(1,2)] show ?thesis
      by (simp add: resolve_shared_def defaultsDeep_two del: defaultsDeep.simps)
  next
    case (Some f)
    show ?thesis
    proof (cases "f u ?pre")
      case (Inl err)
      with Some p1 show ?thesis by (simp add: resolve_shared_def del: defaultsDeep.simps)
    next
      case (Inr r)
      let ?ps = "map (\<lambda>p. (p, js_get r p)) (filter (\<lambda>p. js_get r p \<noteq> JUndefined) allowed)"
      let ?t = "defaults_into [] ?ps"
      note pk = pick_props[of r allowed "''headers''"]
      have rs: "resolve_shared h dflt u o2
          = shared_into ?t ?o (defaults_into (defaults_into ?t ?o) ?d)"
        using Some Inr pk
        by (simp add: resolve_shared_def defaultsDeep_three defaultsDeep_one
            del: defaultsDeep.simps)
      show ?thesis
      proof (cases "prop_get ?t ''headers'' = JUndefined")
        case True
        from adopted[OF True x1 g1] rs show ?thesis by simp
      next
        case False
        from kept[OF False] rs show ?thesis by simp
      qed
    qed
  qed
  show "js_get (prop_get (clean_shared h dflt u o2) ''headers'') k = v"
  proof (cases "optsFn h")
    case None
    have r: "resolve_options h dflt u o2
               = (Inr (defaults_into (defaults_into [] o2) ?d), [])"
      using None by (simp add: resolve_options_def defaultsDeep_two del: defaultsDeep.simps)
    from adopted[OF e assms(1,2)] p2 r None show ?thesis
      by (simp add: clean_shared_def hook_target_def prop_get_set)
  next
    case (Some f)
    show ?thesis
    proof (cases "f u ?pre")
      case (Inl err)
      with Some p2 show ?thesis
        by (simp add: clean_shared_def resolve_options_def Let_def del: defaultsDeep.simps)
    next
      case (Inr r)
      let ?ps = "map (\<lambda>p. (p, js_get r p)) (filter (\<lambda>p. js_get r p \<noteq> JUndefined) allowed)"
      let ?t = "defaults_into [] ?ps"
      note pk = pick_props[of r allowed "''headers''"]
      have ro: "resolve_options h dflt u o2
          = (Inr (defaults_into (defaults_into ?t ?o) ?d), [HookCalled u ?pre])"
        using Some Inr pk
        by (simp add: resolve_options_def Let_def defaultsDeep_three del: defaultsDeep.simps)
      have ht: "hook_target h dflt u o2 = ?t"
        using Some Inr pk by (simp add: hook_target_def defaultsDeep_one del: defaultsDeep.simps)
      show ?thesis
      proof (cases "prop_get ?t ''headers'' = JUndefined")
        case True
        from adopted[OF True x1 g1] p2 ro ht show ?thesis
          by (simp add: clean_shared_def prop_get_set)
      next
        case False
        with p2 ro ht show ?thesis by (simp add: clean_shared_def)
      qed
    qed
  qed
qed

text \<open>
  C5, as amended. For a request to a valid http or https URL with a truthy \<open>DPoP\<close> and
  with \<open>dpopProof\<close> present, the first thing the call does, before any connection is
  opened, is to call \<open>dpopProof\<close> with \<open>htu\<close> the origin of the URL followed by its path,
  \<open>htm\<close> the \<open>method\<close> option and \<open>nonce\<close> the value the cache holds under the key of
  origin followed by path (\<open>undefined\<close> when it holds none). When the capability
  rejects, the call rejects with that error and opens nothing. Otherwise the value, a
  defined primitive, is written to the \<open>DPoP\<close> entry of the caller's headers (a fresh
  headers object when there was none) and stays there. The request object carries it as
  its \<open>DPoP\<close> header on either transport when there is no hook, when the hook returns
  no \<open>headers\<close>, and when the hook returns a plain \<open>headers\<close> object without a \<open>DPoP\<close>
  entry; when the hook's \<open>headers\<close> have a \<open>DPoP\<close> entry, the request carries the
  hook's value instead. If the cache is the one left by an earlier call that settled with
  a response for the same origin and path whose \<open>dpop-nonce\<close> header matched \<open>NQCHAR\<close>,
  the nonce passed is that header's value.
\<close>

theorem proof_injected:
  assumes "new_URL h (prop_get options ''url'') = Some u"
    and "url_protocol u = ''http:'' \<or> url_protocol u = ''https:''"
    and "truthy (DPoP ex)"
    and "dpopProof h = Some pf"
    and "payload = JObj [(''htu'', JStr (url_origin u @ url_pathname u)),
                         (''htm'', prop_get options ''method''),
                         (''nonce'', fst (lru_get nonces (url_origin u @ url_pathname u)))]"
  shows "(\<exists>rest. out_events (request h dflt nonces options ex)
                  = ProofRequested payload (DPoP ex) (accessToken ex) # rest)
     \<and> (\<forall>e. pf payload (DPoP ex) (accessToken ex) = Inl e \<longrightarrow>
            out_result (request h dflt nonces options ex) = Inl (e, None)
          \<and> out_req (request h dflt nonces options ex) = None)
     \<and> (\<forall>v. pf payload (DPoP ex) (accessToken ex) = Inr v \<longrightarrow>
            v \<noteq> JUndefined \<longrightarrow> \<not> is_obj v \<longrightarrow>
            (\<not> truthy (prop_get options ''headers'') \<or> is_obj (prop_get options ''headers'')) \<longrightarrow>
            js_get (prop_get (out_options (request h dflt nonces options ex)) ''headers'') ''DPoP''
              = v)
     \<and> (\<forall>v rq. pf payload (DPoP ex) (accessToken ex) = Inr v \<longrightarrow>
            v \<noteq> JUndefined \<longrightarrow> \<not> is_obj v \<longrightarrow>
            (\<not> truthy (prop_get options ''headers'')
              \<or> (\<exists>hs. prop_get options ''headers'' = JObj hs \<and> distinct (map fst hs))) \<longrightarrow>
            out_req (request h dflt nonces options ex) = Some rq \<longrightarrow>
            (optsFn h = None \<longrightarrow> prop_get (req_headers rq) ''DPoP'' = v)
          \<and> (\<forall>f pre r. optsFn h = Some f \<longrightarrow>
                HookCalled u pre \<in> set (out_events (request h dflt nonces options ex)) \<longrightarrow>
                f u pre = Inr r \<longrightarrow>
                (js_get r ''headers'' = JUndefined \<longrightarrow> prop_get (req_headers rq) ''DPoP'' = v)
              \<and> (\<forall>hu. js_get r ''headers'' = JObj hu \<longrightarrow> distinct (map fst hu) \<longrightarrow>
                    (prop_get hu ''DPoP'' = JUndefined
                       \<longrightarrow> prop_get (req_headers rq) ''DPoP'' = v)
                  \<and> (prop_get hu ''DPoP'' \<noteq> JUndefined \<longrightarrow> \<not> is_obj (prop_get hu ''DPoP'')
                       \<longrightarrow> prop_get (req_headers rq) ''DPoP'' = prop_get hu ''DPoP''))))
     \<and> (\<forall>h0 d0 n0 os0 ex0 r u0.
            nonces = out_nonces (request h0 d0 n0 os0 ex0) \<longrightarrow>
            response_of (out_result (request h0 d0 n0 os0 ex0)) = Some r \<longrightarrow>
            truthy (prop_get (res_headers r) ''dpop-nonce'') \<longrightarrow>
            NQCHAR_test (prop_get (res_headers r) ''dpop-nonce'') \<longrightarrow>
            new_URL h0 (prop_get os0 ''url'') = Some u0 \<longrightarrow>
            url_origin u0 @ url_pathname u0 = url_origin u @ url_pathname u \<longrightarrow>
            fst (lru_get nonces (url_origin u @ url_pathname u))
              = prop_get (res_headers r) ''dpop-nonce'')"
proof -
  let ?R = "request h dflt nonces options ex"
  let ?o1 = "prop_delete options ''url''"
  let ?hd = "if truthy (prop_get ?o1 ''headers'') then prop_get ?o1 ''headers'' else JObj []"
  let ?call = "pf payload (DPoP ex) (accessToken ex)"
  have v: "validate_url h options = (Inr u, ?o1)"
    by (rule validate_url_ok[OF assms(1,2)])
  have me: "prop_get ?o1 ''method'' = prop_get options ''method''"
    and he: "prop_get ?o1 ''headers'' = prop_get options ''headers''"
    by (simp_all add: prop_get_prop_delete)
  note ip = inject_proof_apply[OF assms(4,3), of nonces u ?o1, unfolded me nonceKey_def,
                                folded assms(5)]
  obtain eo o2 n1 ev1 where i: "inject_proof h nonces u ?o1 ex = (eo, o2, n1, ev1)"
    by (cases "inject_proof h nonces u ?o1 ex")
  from i ip have ev1: "ev1 = [ProofRequested payload (DPoP ex) (accessToken ex)]"
    by (auto split: sum.splits)
  note ai = request_after_inject[OF v i, of dflt]
  have c1: "\<exists>rest. out_events ?R = ProofRequested payload (DPoP ex) (accessToken ex) # rest"
    using ai ev1 by auto
  have c2: "out_result ?R = Inl (e, None) \<and> out_req ?R = None" if "?call = Inl e" for e
  proof -
    from that i ip have "eo = Some e" by simp
    with ai show ?thesis by (simp add: failed_def)
  qed
  have o2: "o2 = prop_set ?o1 ''headers'' (js_set ?hd ''DPoP'' w)" and eo: "eo = None"
    if "?call = Inr w" for w
    using that i ip by simp_all
  have c3: "js_get (prop_get (out_options ?R) ''headers'') ''DPoP'' = w"
    if w: "?call = Inr w" "w \<noteq> JUndefined" "\<not> is_obj w"
      and hs: "\<not> truthy (prop_get options ''headers'') \<or> is_obj (prop_get options ''headers'')"
    for w
  proof -
    from hs he obtain hs0 where hd: "?hd = JObj hs0"
      by (cases "prop_get options ''headers''") auto
    let ?H = "prop_set hs0 ''DPoP'' w"
    from o2[OF w(1)] hd have oh: "prop_get o2 ''headers'' = JObj ?H"
      by (simp add: prop_get_set)
    have gH: "prop_get ?H ''DPoP'' = w" by (simp add: prop_get_set)
    note ck = caller_headers_keep[OF oh gH w(2,3)]
    from ai ck(2)[of h dflt u] ck(3)[of h dflt u] oh gH show ?thesis by auto
  qed
  have c4: "(optsFn h = None \<longrightarrow> prop_get (req_headers rq) ''DPoP'' = w)
          \<and> (\<forall>f pre r. optsFn h = Some f \<longrightarrow>
                HookCalled u pre \<in> set (out_events ?R) \<longrightarrow>
                f u pre = Inr r \<longrightarrow>
                (js_get r ''headers'' = JUndefined \<longrightarrow> prop_get (req_headers rq) ''DPoP'' = w)
              \<and> (\<forall>hu. js_get r ''headers'' = JObj hu \<longrightarrow> distinct (map fst hu) \<longrightarrow>
                    (prop_get hu ''DPoP'' = JUndefined
                       \<longrightarrow> prop_get (req_headers rq) ''DPoP'' = w)
                  \<and> (prop_get hu ''DPoP'' \<noteq> JUndefined \<longrightarrow> \<not> is_obj (prop_get hu ''DPoP'')
                       \<longrightarrow> prop_get (req_headers rq) ''DPoP'' = prop_get hu ''DPoP'')))"
    if w: "?call = Inr w" "w \<noteq> JUndefined" "\<not> is_obj w"
      and hs: "\<not> truthy (prop_get options ''headers'')
              \<or> (\<exists>hs. prop_get options ''headers'' = JObj hs \<and> distinct (map fst hs))"
      and rq: "out_req ?R = Some rq" for w rq
  proof -
    let ?d = "entries (case dflt of JObj d \<Rightarrow> JObj d | _ \<Rightarrow> JUndefined)"
    let ?pre = "JObj (defaultsDeep [] [JObj o2, dflt])"
    from hs he obtain hs0 where hd: "?hd = JObj hs0" and dh: "distinct (map fst hs0)"
      by auto
    let ?H = "prop_set hs0 ''DPoP'' w"
    from o2[OF w(1)] hd have oh: "prop_get o2 ''headers'' = JObj ?H"
      by (simp add: prop_get_set)
    have dH: "distinct (map fst ?H)" using dh by (rule distinct_prop_set)
    have gH: "prop_get ?H ''DPoP'' = w" by (simp add: prop_get_set)
    from request_inv[OF rq]
    obtain u' o1' o2' n1' ev1' merged ev2 req ev3 res rv ev4 where
      v': "validate_url h options = (Inr u', o1')"
      and i': "inject_proof h nonces u' o1' ex = (None, o2', n1', ev1')"
      and r': "resolve_options h dflt u' o2' = (Inr merged, ev2)"
      and q: "open_request h (merge_search u' (prop_get merged ''searchParams''))
          (clean_headers (rest_opts merged)) (prop_get merged ''json'')
          (prop_get merged ''form'') (prop_get merged ''body'') = (Inr req, ev3)"
      and a: "attempt h (clean_headers (rest_opts merged)) (prop_get merged ''responseType'')
          (prop_get merged ''form'') (prop_get merged ''json'') (prop_get merged ''body'') req
          = (res, rv, rq, ev4)"
      by blast
    from v v' i i' have same: "u' = u" "o1' = ?o1" "o2' = o2" "eo = None" "n1' = n1" "ev1' = ev1"
      by simp_all
    note r = r'[unfolded same] and i0 = i[unfolded same(4)]
    note wire = wire_header[OF q a]
    have e: "prop_get [] ''headers'' = JUndefined" by (simp add: prop_get_def)
    have plain: "prop_get (req_headers rq) ''DPoP'' = w" if nh: "optsFn h = None"
    proof -
      from r resolve_options_no_hook[OF nh, of dflt u o2]
      have m: "merged = defaults_into (defaults_into [] o2) ?d"
        by (simp add: defaultsDeep_two del: defaultsDeep.simps)
      from merged_adopted[OF e oh, of ?d] dH gH w(2,3) obtain X where
        "prop_get merged ''headers'' = JObj X" "distinct (map fst X)" "prop_get X ''DPoP'' = w"
        unfolding m by blast
      from wire[OF this w(2)] show ?thesis .
    qed
    have hooked: "(js_get r ''headers'' = JUndefined \<longrightarrow> prop_get (req_headers rq) ''DPoP'' = w)
              \<and> (\<forall>hu. js_get r ''headers'' = JObj hu \<longrightarrow> distinct (map fst hu) \<longrightarrow>
                    (prop_get hu ''DPoP'' = JUndefined
                       \<longrightarrow> prop_get (req_headers rq) ''DPoP'' = w)
                  \<and> (prop_get hu ''DPoP'' \<noteq> JUndefined \<longrightarrow> \<not> is_obj (prop_get hu ''DPoP'')
                       \<longrightarrow> prop_get (req_headers rq) ''DPoP'' = prop_get hu ''DPoP''))"
      if hk: "optsFn h = Some f" and ev: "HookCalled u pre \<in> set (out_events ?R)"
        and fr: "f u pre = Inr r" for f pre r
    proof -
      from request_hook_called[OF v i0 r ev] resolve_options_hook[OF hk r] fr
      have fr0: "f u ?pre = Inr r"
        and m: "merged = defaultsDeep [] [pick r allowed, JObj (premerge_shared dflt o2), dflt]"
        by auto
      from premerge_headers[OF oh, of dflt] dH gH w(2,3) obtain X1 where
        x1: "prop_get (premerge_shared dflt o2) ''headers'' = JObj X1"
        and d1: "distinct (map fst X1)" and g1: "prop_get X1 ''DPoP'' = w" by blast
      have n: "prop_get (req_headers rq) ''DPoP'' = w" if "js_get r ''headers'' = JUndefined"
      proof -
        from merged_headers_hook_none[OF x1 that, of dflt] d1 g1 w(2,3) obtain X where
          "prop_get merged ''headers'' = JObj X" "distinct (map fst X)" "prop_get X ''DPoP'' = w"
          unfolding m by blast
        from wire[OF this w(2)] show ?thesis .
      qed
      have ob: "(prop_get hu ''DPoP'' = JUndefined
                       \<longrightarrow> prop_get (req_headers rq) ''DPoP'' = w)
                  \<and> (prop_get hu ''DPoP'' \<noteq> JUndefined \<longrightarrow> \<not> is_obj (prop_get hu ''DPoP'')
                       \<longrightarrow> prop_get (req_headers rq) ''DPoP'' = prop_get hu ''DPoP'')"
        if "js_get r ''headers'' = JObj hu" "distinct (map fst hu)" for hu
      proof -
        from merged_headers_hook_obj[OF x1 that, of dflt] obtain X where
          x: "prop_get merged ''headers'' = JObj X" and dx: "distinct (map fst X)"
          and th: "\<forall>k w. prop_get hu k = w \<longrightarrow> w \<noteq> JUndefined \<longrightarrow> \<not> is_obj w \<longrightarrow> prop_get X k = w"
          and mi: "\<forall>k v. prop_get hu k = JUndefined \<longrightarrow> prop_get X1 k = v \<longrightarrow> v \<noteq> JUndefined
                     \<longrightarrow> \<not> is_obj v \<longrightarrow> prop_get X k = v"
          unfolding m by blast
        have a1: "prop_get (req_headers rq) ''DPoP'' = w" if "prop_get hu ''DPoP'' = JUndefined"
        proof -
          from mi that g1 w(2,3) have "prop_get X ''DPoP'' = w" by blast
          from wire[OF x dx this w(2)] show ?thesis .
        qed
        have a2: "prop_get (req_headers rq) ''DPoP'' = prop_get hu ''DPoP''"
          if "prop_get hu ''DPoP'' \<noteq> JUndefined" "\<not> is_obj (prop_get hu ''DPoP'')"
        proof -
          from th that have "prop_get X ''DPoP'' = prop_get hu ''DPoP''" by blast
          from wire[OF x dx this that(1)] show ?thesis .
        qed
        from a1 a2 show ?thesis by blast
      qed
      from n ob show ?thesis by blast
    qed
    from plain hooked show ?thesis by blast
  qed
  have c6: "fst (lru_get nonces (url_origin u @ url_pathname u))
              = prop_get (res_headers r) ''dpop-nonce''"
    if "nonces = out_nonces (request h0 d0 n0 os0 ex0)"
      "response_of (out_result (request h0 d0 n0 os0 ex0)) = Some r"
      "truthy (prop_get (res_headers r) ''dpop-nonce'')"
      "NQCHAR_test (prop_get (res_headers r) ''dpop-nonce'')"
      "new_URL h0 (prop_get os0 ''url'') = Some u0"
      "url_origin u0 @ url_pathname u0 = url_origin u @ url_pathname u" for h0 d0 n0 os0 ex0 r u0
    using request_stores_nonce[OF that(2,3,4,5)] that(1,6) by (simp add: nonceKey_def)
  show ?thesis
  proof (intro conjI allI impI)
    show "\<exists>rest. out_events ?R = ProofRequested payload (DPoP ex) (accessToken ex) # rest"
      by (rule c1)
  qed (use c2 c3 c4 c6 in blast)+
qed

lemma example_forging_run:
  "request example_forging_host example_defaults []
      [(''url'', JStr ''https://op.example/token'')] example_dpop_extras
   = \<lparr>out_result = Inl (RPError ''outgoing request timed out after 3500ms'', None),
      out_events =
        [ProofRequested (JObj [(''htu'', JStr ''https://op.example/token''),
                               (''htm'', JUndefined), (''nonce'', JUndefined)])
           (JOpaque 1) JUndefined,
         HookCalled (example_url ''https:'')
           (JObj [(''headers'', JObj [(''DPoP'', JStr ''proof:undefined''),
                                      (''User-Agent'', JStr ''openid-client'')]),
                  (''timeout'', JNum 3500)]),
         Http1Opened True (example_url ''https:'')
           [(''headers'', JObj [(''DPoP'', JStr ''forged''),
                                (''User-Agent'', JStr ''openid-client'')]),
            (''timeout'', JNum 3500)],
         Destroyed],
      out_nonces = [],
      out_options = [(''headers'', JObj [(''DPoP'', JStr ''proof:undefined''),
                                        (''User-Agent'', JStr ''openid-client'')])],
      out_req = Some \<lparr>req_kind = Http1,
                      req_headers = [(''DPoP'', JStr ''forged''),
                                     (''User-Agent'', JStr ''openid-client'')],
                      req_written = [], req_ended = True, req_destroyed = True,
                      req_closed = False\<rparr>\<rparr>"
proof -
  let ?h = "example_forging_host"
  let ?u = "example_url ''https:''"
  let ?o2 = "[(''headers'', JObj [(''DPoP'', JStr ''proof:undefined'')])]"
  let ?pre = "[(''headers'', JObj [(''DPoP'', JStr ''proof:undefined''),
                                      (''User-Agent'', JStr ''openid-client'')]),
                  (''timeout'', JNum 3500)]"
  let ?o3 = "[(''headers'', JObj [(''DPoP'', JStr ''proof:undefined''),
                                  (''User-Agent'', JStr ''openid-client'')])]"
  let ?m = "[(''headers'', JObj [(''DPoP'', JStr ''forged''),
                                (''User-Agent'', JStr ''openid-client'')]),
            (''timeout'', JNum 3500)]"
  let ?hs = "[(''DPoP'', JStr ''forged''), (''User-Agent'', JStr ''openid-client'')]"
  have d: "nat_digits 3500 = ''3500''"
    by (simp add: nat_digits.simps digit_char_def)
  have v: "validate_url ?h [(''url'', JStr ''https://op.example/token'')] = (Inr ?u, [])"
    by (simp add: validate_url_def example_forging_host_def example_dpop_host_def
        example_host_def example_url_def prop_get_def prop_delete_def)
  have i: "inject_proof ?h [] ?u [] example_dpop_extras
      = (None, ?o2, [],
         [ProofRequested (JObj [(''htu'', JStr ''https://op.example/token''),
                               (''htm'', JUndefined), (''nonce'', JUndefined)])
           (JOpaque 1) JUndefined])"
    by (simp add: inject_proof_def example_forging_host_def example_dpop_host_def
        example_host_def example_url_def example_dpop_extras_def prop_get_def lru_get_def
        nonceKey_def Let_def)
  have pre: "defaultsDeep [] [JObj ?o2, example_defaults] = ?pre"
    by (simp add: example_defaults_def prop_get_def)
  have ps: "premerge_shared example_defaults ?o2 = ?o3"
    by (simp add: premerge_shared_def pre prop_get_def del: defaultsDeep.simps)
  have pk: "pick (JObj [(''headers'', JObj [(''DPoP'', JStr ''forged'')])]) allowed
              = JObj [(''headers'', JObj [(''DPoP'', JStr ''forged'')])]"
    by (simp add: pick_def allowed_def prop_get_def)
  have mm: "defaultsDeep [] [JObj [(''headers'', JObj [(''DPoP'', JStr ''forged'')])],
                             JObj ?o3, example_defaults] = ?m"
    by (simp add: example_defaults_def prop_get_def)
  have hk: "optsFn ?h = Some (\<lambda>u pre.
          Inr (JObj [(''headers'', JObj [(''DPoP'', JStr ''forged'')])]))"
    by (simp add: example_forging_host_def)
  have r: "resolve_options ?h example_defaults ?u ?o2 = (Inr ?m, [HookCalled ?u (JObj ?pre)])"
    by (simp add: resolve_options_def hk pre ps pk mm del: defaultsDeep.simps)
  have m: "\<not> mtls_missing example_dpop_extras ?m"
    by (simp add: mtls_missing_def example_dpop_extras_def)
  have q: "open_request ?h (merge_search ?u (prop_get ?m ''searchParams''))
           (clean_headers (rest_opts ?m)) (prop_get ?m ''json'')
           (prop_get ?m ''form'') (prop_get ?m ''body'')
         = (Inr (new_request Http1 ?hs), [Http1Opened True ?u ?m])"
    by (simp add: stage_defs example_forging_host_def example_dpop_host_def)
  have a: "attempt ?h (clean_headers (rest_opts ?m))
           (prop_get ?m ''responseType'') (prop_get ?m ''form'')
           (prop_get ?m ''json'') (prop_get ?m ''body'') (new_request Http1 ?hs)
         = (Inl (RPError ''outgoing request timed out after 3500ms''), None,
            \<lparr>req_kind = Http1, req_headers = ?hs,
                      req_written = [], req_ended = True, req_destroyed = True,
                      req_closed = False\<rparr>, [Destroyed])"
    by (simp add: stage_defs example_forging_host_def example_dpop_host_def d)
  have f: "finish (nonceKey ?u) []
             (Inl (RPError ''outgoing request timed out after 3500ms'')) None
           = (Inl (RPError ''outgoing request timed out after 3500ms'', None), [], [])"
    by (simp add: finish_def)
  have one: "defaultsDeep [] [JObj [(''headers'', JObj [(''DPoP'', JStr ''forged'')])]]
               = [(''headers'', JObj [(''DPoP'', JStr ''forged'')])]"
    by (simp add: prop_get_def)
  have ht: "hook_target ?h example_defaults ?u ?o2
              = [(''headers'', JObj [(''DPoP'', JStr ''forged'')])]"
    by (simp add: hook_target_def hk pk one del: defaultsDeep.simps)
  have rs: "resolve_shared ?h example_defaults ?u ?o2 = ?o3"
    by (simp add: resolve_shared_def hk pk one ps mm prop_get_def del: defaultsDeep.simps)
  have cs: "clean_shared ?h example_defaults ?u ?o2 = ?o3"
    by (simp add: clean_shared_def r ht rs prop_get_def)
  from request_dispatched[OF v i r m q a f] cs show ?thesis by simp
qed

theorem proof_injected_witness:
  "(\<exists>rest. out_events (request (example_dpop_host NetTimeout) example_defaults
        (out_nonces (request
           (example_host (NetResponse (example_incoming [(''dpop-nonce'', JStr ''abc123'')])
              (Drained [])))
           example_defaults [] [(''url'', JStr ''https://op.example/token'')] example_extras))
        [(''url'', JStr ''https://op.example/token'')] example_dpop_extras)
      = ProofRequested (JObj [(''htu'', JStr ''https://op.example/token''),
                              (''htm'', JUndefined), (''nonce'', JStr ''abc123'')])
          (JOpaque 1) JUndefined # rest)
   \<and> js_get (prop_get (out_options (request (example_dpop_host NetTimeout) example_defaults
        (out_nonces (request
           (example_host (NetResponse (example_incoming [(''dpop-nonce'', JStr ''abc123'')])
              (Drained [])))
           example_defaults [] [(''url'', JStr ''https://op.example/token'')] example_extras))
        [(''url'', JStr ''https://op.example/token'')] example_dpop_extras)) ''headers'') ''DPoP''
      = JStr ''proof:abc123''
   \<and> (\<exists>rq. out_req (request (example_dpop_host NetTimeout) example_defaults
        (out_nonces (request
           (example_host (NetResponse (example_incoming [(''dpop-nonce'', JStr ''abc123'')])
              (Drained [])))
           example_defaults [] [(''url'', JStr ''https://op.example/token'')] example_extras))
        [(''url'', JStr ''https://op.example/token'')] example_dpop_extras) = Some rq
      \<and> prop_get (req_headers rq) ''DPoP'' = JStr ''proof:abc123'')
   \<and> (\<exists>rq. out_req (request example_forging_host example_defaults []
        [(''url'', JStr ''https://op.example/token'')] example_dpop_extras) = Some rq
      \<and> prop_get (req_headers rq) ''DPoP'' = JStr ''forged'')"
proof -
  let ?h1 = "example_host (NetResponse (example_incoming [(''dpop-nonce'', JStr ''abc123'')])
              (Drained []))"
  let ?os = "[(''url'', JStr ''https://op.example/token'')]"
  let ?R1 = "request ?h1 example_defaults [] ?os example_extras"
  let ?h = "example_dpop_host NetTimeout"
  let ?u = "example_url ''https:''"
  let ?pf = "\<lambda>(payload::jsval) (key::jsval) (token::jsval).
          (Inr (JStr (''proof:'' @ ToString (js_get payload ''nonce''))) :: error + jsval)"
  let ?r1 = "\<lparr>statusCode = JNum 200, res_headers = [(''dpop-nonce'', JStr ''abc123'')],
             res_body = NoBody\<rparr>"
  have a1: "new_URL ?h (prop_get ?os ''url'') = Some ?u"
    by (simp add: example_dpop_host_def example_host_def prop_get_def)
  have a2: "url_protocol ?u = ''http:'' \<or> url_protocol ?u = ''https:''"
    by (simp add: example_url_def)
  have a3: "truthy (DPoP example_dpop_extras)"
    by (simp add: example_dpop_extras_def)
  have a4: "dpopProof ?h = Some ?pf"
    by (simp add: example_dpop_host_def)
  have r1: "response_of (out_result ?R1) = Some ?r1"
    by (simp add: example_get)
  have good: "truthy (prop_get (res_headers ?r1) ''dpop-nonce'')"
    "NQCHAR_test (prop_get (res_headers ?r1) ''dpop-nonce'')"
    by (simp_all add: prop_get_def NQCHAR_test_def nqchar_def)
  have u1: "new_URL ?h1 (prop_get ?os ''url'') = Some ?u"
    by (simp add: example_host_def prop_get_def)
  have rq: "out_req (request ?h example_defaults (out_nonces ?R1) ?os example_dpop_extras)
     = Some \<lparr>req_kind = Http1,
                      req_headers = [(''DPoP'', JStr ''proof:abc123''),
                                     (''User-Agent'', JStr ''openid-client'')],
                      req_written = [], req_ended = True, req_destroyed = True,
                      req_closed = False\<rparr>"
    by (simp add: example_first_nonces example_dpop_run)
  note t = proof_injected[OF a1 a2 a3 a4 refl,
      where nonces = "out_nonces ?R1" and dflt = example_defaults]
  from t[THEN conjunct2, THEN conjunct2, THEN conjunct2, THEN conjunct2,
      rule_format, OF refl r1 good u1 refl]
  have n: "fst (lru_get (out_nonces ?R1) (url_origin ?u @ url_pathname ?u)) = JStr ''abc123''"
    by (simp add: prop_get_def)
  have k: "url_origin ?u @ url_pathname ?u = ''https://op.example/token''"
    by (simp add: example_url_def)
  have call: "?pf (JObj [(''htu'', JStr (url_origin ?u @ url_pathname ?u)),
                         (''htm'', prop_get ?os ''method''),
                         (''nonce'', fst (lru_get (out_nonces ?R1)
                                            (url_origin ?u @ url_pathname ?u)))])
                (DPoP example_dpop_extras) (accessToken example_dpop_extras)
              = Inr (JStr ''proof:abc123'')"
    by (simp add: n prop_get_def)
  have df: "JStr ''proof:abc123'' \<noteq> JUndefined" "\<not> is_obj (JStr ''proof:abc123'')"
    by simp_all
  have nt: "\<not> truthy (prop_get ?os ''headers'')" by (simp add: prop_get_def)
  have nh: "optsFn ?h = None" by (simp add: example_dpop_host_def example_host_def)
  from t[THEN conjunct1] n k
  have c1: "\<exists>rest. out_events (request ?h example_defaults (out_nonces ?R1) ?os example_dpop_extras)
      = ProofRequested (JObj [(''htu'', JStr ''https://op.example/token''),
                              (''htm'', JUndefined), (''nonce'', JStr ''abc123'')])
          (JOpaque 1) JUndefined # rest"
    by (simp add: prop_get_def example_dpop_extras_def)
  from t[THEN conjunct2, THEN conjunct2, THEN conjunct1, rule_format, OF call df disjI1[OF nt]]
  have c2: "js_get (prop_get (out_options (request ?h example_defaults (out_nonces ?R1) ?os
               example_dpop_extras)) ''headers'') ''DPoP'' = JStr ''proof:abc123''" .
  from t[THEN conjunct2, THEN conjunct2, THEN conjunct2, THEN conjunct1,
      rule_format, OF call df disjI1[OF nt] rq, THEN conjunct1, rule_format, OF nh]
  have c3: "prop_get (req_headers \<lparr>req_kind = Http1,
                      req_headers = [(''DPoP'', JStr ''proof:abc123''),
                                     (''User-Agent'', JStr ''openid-client'')],
                      req_written = [], req_ended = True, req_destroyed = True,
                      req_closed = False\<rparr>) ''DPoP'' = JStr ''proof:abc123''" .
  let ?g = "example_forging_host"
  let ?f = "\<lambda>(u::url) (pre::jsval).
          (Inr (JObj [(''headers'', JObj [(''DPoP'', JStr ''forged'')])]) :: error + jsval)"
  let ?pre = "JObj [(''headers'', JObj [(''DPoP'', JStr ''proof:undefined''),
                                      (''User-Agent'', JStr ''openid-client'')]),
                  (''timeout'', JNum 3500)]"
  let ?hu = "[(''DPoP'', JStr ''forged'')]"
  have b1: "new_URL ?g (prop_get ?os ''url'') = Some ?u"
    by (simp add: example_forging_host_def example_dpop_host_def example_host_def prop_get_def)
  have b4: "dpopProof ?g = Some ?pf"
    by (simp add: example_forging_host_def example_dpop_host_def)
  have call2: "?pf (JObj [(''htu'', JStr (url_origin ?u @ url_pathname ?u)),
                         (''htm'', prop_get ?os ''method''),
                         (''nonce'', fst (lru_get [] (url_origin ?u @ url_pathname ?u)))])
                (DPoP example_dpop_extras) (accessToken example_dpop_extras)
              = Inr (JStr ''proof:undefined'')"
    by (simp add: lru_get_def prop_get_def)
  have df2: "JStr ''proof:undefined'' \<noteq> JUndefined" "\<not> is_obj (JStr ''proof:undefined'')"
    by simp_all
  have hk: "optsFn ?g = Some ?f" by (simp add: example_forging_host_def)
  have ev: "HookCalled ?u ?pre \<in> set (out_events (request ?g example_defaults [] ?os
               example_dpop_extras))"
    by (simp add: example_forging_run)
  have fr: "?f ?u ?pre = Inr (JObj [(''headers'', JObj ?hu)])" by simp
  have hh: "js_get (JObj [(''headers'', JObj ?hu)]) ''headers'' = JObj ?hu"
    by (simp add: prop_get_def)
  have dh: "distinct (map fst ?hu)" by simp
  have gd: "prop_get ?hu ''DPoP'' \<noteq> JUndefined" "\<not> is_obj (prop_get ?hu ''DPoP'')"
    by (simp_all add: prop_get_def)
  have rq2: "out_req (request ?g example_defaults [] ?os example_dpop_extras)
     = Some \<lparr>req_kind = Http1,
                      req_headers = [(''DPoP'', JStr ''forged''),
                                     (''User-Agent'', JStr ''openid-client'')],
                      req_written = [], req_ended = True, req_destroyed = True,
                      req_closed = False\<rparr>"
    by (simp add: example_forging_run)
  note t2 = proof_injected[OF b1 a2 a3 b4 refl, where nonces = "[]" and dflt = example_defaults]
  from t2[THEN conjunct2, THEN conjunct2, THEN conjunct2, THEN conjunct1,
      rule_format, OF call2 df2 disjI1[OF nt] rq2, THEN conjunct2, rule_format, OF hk ev fr,
      THEN conjunct2, rule_format, OF hh dh, THEN conjunct2, rule_format, OF gd]
  have c4: "prop_get (req_headers \<lparr>req_kind = Http1,
                      req_headers = [(''DPoP'', JStr ''forged''),
                                     (''User-Agent'', JStr ''openid-client'')],
                      req_written = [], req_ended = True, req_destroyed = True,
                      req_closed = False\<rparr>) ''DPoP'' = JStr ''forged''"
    by (simp add: prop_get_def)
  from c1 c2 c3 c4 rq rq2 show ?thesis by blast
qed

text \<open>
  C5 as stated fails when the hook returns a \<open>DPoP\<close> header of its own: the capability
  returns \<open>proof:undefined\<close>, which is written to the caller's headers, and the request
  carries the hook's \<open>forged\<close>.
\<close>

theorem proof_injected_counterexample:
  "(\<exists>rest. out_events (request example_forging_host example_defaults []
        [(''url'', JStr ''https://op.example/token'')] example_dpop_extras)
      = ProofRequested (JObj [(''htu'', JStr ''https://op.example/token''),
                              (''htm'', JUndefined), (''nonce'', JUndefined)])
          (JOpaque 1) JUndefined # rest)
   \<and> dpopProof example_forging_host
       = Some (\<lambda>payload key token. Inr (JStr (''proof:'' @ ToString (js_get payload ''nonce''))))
   \<and> out_options (request example_forging_host example_defaults []
        [(''url'', JStr ''https://op.example/token'')] example_dpop_extras)
      = [(''headers'', JObj [(''DPoP'', JStr ''proof:undefined''),
                            (''User-Agent'', JStr ''openid-client'')])]
   \<and> out_req (request example_forging_host example_defaults []
        [(''url'', JStr ''https://op.example/token'')] example_dpop_extras)
      = Some \<lparr>req_kind = Http1,
               req_headers = [(''DPoP'', JStr ''forged''),
                              (''User-Agent'', JStr ''openid-client'')],
               req_written = [], req_ended = True, req_destroyed = True,
               req_closed = False\<rparr>"
proof -
  have "dpopProof example_forging_host
       = Some (\<lambda>payload key token. Inr (JStr (''proof:'' @ ToString (js_get payload ''nonce''))))"
    by (simp add: example_forging_host_def example_dpop_host_def)
  then show ?thesis by (simp add: example_forging_run)
qed

section \<open>Writes to the caller's options\<close>




















lemma inject_proof_headers_obj:
  assumes "inject_proof h n u os ex = (eo, o2, n1, ev)" and "is_obj (prop_get os ''headers'')"
  shows "is_obj (prop_get o2 ''headers'')"
proof (cases "dpopProof h = None \<or> \<not> truthy (DPoP ex)")
  case True
  from inject_proof_skip[OF True, of n u os] assms show ?thesis by simp
next
  case False
  then obtain pf where c: "dpopProof h = Some pf" and d: "truthy (DPoP ex)" by auto
  from assms(2) obtain hs where hs: "prop_get os ''headers'' = JObj hs"
    by (cases "prop_get os ''headers''") simp_all
  from inject_proof_apply[OF c d, of n u os] assms(1) hs show ?thesis
    by (auto simp: prop_get_set split: sum.splits)
qed



lemma request_defaults_kept:
  assumes "is_obj (prop_get options ''headers'')"
  shows "request_defaults h dflt nonces options ex = dflt"
proof -
  obtain x o1 where v: "validate_url h options = (x, o1)"
    by (cases "validate_url h options")
  show ?thesis
  proof (cases x)
    case (Inl e)
    with v show ?thesis by (simp add: request_defaults_def)
  next
    case (Inr u)
    with v have o1: "o1 = prop_delete options ''url''"
      by (auto simp: validate_url_def Let_def split: option.splits if_splits)
    obtain eo o2 n1 ev1 where i: "inject_proof h nonces u o1 ex = (eo, o2, n1, ev1)"
      by (cases "inject_proof h nonces u o1 ex")
    from assms o1 have "is_obj (prop_get o1 ''headers'')" by (simp add: prop_get_prop_delete)
    from inject_proof_headers_obj[OF i this] have "prop_get o2 ''headers'' \<noteq> JUndefined"
      by auto
    with v Inr i show ?thesis
      by (simp add: request_defaults_def split: option.splits prod.splits sum.splits)
  qed
qed

lemma request_defaults_cleaned:
  "request_defaults (example_host NetTimeout)
      (JObj [(''headers'', JObj [(''x-trace'', JUndefined), (''User-Agent'', JStr ''openid-client'')])])
      [] [(''url'', JStr ''https://op.example/token'')] example_extras
   = JObj [(''headers'', JObj [(''User-Agent'', JStr ''openid-client'')])]"
proof -
  let ?h = "example_host NetTimeout"
  let ?u = "example_url ''https:''"
  let ?d = "JObj [(''headers'', JObj [(''x-trace'', JUndefined), (''User-Agent'', JStr ''openid-client'')])]"
  have v: "validate_url ?h [(''url'', JStr ''https://op.example/token'')] = (Inr ?u, [])"
    by (simp add: example_validate prop_delete_def)
  have i: "inject_proof ?h [] ?u [] example_extras = (None, [], [], [])"
    by (simp add: inject_proof_skip example_host_def)
  have r: "resolve_options ?h ?d ?u [] = (Inr (entries ?d), [])"
    by (simp add: resolve_options_no_hook example_host_def prop_get_def)
  have m: "\<not> mtls_missing example_extras (entries ?d)"
    by (simp add: mtls_missing_def example_extras_def)
  have t: "hook_target ?h ?d ?u [] = []"
    by (simp add: hook_target_def example_host_def)
  from v i r m t show ?thesis
    by (simp add: request_defaults_def prop_get_def)
qed






end
